(* ===== verification/Rust_Std_Laws.thy ===== *)
theory Rust_Std_Laws
  imports Rust_Std
begin

text \<open>
  Laws of the standard library functions of \<open>Rust_Std\<close>: splitting and joining, lines and
  their terminators, trimming, UTF-8 validity under concatenation, and the round trips of the
  decimal and big-endian representations.
\<close>

section \<open>Splitting\<close>

lemma split_by_not_Nil [simp]: "split_by p s \<noteq> []"
  by (induction s) (auto split: list.splits)

lemma split_on_not_Nil [simp]: "split_on d s \<noteq> []"
  by (simp add: split_on_def)

lemma split_by_none: "list_all (\<lambda>c. \<not> p c) s \<Longrightarrow> split_by p s = [s]"
  by (induction s) auto

lemma split_by_append: "p d \<Longrightarrow> split_by p (a @ d # b) = split_by p a @ split_by p b"
  by (induction a) (auto split: list.splits)

lemma split_by_pieces: "w \<in> set (split_by p s) \<Longrightarrow> list_all (\<lambda>c. \<not> p c) w"
  by (induction s arbitrary: w) (auto split: list.splits if_splits)

lemma split_on_none: "d \<notin> set s \<Longrightarrow> split_on d s = [s]"
  by (auto simp: split_on_def list_all_iff intro!: split_by_none)

lemma split_on_append: "d \<notin> set a \<Longrightarrow> split_on d (a @ d # b) = a # split_on d b"
  using split_by_none [of "\<lambda>c. c = d" a]
  by (auto simp: split_on_def split_by_append list_all_iff)

lemma split_on_pieces: "w \<in> set (split_on d s) \<Longrightarrow> d \<notin> set w"
  using split_by_pieces [of w "\<lambda>c. c = d" s] by (auto simp: split_on_def list_all_iff)

lemma split_ascii_whitespace_word:
  "s \<noteq> [] \<Longrightarrow> list_all (\<lambda>c. \<not> is_ascii_whitespace c) s \<Longrightarrow> split_ascii_whitespace s = [s]"
  by (simp add: split_ascii_whitespace_def split_by_none)

lemma split_ascii_whitespace_Cons:
  "w \<noteq> [] \<Longrightarrow> list_all (\<lambda>c. \<not> is_ascii_whitespace c) w \<Longrightarrow>
   split_ascii_whitespace (w @ CHR '' '' # s) = w # split_ascii_whitespace s"
  by (simp add: split_ascii_whitespace_def split_by_append split_by_none is_ascii_whitespace_def)

lemma split_ascii_whitespace_pieces:
  "w \<in> set (split_ascii_whitespace s) \<Longrightarrow> w \<noteq> [] \<and> list_all (\<lambda>c. \<not> is_ascii_whitespace c) w"
  by (auto simp: split_ascii_whitespace_def dest: split_by_pieces)

section \<open>Lines\<close>

lemma lines_Nil [simp]: "lines [] = []"
  by (simp add: lines_def split_on_def)

lemma lines_append: "nl \<notin> set l \<Longrightarrow> lines (l @ nl # s) = strip_cr l # lines s"
  by (auto simp: lines_def split_on_append Let_def)

lemma strip_cr_id: "l = [] \<or> last l \<noteq> cr \<Longrightarrow> strip_cr l = l"
  by (auto simp: strip_cr_def)

lemma lines_terminated:
  "list_all (\<lambda>l. nl \<notin> set l \<and> (l = [] \<or> last l \<noteq> cr)) ls \<Longrightarrow>
   lines (concat (map (\<lambda>l. l @ [nl]) ls) @ s) = ls @ lines s"
  by (induction ls) (simp_all add: lines_append strip_cr_id)

lemma set_strip_cr: "set (strip_cr l) \<subseteq> set l"
  by (auto simp: strip_cr_def dest: in_set_butlastD)

lemma lines_no_nl: "l \<in> set (lines s) \<Longrightarrow> nl \<notin> set l"
  using set_strip_cr
  by (auto simp: lines_def Let_def split: if_splits
      dest!: split_on_pieces in_set_butlastD)
     (metis last_in_set split_on_not_Nil split_on_pieces)+

section \<open>Decimal numbers\<close>

lemma digit_char_digit [simp]: "n < 10 \<Longrightarrow> is_ascii_digit (digit_char n)"
  by (auto simp: is_ascii_digit_def digit_char_def less_eq_char_def)

lemma digit_value_char [simp]: "n < 10 \<Longrightarrow> digit_value (digit_char n) = n"
  by (simp add: digit_value_def digit_char_def)

lemma dec_value_snoc: "dec_value (s @ [c]) = 10 * dec_value s + digit_value c"
  by (simp add: dec_value_def)

lemma dec_value_show_nat [simp]: "dec_value (show_nat n) = n"
proof (induction n rule: show_nat.induct)
  case (1 n)
  then show ?case
    by (cases "n < 10")
       (simp_all add: show_nat.simps [of n] dec_value_snoc, simp add: dec_value_def)
qed

lemma show_nat_not_Nil [simp]: "show_nat n \<noteq> []"
  by (subst show_nat.simps) simp

lemma show_nat_digits: "list_all is_ascii_digit (show_nat n)"
  by (induction n rule: show_nat.induct) (subst show_nat.simps, auto)

lemma hd_show_nat: "0 < n \<Longrightarrow> hd (show_nat n) \<noteq> CHR ''0''"
proof (induction n rule: show_nat.induct)
  case (1 n)
  show ?case
  proof (cases "n < 10")
    case True
    with "1.prems" have "digit_char n \<noteq> CHR ''0''"
      using digit_value_char [of n] by (auto simp: digit_value_def)
    with True show ?thesis by (subst show_nat.simps) simp
  next
    case False
    then have "0 < n div 10" by simp
    with 1 False show ?thesis by (subst show_nat.simps) simp
  qed
qed

lemma length_show_nat: "n < 10 ^ k \<Longrightarrow> 0 < k \<Longrightarrow> length (show_nat n) \<le> k"
proof (induction k arbitrary: n)
  case (Suc k)
  show ?case
  proof (cases "n < 10")
    case True
    then show ?thesis by (subst show_nat.simps) simp
  next
    case False
    then have "0 < k" using Suc.prems by (cases k) auto
    moreover have "n div 10 < 10 ^ k" using Suc.prems by (simp add: less_mult_imp_div_less mult.commute)
    ultimately have "length (show_nat (n div 10)) \<le> k" by (simp add: Suc.IH)
    with False show ?thesis by (subst show_nat.simps) simp
  qed
qed simp

lemma digit_neq:
  "is_ascii_digit c \<Longrightarrow> c \<noteq> CHR ''+''"
  "is_ascii_digit c \<Longrightarrow> c \<noteq> CHR ''.''"
  "is_ascii_digit c \<Longrightarrow> \<not> is_ascii_whitespace c"
  "is_ascii_digit c \<Longrightarrow> c \<noteq> nl"
  "is_ascii_digit c \<Longrightarrow> c \<noteq> cr"
  "is_ascii_digit c \<Longrightarrow> is_ascii_char c"
  by (auto simp: is_ascii_digit_def is_ascii_whitespace_def is_ascii_char_def less_eq_char_def)

theorem parse_show_uint: "n \<le> bound \<Longrightarrow> parse_uint bound (show_nat n) = Some n"
proof -
  assume n: "n \<le> bound"
  have "(case show_nat n of CHR ''+'' # r \<Rightarrow> r | _ \<Rightarrow> show_nat n) = show_nat n"
  proof (cases "show_nat n")
    case (Cons c cs)
    then have "is_ascii_digit c" using show_nat_digits [of n] by simp
    then have "c \<noteq> CHR ''+''" by (rule digit_neq)
    with Cons show ?thesis by (auto split: char.splits bool.splits)
  qed simp
  with n show ?thesis by (simp add: parse_uint_def show_nat_digits)
qed

lemma parse_uint_bound: "parse_uint bound s = Some n \<Longrightarrow> n \<le> bound"
  by (auto simp: parse_uint_def Let_def split: if_splits)

section \<open>IPv4\<close>

lemma parse_octet_show [simp]: "parse_octet (show_u8 b) = Some b"
proof -
  have u: "unat b < 256" by simp
  have len: "length (show_nat (unat b)) \<le> 3"
    by (rule length_show_nat) (simp_all add: less_trans [OF unat_u8_less])
  have lead: "\<not> (hd (show_nat (unat b)) = CHR ''0'' \<and> 1 < length (show_nat (unat b)))"
  proof (cases "unat b = 0")
    case True
    then show ?thesis by (simp add: show_nat.simps)
  next
    case False
    then show ?thesis using hd_show_nat [of "unat b"] by simp
  qed
  from u len lead show ?thesis
    by (auto simp: parse_octet_def show_u8_def show_nat_digits)
qed

lemma dot_notin_show_u8 [simp]: "CHR ''.'' \<notin> set (show_u8 b)"
  using show_nat_digits [of "unat b"] by (auto simp: show_u8_def list_all_iff dest: digit_neq)

theorem parse_show_ipv4 [simp]: "parse_ipv4 (show_ipv4 ip) = Some ip"
  by (cases ip) (simp add: parse_ipv4_def split_on_append split_on_none)

lemma show_ipv4_inj [simp]: "show_ipv4 a = show_ipv4 b \<longleftrightarrow> a = b"
  by (metis option.inject parse_show_ipv4)

lemma ipv4_from_octets_octets [simp]: "ipv4_from_octets (ipv4_octets ip) = Some ip"
  by (cases ip) simp

section \<open>Big-endian integers\<close>

lemma u16_be_roundtrip [simp]:
  "u16_from_be_bytes (ucast (drop_bit 8 w)) (ucast w) = w"
  unfolding u16_from_be_bytes_def
  by (rule bit_word_eqI) (auto simp: bit_simps)

lemma u32_be_roundtrip [simp]:
  "u32_from_be_bytes (ucast (drop_bit 24 w)) (ucast (drop_bit 16 w)) (ucast (drop_bit 8 w)) (ucast w) = w"
  unfolding u32_from_be_bytes_def
proof (rule bit_word_eqI)
  fix n
  assume "n < LENGTH(32)"
  then show "bit (push_bit 24 (ucast (ucast (drop_bit 24 w) :: u8)) OR
    push_bit 16 (ucast (ucast (drop_bit 16 w) :: u8)) OR
    push_bit 8 (ucast (ucast (drop_bit 8 w) :: u8)) OR ucast (ucast w :: u8) :: u32) n = bit w n"
    by (cases "n < 8"; cases "n < 16"; cases "n < 24") (auto simp: bit_simps)
qed

section \<open>Trimming\<close>

definition plain_char :: "char \<Rightarrow> bool" where
  "plain_char c \<longleftrightarrow> CHR 0x21 \<le> c \<and> c \<le> CHR 0x7E"

definition plain_ends :: "string \<Rightarrow> bool" where
  "plain_ends s \<longleftrightarrow> s \<noteq> [] \<and> plain_char (hd s) \<and> plain_char (last s)"

lemma trim_with_id:
  assumes "\<And>w. w \<in> set tbl \<Longrightarrow> w \<noteq> [] \<and> hd w \<noteq> hd s"
  shows "trim_with tbl s = s"
proof -
  have "ws_prefix tbl s = 0"
  proof (cases s)
    case Nil
    then show ?thesis by (simp add: ws_prefix_def split: option.splits)
  next
    case (Cons c cs)
    have "find (\<lambda>w. starts_with w s) tbl = None"
      unfolding find_None_iff using assms Cons
      by (auto simp: starts_with_def) (metis list.sel(1) take_eq_Nil2 hd_take length_greater_0_conv)
    then show ?thesis by (simp add: ws_prefix_def)
  qed
  then show ?thesis by (subst trim_with.simps) simp
qed

lemma white_space_not_plain:
  "w \<in> set white_space \<Longrightarrow> w \<noteq> [] \<and> \<not> plain_char (hd w) \<and> \<not> plain_char (last w)"
  by (auto simp: white_space_def plain_char_def less_eq_char_def)

lemma trim_start_id: "plain_char (hd s) \<Longrightarrow> trim_start s = s"
  unfolding trim_start_def by (rule trim_with_id) (metis white_space_not_plain)

lemma trim_end_id: "s \<noteq> [] \<Longrightarrow> plain_char (last s) \<Longrightarrow> trim_end s = s"
proof -
  assume s: "s \<noteq> []" "plain_char (last s)"
  have "trim_with (map rev white_space) (rev s) = rev s"
  proof (rule trim_with_id)
    fix w
    assume "w \<in> set (map rev white_space)"
    then obtain v where "v \<in> set white_space" "w = rev v" by auto
    with white_space_not_plain [of v] s show "w \<noteq> [] \<and> hd w \<noteq> hd (rev s)"
      by (auto simp: hd_rev)
  qed
  then show ?thesis by (simp add: trim_end_def)
qed

lemma trim_id: "plain_ends s \<Longrightarrow> trim s = s"
  by (simp add: trim_def plain_ends_def trim_start_id trim_end_id)

lemma trim_with_done: "ws_prefix tbl (trim_with tbl s) = 0"
proof (induction tbl s rule: trim_with.induct)
  case (1 tbl s)
  then show ?case by (cases "ws_prefix tbl s = 0") (simp_all add: trim_with.simps [of tbl s])
qed

lemma ws_prefix_take:
  assumes "[] \<notin> set tbl" "ws_prefix tbl (s @ t) = 0"
  shows "ws_prefix tbl s = 0"
proof -
  have "find (\<lambda>w. starts_with w (s @ t)) tbl = None"
  proof (cases "find (\<lambda>w. starts_with w (s @ t)) tbl")
    case (Some w)
    then have "w \<in> set tbl" "starts_with w (s @ t)" by (auto simp: find_Some_iff)
    moreover from this assms have "min (length w) (length (s @ t)) = 0" "w \<noteq> []" using Some by (auto simp: ws_prefix_def)
    ultimately show ?thesis by (simp add: starts_with_def min_def split: if_splits)
  qed
  then have "find (\<lambda>w. starts_with w s) tbl = None"
    by (auto simp: find_None_iff starts_with_def)
  then show ?thesis by (simp add: ws_prefix_def)
qed

lemma trim_with_suffix: "\<exists>t. s = t @ trim_with tbl s"
proof (induction tbl s rule: trim_with.induct)
  case (1 tbl s)
  show ?case
  proof (cases "ws_prefix tbl s = 0")
    case False
    with 1 obtain t where "drop (ws_prefix tbl s) s = t @ trim_with tbl (drop (ws_prefix tbl s) s)" by blast
    then have "s = (take (ws_prefix tbl s) s @ t) @ trim_with tbl s"
      using False by (metis append.assoc append_take_drop_id trim_with.simps)
    then show ?thesis by blast
  qed (simp add: trim_with.simps [of tbl s])
qed

lemma trim_idem: "trim (trim s) = trim s"
proof -
  have start: "trim_start u = u \<longleftrightarrow> ws_prefix white_space u = 0" "trim_end u = u \<longleftrightarrow> ws_prefix (map rev white_space) (rev u) = 0" for u
    unfolding trim_start_def trim_end_def
    by (metis trim_with.simps trim_with_done, metis rev_rev_ident trim_with.simps trim_with_done)
  obtain t where "trim_start s = trim s @ rev t"
    using trim_with_suffix [of "rev (trim_start s)" "map rev white_space"] unfolding trim_def trim_end_def
    by (metis rev_append rev_rev_ident)
  moreover have "[] \<notin> set white_space" using white_space_not_plain by blast
  ultimately have "ws_prefix white_space (trim s) = 0"
    using ws_prefix_take trim_with_done unfolding trim_start_def by metis
  moreover have "ws_prefix (map rev white_space) (rev (trim s)) = 0"
    unfolding trim_def trim_end_def by (simp add: trim_with_done)
  ultimately show ?thesis using start unfolding trim_def [of "trim s"] by metis
qed

lemma trim_end_matches_id: "s = [] \<or> \<not> p (last s) \<Longrightarrow> trim_end_matches p s = s"
  by (cases s rule: rev_cases) (auto simp: trim_end_matches_def)

lemma last_trim_end_matches: "trim_end_matches p s \<noteq> [] \<Longrightarrow> \<not> p (last (trim_end_matches p s))"
  by (metis (no_types) hd_dropWhile last_rev rev_is_Nil_conv trim_end_matches_def)

lemma trim_end_matches_prefix: "\<exists>t. s = trim_end_matches p s @ t \<and> list_all p t"
proof -
  have "rev s = takeWhile p (rev s) @ dropWhile p (rev s)" by simp
  then have "s = trim_end_matches p s @ rev (takeWhile p (rev s))"
    by (metis rev_append rev_rev_ident trim_end_matches_def)
  moreover have "list_all p (rev (takeWhile p (rev s)))"
    by (auto simp: list_all_iff dest: set_takeWhileD)
  ultimately show ?thesis by blast
qed

section \<open>Terminated lines\<close>

definition unlines :: "string list \<Rightarrow> string" where
  "unlines ls = concat (map (\<lambda>l. l @ [nl]) ls)"

lemma unlines_simps [simp]:
  "unlines [] = []" "unlines (l # ls) = l @ nl # unlines ls"
  "unlines (ls @ ks) = unlines ls @ unlines ks"
  by (simp_all add: unlines_def)

lemma lines_unlines:
  "list_all (\<lambda>l. nl \<notin> set l \<and> (l = [] \<or> last l \<noteq> cr)) ls \<Longrightarrow> lines (unlines ls) = ls"
  using lines_terminated [of ls "[]"] by (simp add: unlines_def)

section \<open>UTF-8 under concatenation\<close>

lemma utf8_ascii_byte:
  assumes "x \<le> (0x7F :: u8)"
  shows "utf8_char_width x = 1" and "\<not> utf8_cont x" and "\<not> utf8_second b x"
proof -
  show "utf8_char_width x = 1" using assms by (simp add: utf8_char_width_def)
  show "\<not> utf8_cont x" using assms by (auto simp: utf8_cont_def dest: order_trans)
  then show "\<not> utf8_second b x" by (simp add: utf8_second_def)
qed

lemma utf8_valid_append: "utf8_valid a \<Longrightarrow> utf8_valid (a @ b) = utf8_valid b"
proof (induction a rule: utf8_valid.induct)
  case (2 c cs)
  then show ?case by (auto split: if_splits list.splits)
qed simp

lemma utf8_valid_ascii_split:
  assumes x: "x \<le> 0x7F"
  shows "utf8_valid (a @ x # b) \<longleftrightarrow> utf8_valid a \<and> utf8_valid b"
proof (induction a rule: length_induct)
  case (1 a)
  note ascii = utf8_ascii_byte [OF x]
  have IH: "utf8_valid (a' @ x # b) \<longleftrightarrow> utf8_valid a' \<and> utf8_valid b" if "length a' < length a" for a'
    using 1 that by blast
  show ?case
  proof (cases a)
    case Nil
    then show ?thesis by (simp add: ascii)
  next
    case (Cons c cs)
    have "cs = [] \<or> (\<exists>d. cs = [d]) \<or> (\<exists>d e. cs = [d, e]) \<or> (\<exists>d e f r. cs = d # e # f # r)"
      by (cases cs; cases "tl cs"; cases "tl (tl cs)") auto
    moreover have no: "(case ys of [] \<Rightarrow> False | _ # _ \<Rightarrow> False) = False" for ys :: bytes
      by (cases ys) auto
    moreover have "(case ys of [] \<Rightarrow> False | [c] \<Rightarrow> False | c # _ # _ \<Rightarrow> False) = False" for ys :: bytes
      by (cases ys; cases "tl ys") auto
    ultimately show ?thesis
      using IH [of "[]"] IH [of "drop 1 cs"] IH [of "drop 2 cs"] IH [of "drop 3 cs"] IH [of cs]
      unfolding Cons
      by (elim disjE exE) (simp_all add: utf8_valid.simps(2) [of c] ascii Cons del: utf8_valid.simps(2))
  qed
qed

lemma utf8_valid_ascii: "is_ascii s \<Longrightarrow> utf8_valid (as_bytes s)"
proof (induction s)
  case (Cons c s)
  have "(of_char c :: u8) \<le> 0x7F" using Cons.prems
    by (simp add: is_ascii_def is_ascii_char_def less_eq_char_def word_le_nat_alt)
  with Cons show ?case by (simp add: as_bytes_def is_ascii_def utf8_ascii_byte)
qed (simp add: as_bytes_def)

definition utf8_str :: "string \<Rightarrow> bool" where
  "utf8_str s \<longleftrightarrow> utf8_valid (as_bytes s)"

lemma utf8_str_ascii_char:
  "is_ascii_char c \<Longrightarrow> utf8_str (a @ c # b) \<longleftrightarrow> utf8_str a \<and> utf8_str b"
proof -
  assume "is_ascii_char c"
  then have "(of_char c :: u8) \<le> 0x7F"
    by (simp add: is_ascii_char_def less_eq_char_def word_le_nat_alt)
  from utf8_valid_ascii_split [OF this] show ?thesis by (simp add: utf8_str_def as_bytes_def)
qed

lemma utf8_str_Nil [simp]: "utf8_str []"
  by (simp add: utf8_str_def as_bytes_def)

lemma is_ascii_char_control [simp]: "is_ascii_char nl" "is_ascii_char cr"
  by (simp_all add: is_ascii_char_def less_eq_char_def)

lemma utf8_str_unlines: "utf8_str (unlines ls) \<longleftrightarrow> list_all utf8_str ls"
  by (induction ls) (simp_all add: utf8_str_ascii_char)

lemma utf8_str_split_on:
  "is_ascii_char d \<Longrightarrow> utf8_str s \<Longrightarrow> w \<in> set (split_on d s) \<Longrightarrow> utf8_str w"
proof (induction "length s" arbitrary: s rule: less_induct)
  case less
  show ?case
  proof (cases "d \<in> set s")
    case False
    then show ?thesis using less.prems by (simp add: split_on_none)
  next
    case True
    then obtain a b where s: "s = a @ d # b" "d \<notin> set a" by (meson split_list_first)
    then have "utf8_str a" "utf8_str b" using less.prems utf8_str_ascii_char by auto
    moreover have "w = a \<or> w \<in> set (split_on d b)"
      using less.prems s by (simp add: split_on_append)
    ultimately show ?thesis using less.hyps [of b] less.prems s by auto
  qed
qed

lemma utf8_str_butlast_ascii:
  "is_ascii_char c \<Longrightarrow> utf8_str (a @ [c]) \<longleftrightarrow> utf8_str a"
  using utf8_str_ascii_char [of c a "[]"] by simp

lemma utf8_str_strip_cr: "utf8_str l \<Longrightarrow> utf8_str (strip_cr l)"
  by (cases l rule: rev_cases) (auto simp: strip_cr_def utf8_str_butlast_ascii)

lemma utf8_str_lines: "utf8_str s \<Longrightarrow> l \<in> set (lines s) \<Longrightarrow> utf8_str l"
  by (auto simp: lines_def Let_def split: if_splits
      intro!: utf8_str_strip_cr utf8_str_split_on [of nl s] dest!: in_set_butlastD)

lemma utf8_str_trim_cr: "utf8_str s \<Longrightarrow> utf8_str (trim_end_matches (\<lambda>c. c = cr) s)"
proof (induction s rule: rev_induct)
  case (snoc c s)
  then show ?case
    by (cases "c = cr") (auto simp: trim_end_matches_def utf8_str_butlast_ascii)
qed (simp add: trim_end_matches_def)

end
