(* ===== verification/Openvpn.thy ===== *)
theory Openvpn
  imports Rust_Std_Laws
begin

text \<open>
  The profile sanitizer of \<open>src/src/openvpn.rs\<close>: an untrusted OpenVPN profile is parsed
  line by line against a fixed directive allowlist and a new profile is rendered from the
  values that were kept.  The local variables of \<open>sanitize_openvpn\<close> are the record
  \<open>parse_state\<close>; its two loops are \<open>read_block\<close> (the lines of an inline block) and
  \<open>parse_lines\<close>; its \<open>match\<close> on the directive is \<open>apply_directive\<close>.  BLAKE3 is an argument.
\<close>

section \<open>Data\<close>

definition MAX_PROFILE_BYTES :: nat where "MAX_PROFILE_BYTES = 256 * 1024"
definition MAX_LINE_BYTES :: nat where "MAX_LINE_BYTES = 4096"
definition MAX_BLOCK_BYTES :: nat where "MAX_BLOCK_BYTES = 96 * 1024"

record sanitized_openvpn =
  so_rendered :: string
  so_remote :: socket_addr_v4
  so_digest :: bytes

datatype openvpn_config_error =
    TooLarge
  | InvalidUtf8
  | LineTooLong
  | UnsupportedDirective string
  | DangerousDirective string
  | ExternalFile string
  | UnsupportedProtocol
  | InvalidDevice
  | InvalidRemote
  | RemoteMismatch
  | MissingInlineBlock string
  | InvalidInlineBlock string
  | InvalidValue string

record parse_state =
  ps_blocks :: "string \<rightharpoonup> string"
  ps_options :: "string list"
  ps_remote :: "socket_addr_v4 option"
  ps_saw_tcp :: bool
  ps_saw_tun :: bool

definition parse_start :: parse_state where
  "parse_start =
     \<lparr>ps_blocks = Map.empty, ps_options = [], ps_remote = None, ps_saw_tcp = False, ps_saw_tun = False\<rparr>"

text \<open>A \<open>BTreeSet<String>\<close> is its elements in ascending order.\<close>

definition btree_insert :: "string \<Rightarrow> string list \<Rightarrow> string list" where
  "btree_insert x xs = (if List.member xs x then xs else insort x xs)"

section \<open>Helpers\<close>

definition opening_block :: "string \<Rightarrow> string option" where
  "opening_block line =
     (case Option.bind (strip_prefix ''<'' line) (strip_suffix ''>'') of
        None \<Rightarrow> None
      | Some value \<Rightarrow> if \<not> starts_with ''/'' value \<and> value \<noteq> [] then Some value else None)"

definition exactly_one_value :: "string list \<Rightarrow> string \<Rightarrow> openvpn_config_error + string" where
  "exactly_one_value tokens directive =
     (case tokens of [_, value] \<Rightarrow> Inr value | _ \<Rightarrow> Inl (InvalidValue directive))"

definition ensure_no_values :: "string list \<Rightarrow> string \<Rightarrow> openvpn_config_error + unit" where
  "ensure_no_values tokens directive =
     (if length tokens = 1 then Inr () else Inl (InvalidValue directive))"

definition validate_ignored_scalar :: "string list \<Rightarrow> string \<Rightarrow> openvpn_config_error + unit" where
  "validate_ignored_scalar tokens directive =
     (if length tokens = 2 \<and> length (tokens ! 1) \<le> 16
         \<and> list_all (\<lambda>c. is_ascii_alphanumeric c \<or> c = CHR ''-'') (tokens ! 1)
      then Inr () else Inl (InvalidValue directive))"

definition is_safe_crypto_value :: "string \<Rightarrow> bool" where
  "is_safe_crypto_value value \<longleftrightarrow>
     value \<noteq> [] \<and> length value \<le> 256
     \<and> list_all (\<lambda>c. is_ascii_alphanumeric c
         \<or> c \<in> {CHR ''-'', CHR ''_'', CHR '':'', CHR '','', CHR ''.''}) value"

definition dangerous_directives :: "string list" where
  "dangerous_directives =
     [''up'', ''down'', ''route-up'', ''route-pre-down'', ''ipchange'', ''client-connect'',
      ''client-disconnect'', ''learn-address'', ''auth-user-pass-verify'', ''tls-verify'',
      ''plugin'', ''script-security'', ''management'', ''management-client'',
      ''management-external-key'', ''management-external-cert'', ''management-query-passwords'',
      ''management-hold'', ''daemon'', ''log'', ''log-append'', ''status'', ''writepid'',
      ''chroot'', ''cd'', ''user'', ''group'', ''route'', ''route-ipv6'', ''redirect-gateway'',
      ''ifconfig'', ''ifconfig-ipv6'', ''socks-proxy'', ''http-proxy'', ''auth-user-pass'']"

definition is_dangerous :: "string \<Rightarrow> bool" where
  "is_dangerous directive = List.member dangerous_directives directive"

definition is_tcp_protocol :: "string \<Rightarrow> bool" where
  "is_tcp_protocol p = List.member [''tcp'', ''tcp-client'', ''tcp4'', ''tcp4-client''] p"

definition block_names :: "string list" where
  "block_names = [''ca'', ''cert'', ''key'', ''tls-auth'', ''tls-crypt'']"

definition crypto_directives :: "string list" where
  "crypto_directives =
     [''cipher'', ''auth'', ''data-ciphers'', ''data-ciphers-fallback'', ''tls-version-min'', ''tls-cipher'']"

definition flag_directives :: "string list" where
  "flag_directives =
     [''client'', ''tls-client'', ''nobind'', ''persist-key'', ''persist-tun'', ''pull'', ''auth-nocache'']"

definition scalar_directives :: "string list" where
  "scalar_directives =
     [''resolv-retry'', ''connect-retry'', ''connect-retry-max'', ''connect-timeout'',
      ''server-poll-timeout'', ''verb'', ''mute'']"

section \<open>One directive\<close>

definition add_option :: "parse_state \<Rightarrow> string \<Rightarrow> parse_state" where
  "add_option st opt = st\<lparr>ps_options := btree_insert opt (ps_options st)\<rparr>"

definition remote_directive ::
    "ipv4addr \<Rightarrow> parse_state \<Rightarrow> string list \<Rightarrow> openvpn_config_error + parse_state" where
  "remote_directive expected_ip st tokens =
     (if ps_remote st \<noteq> None \<or> \<not> (3 \<le> length tokens \<and> length tokens \<le> 4) then Inl InvalidRemote
      else
        and_then (ok_or InvalidRemote (parse_ipv4 (tokens ! 1))) (\<lambda>host.
        if host \<noteq> expected_ip then Inl RemoteMismatch
        else
          and_then (ok_or InvalidRemote
            (case parse_u16 (tokens ! 2) of
               Some p \<Rightarrow> if p = 0 then None else Some (of_nat p :: u16)
             | None \<Rightarrow> None)) (\<lambda>port.
          if length tokens = 4 \<and> \<not> is_tcp_protocol (to_ascii_lowercase (tokens ! 3))
          then Inl UnsupportedProtocol
          else Inr (st\<lparr>ps_remote := Some \<lparr>sock_ip = host, sock_port = port\<rparr>\<rparr>))))"

definition apply_directive ::
    "ipv4addr \<Rightarrow> parse_state \<Rightarrow> string list \<Rightarrow> openvpn_config_error + parse_state" where
  "apply_directive expected_ip st tokens =
     (case tokens of
        [] \<Rightarrow> Inr st
      | first # _ \<Rightarrow>
        let directive = to_ascii_lowercase first in
        if is_dangerous directive then Inl (DangerousDirective directive)
        else if directive = ''proto'' then
          and_then (exactly_one_value tokens ''proto'') (\<lambda>value.
            if is_tcp_protocol (to_ascii_lowercase value) then Inr (st\<lparr>ps_saw_tcp := True\<rparr>)
            else Inl UnsupportedProtocol)
        else if directive = ''dev'' then
          and_then (exactly_one_value tokens ''dev'') (\<lambda>value.
            if value = ''tun'' then Inr (st\<lparr>ps_saw_tun := True\<rparr>) else Inl InvalidDevice)
        else if directive = ''dev-type'' then
          and_then (exactly_one_value tokens ''dev-type'') (\<lambda>value.
            if value = ''tun'' then Inr st else Inl InvalidDevice)
        else if directive = ''remote'' then remote_directive expected_ip st tokens
        else if List.member (block_names @ [''pkcs12'']) directive then Inl (ExternalFile directive)
        else if List.member crypto_directives directive then
          and_then (exactly_one_value tokens directive) (\<lambda>value.
            if is_safe_crypto_value value then Inr (add_option st (directive @ '' '' @ value))
            else Inl (InvalidValue directive))
        else if directive = ''key-direction'' then
          and_then (exactly_one_value tokens ''key-direction'') (\<lambda>value.
            if List.member [''0'', ''1''] value then Inr (add_option st (''key-direction '' @ value))
            else Inl (InvalidValue directive))
        else if directive = ''remote-cert-tls'' then
          and_then (exactly_one_value tokens ''remote-cert-tls'') (\<lambda>value.
            if value = ''server'' then Inr (add_option st ''remote-cert-tls server'')
            else Inl (InvalidValue directive))
        else if List.member flag_directives directive then
          and_then (ensure_no_values tokens directive) (\<lambda>_. Inr st)
        else if List.member scalar_directives directive then
          and_then (validate_ignored_scalar tokens directive) (\<lambda>_. Inr st)
        else if directive = ''setenv'' \<and> tokens = [''setenv'', ''opt'', ''block-outside-dns''] then Inr st
        else Inl (UnsupportedDirective directive))"

section \<open>Inline blocks and the line loop\<close>

definition close_tag :: "string \<Rightarrow> string" where
  "close_tag name = ''</'' @ name @ ''>''"

definition open_tag :: "string \<Rightarrow> string" where
  "open_tag name = ''<'' @ name @ ''>''"

fun read_block ::
    "string \<Rightarrow> string \<Rightarrow> string list \<Rightarrow> openvpn_config_error + (string \<times> string list)" where
  "read_block name body [] = Inl (InvalidInlineBlock name)"
| "read_block name body (l # ls) =
     (let block_line = trim_end_matches (\<lambda>c. c = cr) l in
      if trim block_line = close_tag name then Inr (body, ls)
      else if opening_block (trim block_line) \<noteq> None \<or> List.member block_line nul
      then Inl (InvalidInlineBlock name)
      else if MAX_BLOCK_BYTES < saturating_add (saturating_add (length body) (length block_line)) 1
      then Inl (InvalidInlineBlock name)
      else read_block name (body @ block_line @ [nl]) ls)"

lemma read_block_shorter:
  "read_block name body ls = Inr (b, rest) \<Longrightarrow> length rest < length ls"
  by (induction name body ls rule: read_block.induct)
     (auto simp: Let_def less_Suc_eq split: if_splits)

definition parse_block ::
    "parse_state \<Rightarrow> string \<Rightarrow> string list \<Rightarrow> openvpn_config_error + (parse_state \<times> string list)" where
  "parse_block st name ls =
     (if \<not> List.member block_names name then Inl (UnsupportedDirective (open_tag name))
      else and_then (read_block name [] ls) (\<lambda>(body, rest).
        if trim body = [] \<or> ps_blocks st name \<noteq> None then Inl (InvalidInlineBlock name)
        else Inr (st\<lparr>ps_blocks := (ps_blocks st)(name \<mapsto> body)\<rparr>, rest)))"

lemma parse_block_shorter: "parse_block st name ls = Inr (st', rest) \<Longrightarrow> length rest < length ls"
  by (auto simp: parse_block_def result_simps read_block_shorter split: if_splits)

function parse_lines ::
    "ipv4addr \<Rightarrow> parse_state \<Rightarrow> string list \<Rightarrow> openvpn_config_error + parse_state" where
  "parse_lines ip st [] = Inr st"
| "parse_lines ip st (raw_line # ls) =
     (let line = trim_end_matches (\<lambda>c. c = cr) (trim raw_line) in
      if line = [] \<or> starts_with ''#'' line \<or> starts_with '';'' line then parse_lines ip st ls
      else case opening_block line of
        Some block_name \<Rightarrow>
          and_then (parse_block st block_name ls) (\<lambda>p. parse_lines ip (fst p) (snd p))
      | None \<Rightarrow>
          and_then (apply_directive ip st (split_ascii_whitespace line))
            (\<lambda>st'. parse_lines ip st' ls))"
  by pat_completeness auto
termination
proof (relation "measure (\<lambda>(ip, st, ls). length ls)")
  fix ip :: ipv4addr and st ls name p
  assume "parse_block st name ls = Inr (p :: parse_state \<times> string list)"
  then have "length (snd p) < length ls" using parse_block_shorter by (cases p) auto
  then show "((ip, fst p, snd p), ip, st, raw # ls) \<in> measure (\<lambda>(ip, st, ls). length ls)" for raw
    by (simp add: case_prod_beta)
qed auto

section \<open>Rendering\<close>

definition render_block :: "(string \<rightharpoonup> string) \<Rightarrow> string \<Rightarrow> string" where
  "render_block blocks name =
     (case blocks name of
        None \<Rightarrow> []
      | Some body \<Rightarrow> ''<'' @ name @ ''>'' @ [nl] @ body @ ''</'' @ name @ ''>'' @ [nl])"

definition remote_cert_option :: string where
  "remote_cert_option = ''remote-cert-tls server''"

definition render_profile :: "socket_addr_v4 \<Rightarrow> string list \<Rightarrow> (string \<rightharpoonup> string) \<Rightarrow> string" where
  "render_profile remote options blocks =
     ''client'' @ [nl] @ ''dev tun'' @ [nl] @ ''proto tcp-client'' @ [nl]
     @ ''remote '' @ show_ipv4 (sock_ip remote) @ '' '' @ show_nat (unat (sock_port remote))
     @ '' tcp-client'' @ [nl]
     @ ''nobind'' @ [nl] @ ''persist-key'' @ [nl] @ ''persist-tun'' @ [nl]
     @ ''auth-nocache'' @ [nl] @ ''verb 3'' @ [nl]
     @ (if list_ex (\<lambda>option. option = remote_cert_option) options then []
        else remote_cert_option @ [nl])
     @ concat (map (\<lambda>option. option @ [nl]) options)
     @ concat (map (render_block blocks) block_names)"

definition finish_profile ::
    "(bytes \<Rightarrow> bytes) \<Rightarrow> parse_state \<Rightarrow> openvpn_config_error + sanitized_openvpn" where
  "finish_profile blake3 st =
     (if \<not> ps_saw_tcp st then Inl UnsupportedProtocol
      else if \<not> ps_saw_tun st then Inl InvalidDevice
      else and_then (ok_or InvalidRemote (ps_remote st)) (\<lambda>remote.
        case find (\<lambda>required. ps_blocks st required = None) [''ca'', ''cert'', ''key''] of
          Some required \<Rightarrow> Inl (MissingInlineBlock required)
        | None \<Rightarrow>
            let rendered = render_profile remote (ps_options st) (ps_blocks st)
            in Inr \<lparr>so_rendered = rendered, so_remote = remote, so_digest = blake3 (as_bytes rendered)\<rparr>))"

definition sanitize_openvpn ::
    "(bytes \<Rightarrow> bytes) \<Rightarrow> bytes \<Rightarrow> ipv4addr \<Rightarrow> openvpn_config_error + sanitized_openvpn" where
  "sanitize_openvpn blake3 input expected_ip =
     and_then (ensure (length input \<le> MAX_PROFILE_BYTES) TooLarge) (\<lambda>_.
     and_then (ok_or InvalidUtf8 (from_utf8 input)) (\<lambda>txt.
     and_then (ensure (\<not> list_ex (\<lambda>line. MAX_LINE_BYTES < length line) (lines txt)) LineTooLong) (\<lambda>_.
     and_then (parse_lines expected_ip parse_start (lines txt)) (\<lambda>st.
     finish_profile blake3 st))))"

end
