(* ===== verification/Openvpn_Laws.thy ===== *)
theory Openvpn_Laws
  imports Openvpn
begin

text \<open>
  What the sanitizer of \<open>src/src/openvpn.rs\<close> guarantees.  \<open>state_ok\<close> is the invariant of
  the parse loop: the remote is the expected address, every option is a rendering of an
  allowlisted directive, and every kept inline block is one of the five known ones with a body
  that no line of can close or reopen a block.  The second half re-runs the parser on a
  rendered profile, as the privileged helper does before it starts OpenVPN.
\<close>

section \<open>The invariant of the parse loop\<close>

definition safe_option :: "string \<Rightarrow> bool" where
  "safe_option opt \<longleftrightarrow>
     list_ex (\<lambda>d. starts_with (d @ '' '') opt \<and> is_safe_crypto_value (drop (length d + 1) opt))
       crypto_directives
     \<or> List.member [''key-direction 0'', ''key-direction 1'', remote_cert_option] opt"

definition body_line_ok :: "string \<Rightarrow> string \<Rightarrow> bool" where
  "body_line_ok name l \<longleftrightarrow>
     nl \<notin> set l \<and> nul \<notin> set l \<and> (l = [] \<or> last l \<noteq> cr) \<and> length l \<le> MAX_LINE_BYTES
     \<and> utf8_str l \<and> trim l \<noteq> close_tag name \<and> opening_block (trim l) = None"

definition body_ok :: "string \<Rightarrow> string \<Rightarrow> bool" where
  "body_ok name body \<longleftrightarrow>
     body = unlines (lines body) \<and> list_all (body_line_ok name) (lines body)
     \<and> length body \<le> MAX_BLOCK_BYTES \<and> trim body \<noteq> []"

definition remote_ok :: "ipv4addr \<Rightarrow> socket_addr_v4 \<Rightarrow> bool" where
  "remote_ok ip remote \<longleftrightarrow> sock_ip remote = ip \<and> sock_port remote \<noteq> 0"

definition blocks_ok :: "(string \<rightharpoonup> string) \<Rightarrow> bool" where
  "blocks_ok blocks \<longleftrightarrow>
     (\<forall>name body. blocks name = Some body \<longrightarrow> name \<in> set block_names \<and> body_ok name body)"

definition state_ok :: "ipv4addr \<Rightarrow> parse_state \<Rightarrow> bool" where
  "state_ok ip st \<longleftrightarrow>
     (\<forall>r. ps_remote st = Some r \<longrightarrow> remote_ok ip r)
     \<and> list_all safe_option (ps_options st) \<and> sorted (ps_options st) \<and> distinct (ps_options st)
     \<and> blocks_ok (ps_blocks st)"

definition line_ok :: "string \<Rightarrow> bool" where
  "line_ok l \<longleftrightarrow> nl \<notin> set l \<and> utf8_str l \<and> length l \<le> MAX_LINE_BYTES"

lemma set_btree_insert [simp]: "set (btree_insert x xs) = insert x (set xs)"
  by (auto simp: btree_insert_def set_insort_key)

lemma btree_insert_ok:
  "sorted xs \<Longrightarrow> distinct xs \<Longrightarrow> sorted (btree_insert x xs) \<and> distinct (btree_insert x xs)"
  by (auto simp: btree_insert_def sorted_insort distinct_insort)

lemma add_option_ok: "state_ok ip st \<Longrightarrow> safe_option opt \<Longrightarrow> state_ok ip (add_option st opt)"
  by (auto simp: state_ok_def add_option_def list_all_iff btree_insert_ok)

lemma safe_option_crypto:
  "List.member crypto_directives d \<Longrightarrow> is_safe_crypto_value v \<Longrightarrow> safe_option (d @ '' '' @ v)"
  by (auto simp: safe_option_def list_ex_iff starts_with_def intro!: bexI [of _ d])

lemma safe_option_fixed: "safe_option (''key-direction '' @ v)" if "List.member [''0'', ''1''] v" for v
  using that by (auto simp: safe_option_def)

lemma remote_directive_ok:
  "remote_directive ip st tokens = Inr st' \<Longrightarrow> state_ok ip st \<Longrightarrow> state_ok ip st'"
proof -
  have "(of_nat p :: u16) \<noteq> 0" if "parse_u16 s = Some p" "p \<noteq> 0" for p s
    using parse_uint_bound [OF that(1)] that(2) unat_of_nat_u16 [of p] by force
  then show "remote_directive ip st tokens = Inr st' \<Longrightarrow> state_ok ip st \<Longrightarrow> state_ok ip st'"
    by (auto simp: remote_directive_def result_simps state_ok_def remote_ok_def
        split: if_splits option.splits)
qed

lemma apply_directive_ok:
  assumes "apply_directive ip st tokens = Inr st'" and "state_ok ip st"
  shows "state_ok ip st'"
proof (cases tokens)
  case (Cons first rest)
  have "safe_option ''remote-cert-tls server''" by (simp add: safe_option_def remote_cert_option_def)
  with Cons assms show ?thesis
    unfolding apply_directive_def Let_def
    by (auto simp: result_simps split: if_splits
        intro!: add_option_ok safe_option_crypto [simplified] safe_option_fixed [simplified]
        dest: remote_directive_ok) (auto simp: state_ok_def)
qed (use assms in \<open>simp add: apply_directive_def\<close>)

lemma read_block_ok:
  assumes "read_block name body ls = Inr (b, rest)" and "list_all line_ok ls"
    and "body = unlines bls" and "list_all (body_line_ok name) bls" and "length body \<le> MAX_BLOCK_BYTES"
  shows "(\<exists>bls'. b = unlines bls' \<and> list_all (body_line_ok name) bls') \<and>
    length b \<le> MAX_BLOCK_BYTES \<and> list_all line_ok rest"
  using assms
proof (induction name body ls arbitrary: bls rule: read_block.induct)
  case (2 name body l ls)
  define bl where "bl = trim_end_matches (\<lambda>c. c = cr) l"
  have end_bl: "bl = [] \<or> last bl \<noteq> cr" and "utf8_str bl"
    using "2.prems"(2) utf8_str_trim_cr [of l] last_trim_end_matches [of "\<lambda>c. c = cr" l]
    by (auto simp: line_ok_def simp flip: bl_def)
  moreover obtain t where "l = bl @ t" using trim_end_matches_prefix [of l] bl_def by metis
  ultimately have ok: "line_ok bl" "bl = [] \<or> last bl \<noteq> cr"
    using "2.prems"(2) by (auto simp: line_ok_def)
  show ?case
  proof (cases "trim bl = close_tag name")
    case True
    then show ?thesis using 2 by (auto simp: Let_def simp flip: bl_def)
  next
    case False
    have cond: "opening_block (trim bl) = None" "nul \<notin> set bl"
      "saturating_add (saturating_add (length body) (length bl)) 1 \<le> MAX_BLOCK_BYTES"
      and next_block: "read_block name (body @ bl @ [nl]) ls = Inr (b, rest)"
      using "2.prems"(1) False by (auto simp: Let_def simp flip: bl_def split: if_splits)
    have len: "length (body @ bl @ [nl]) \<le> MAX_BLOCK_BYTES"
      using cond(3) by (auto simp: saturating_add_def usize_max_def MAX_BLOCK_BYTES_def)
    have line: "body_line_ok name bl"
      using ok cond False by (simp add: body_line_ok_def line_ok_def)
    show ?thesis
    proof (rule "2.IH" [OF refl, of "bls @ [bl]"])
      show "read_block name (body @ trim_end_matches (\<lambda>c. c = cr) l @ [nl]) ls = Inr (b, rest)"
        using next_block by (simp add: bl_def)
    qed (use 2 False cond line len in \<open>auto simp flip: bl_def\<close>)
  qed
qed simp

lemma parse_block_ok:
  assumes "parse_block st name ls = Inr (st', rest)" and "state_ok ip st" and "list_all line_ok ls"
  shows "state_ok ip st' \<and> list_all line_ok rest"
proof -
  from assms(1) obtain body where name: "name \<in> set block_names"
    and rd: "read_block name [] ls = Inr (body, rest)" and ne: "trim body \<noteq> []"
    and st': "st' = st\<lparr>ps_blocks := (ps_blocks st)(name \<mapsto> body)\<rparr>"
    by (auto simp: parse_block_def result_simps split: if_splits)
  from read_block_ok [OF rd assms(3), of "[]"] obtain bls where
    bls: "body = unlines bls" "list_all (body_line_ok name) bls" "length body \<le> MAX_BLOCK_BYTES"
    "list_all line_ok rest" by auto
  have "lines body = bls" unfolding bls(1)
    by (rule lines_unlines) (use bls(2) in \<open>auto simp: list_all_iff body_line_ok_def\<close>)
  with bls ne have "body_ok name body" by (simp add: body_ok_def)
  with assms(2) name st' bls(4) show ?thesis by (auto simp: state_ok_def blocks_ok_def)
qed

lemma parse_lines_ok:
  "parse_lines ip st ls = Inr st' \<Longrightarrow> state_ok ip st \<Longrightarrow> list_all line_ok ls \<Longrightarrow> state_ok ip st'"
proof (induction ip st ls arbitrary: st' rule: parse_lines.induct)
  case (2 ip st raw_line ls)
  define line where "line = trim_end_matches (\<lambda>c. c = cr) (trim raw_line)"
  show ?case
  proof (cases "line = [] \<or> starts_with ''#'' line \<or> starts_with '';'' line \<or> opening_block line = None")
    case True
    then show ?thesis using 2 apply_directive_ok
      by (auto simp: Let_def result_simps simp flip: line_def split: if_splits)
  next
    case False
    then obtain name where name: "opening_block line = Some name" by auto
    with 2 False obtain p where p: "parse_block st name ls = Inr p"
      "parse_lines ip (fst p) (snd p) = Inr st'"
      by (auto simp: Let_def result_simps simp flip: line_def)
    then have "state_ok ip (fst p)" "list_all line_ok (snd p)"
      using parse_block_ok [of st name ls "fst p" "snd p" ip] 2 by auto
    then show ?thesis using "2.IH"(3) [OF line_def _ name p] False by blast
  qed
qed simp

lemma parse_start_ok: "state_ok ip parse_start"
  by (simp add: state_ok_def parse_start_def blocks_ok_def)

lemma sanitize_parsed:
  assumes "sanitize_openvpn blake3 input ip = Inr p"
  obtains st where "state_ok ip st" and "ps_remote st = Some (so_remote p)"
    and "\<forall>name \<in> {''ca'', ''cert'', ''key''}. ps_blocks st name \<noteq> None"
    and "so_rendered p = render_profile (so_remote p) (ps_options st) (ps_blocks st)"
    and "so_digest p = blake3 (as_bytes (so_rendered p))"
proof -
  from assms obtain t st where u: "from_utf8 input = Some t"
    and len: "\<not> list_ex (\<lambda>line. MAX_LINE_BYTES < length line) (lines t)"
    and st: "parse_lines ip parse_start (lines t) = Inr st" and fin: "finish_profile blake3 st = Inr p"
    by (auto simp: sanitize_openvpn_def result_simps)
  have "utf8_str t" using u by (auto simp: from_utf8_def utf8_str_def split: if_splits)
  with len have "list_all line_ok (lines t)"
    by (auto simp: list_all_iff list_ex_iff line_ok_def lines_no_nl utf8_str_lines not_less)
  then have "state_ok ip st" using parse_lines_ok [OF st parse_start_ok] by simp
  with fin that show thesis
    by (auto simp: finish_profile_def result_simps Let_def find_None_iff
        split: if_splits option.splits)
qed

section \<open>Parsing a rendered profile again\<close>

definition base_lines :: "socket_addr_v4 \<Rightarrow> string list" where
  "base_lines remote =
     [''client'', ''dev tun'', ''proto tcp-client'',
      ''remote '' @ show_ipv4 (sock_ip remote) @ '' '' @ show_nat (unat (sock_port remote)) @ '' tcp-client'',
      ''nobind'', ''persist-key'', ''persist-tun'', ''auth-nocache'', ''verb 3'']"

definition option_lines :: "string list \<Rightarrow> string list" where
  "option_lines options =
     (if list_ex (\<lambda>option. option = remote_cert_option) options then [] else [remote_cert_option]) @ options"

definition block_lines :: "(string \<rightharpoonup> string) \<Rightarrow> string \<Rightarrow> string list" where
  "block_lines blocks name =
     (case blocks name of None \<Rightarrow> [] | Some body \<Rightarrow> open_tag name # lines body @ [close_tag name])"

definition profile_lines :: "socket_addr_v4 \<Rightarrow> string list \<Rightarrow> (string \<rightharpoonup> string) \<Rightarrow> string list" where
  "profile_lines remote options blocks =
     base_lines remote @ option_lines options @ concat (map (block_lines blocks) block_names)"

lemma unlines_concat: "unlines (concat lss) = concat (map unlines lss)"
  by (induction lss) simp_all

lemma render_block_lines: "blocks_ok blocks \<Longrightarrow> unlines (block_lines blocks name) = render_block blocks name"
proof (cases "blocks name")
  case (Some body)
  moreover assume "blocks_ok blocks"
  ultimately have "unlines (lines body) = body" by (auto simp: blocks_ok_def body_ok_def)
  with Some show ?thesis by (simp add: block_lines_def render_block_def open_tag_def close_tag_def)
qed (simp add: block_lines_def render_block_def)

lemma render_profile_lines:
  assumes "blocks_ok blocks"
  shows "render_profile remote options blocks = unlines (profile_lines remote options blocks)"
proof -
  have "concat (map (render_block blocks) block_names) = unlines (concat (map (block_lines blocks) block_names))"
    by (simp add: unlines_concat render_block_lines [OF assms] o_def)
  moreover have "concat (map (\<lambda>option. option @ [nl]) options) = unlines options"
    by (simp add: unlines_def)
  ultimately show ?thesis
    by (simp add: render_profile_def profile_lines_def base_lines_def option_lines_def)
qed

text \<open>A directive line: it is not trimmed, skipped or taken for a block.\<close>

definition directive_line :: "string \<Rightarrow> bool" where
  "directive_line l \<longleftrightarrow> plain_ends l \<and> hd l \<notin> {CHR ''#'', CHR '';'', CHR ''<''}"

lemma plain_char_not_cr [simp]: "\<not> plain_char cr" "\<not> plain_char nl"
  by (simp_all add: plain_char_def less_eq_char_def)

lemma starts_with_char [simp]: "starts_with [c] l \<longleftrightarrow> l \<noteq> [] \<and> hd l = c"
  by (cases l) (auto simp: starts_with_def)

lemma trim_line_id:
  "plain_ends l \<Longrightarrow> trim_end_matches (\<lambda>c. c = cr) (trim l) = l"
  by (auto simp: trim_id plain_ends_def intro!: trim_end_matches_id)

lemma parse_lines_directive:
  assumes "directive_line l"
  shows "parse_lines ip st (l # ls) =
    and_then (apply_directive ip st (split_ascii_whitespace l)) (\<lambda>st'. parse_lines ip st' ls)"
proof -
  have l: "plain_ends l" "l \<noteq> []" "hd l \<notin> {CHR ''#'', CHR '';'', CHR ''<''}"
    using assms by (auto simp: directive_line_def plain_ends_def)
  then have "opening_block l = None" by (simp add: opening_block_def strip_prefix_def)
  with l show ?thesis by (simp add: trim_line_id)
qed

definition crypto_char :: "char \<Rightarrow> bool" where
  "crypto_char c \<longleftrightarrow>
     is_ascii_alphanumeric c \<or> c \<in> {CHR ''-'', CHR ''_'', CHR '':'', CHR '','', CHR ''.''}"

lemma crypto_char_plain: "crypto_char c \<Longrightarrow> plain_char c"
  by (auto simp: crypto_char_def plain_char_def is_ascii_alphanumeric_def is_ascii_digit_def
      is_ascii_lowercase_def is_ascii_uppercase_def less_eq_char_def)

lemma plain_char_ascii: "plain_char c \<Longrightarrow> is_ascii_char c \<and> \<not> is_ascii_whitespace c \<and> c \<noteq> nl \<and> c \<noteq> cr"
  by (auto simp: plain_char_def is_ascii_char_def is_ascii_whitespace_def less_eq_char_def)

lemma is_safe_crypto_value_iff:
  "is_safe_crypto_value v \<longleftrightarrow> v \<noteq> [] \<and> length v \<le> 256 \<and> list_all crypto_char v"
  by (auto simp: is_safe_crypto_value_def crypto_char_def list_all_iff)

lemma crypto_directive_word:
  "d \<in> set crypto_directives \<Longrightarrow> d \<noteq> [] \<and> length d \<le> 21 \<and> list_all plain_char d \<and> hd d \<notin> {CHR ''#'', CHR '';'', CHR ''<''}"
  by (auto simp: crypto_directives_def plain_char_def less_eq_char_def)

lemma safe_option_cases:
  assumes "safe_option opt"
  obtains d v where "d \<in> set crypto_directives" "is_safe_crypto_value v" "opt = d @ CHR '' '' # v"
  | "opt \<in> {''key-direction 0'', ''key-direction 1'', ''remote-cert-tls server''}"
proof -
  have "opt = d @ CHR '' '' # drop (length d + 1) opt" if "starts_with (d @ '' '') opt" for d
    using that append_take_drop_id [of "length d + 1" opt] by (auto simp: starts_with_def)
  with assms that show thesis
    by (auto simp: safe_option_def list_ex_iff remote_cert_option_def)
qed

lemma plain_words_append:
  assumes "a \<noteq> []" "list_all plain_char a" "b \<noteq> []" "list_all plain_char b"
  shows "plain_ends (a @ CHR '' '' # b)"
    and "split_ascii_whitespace (a @ CHR '' '' # b) = [a, b]"
    and "is_ascii (a @ CHR '' '' # b)" and "nl \<notin> set (a @ CHR '' '' # b)"
proof -
  have "list_all (\<lambda>c. \<not> is_ascii_whitespace c) a" "list_all (\<lambda>c. \<not> is_ascii_whitespace c) b"
    using assms plain_char_ascii by (auto simp: list_all_iff)
  with assms show "split_ascii_whitespace (a @ CHR '' '' # b) = [a, b]"
    by (simp add: split_ascii_whitespace_Cons split_ascii_whitespace_word)
  show "plain_ends (a @ CHR '' '' # b)"
    using assms by (auto simp: plain_ends_def list_all_iff)
  show "is_ascii (a @ CHR '' '' # b)" "nl \<notin> set (a @ CHR '' '' # b)"
    using assms plain_char_ascii
    by (auto simp: is_ascii_def list_all_iff is_ascii_char_def less_eq_char_def)
qed

lemma safe_option_line:
  assumes "safe_option opt"
  shows "directive_line opt" and "is_ascii opt" and "nl \<notin> set opt" and "length opt \<le> 300"
proof -
  have "directive_line opt \<and> is_ascii opt \<and> nl \<notin> set opt \<and> length opt \<le> 300"
    using assms
  proof (cases rule: safe_option_cases)
    case (1 d v)
    then have v: "v \<noteq> []" "list_all plain_char v" "length v \<le> 256"
      by (auto simp: is_safe_crypto_value_iff list_all_iff crypto_char_plain)
    note d = crypto_directive_word [OF 1(1)]
    from plain_words_append [of d v] d v 1 show ?thesis
      by (simp add: directive_line_def)
  next
    case 2
    then show ?thesis
      by (auto simp: directive_line_def plain_ends_def plain_char_def is_ascii_def is_ascii_char_def
          less_eq_char_def)
  qed
  then show "directive_line opt" "is_ascii opt" "nl \<notin> set opt" "length opt \<le> 300" by simp_all
qed

lemma to_ascii_lowercase_crypto: "d \<in> set crypto_directives \<Longrightarrow> to_ascii_lowercase d = d"
  by (auto simp: crypto_directives_def to_ascii_lowercase_def ascii_lower_def is_ascii_uppercase_def
      less_eq_char_def)

lemma apply_crypto:
  assumes d: "d \<in> set crypto_directives" and v: "is_safe_crypto_value v"
  shows "apply_directive ip st [d, v] = Inr (add_option st (d @ CHR '' '' # v))"
proof -
  have "\<not> is_dangerous d" "d \<notin> {''proto'', ''dev'', ''dev-type'', ''remote''}"
    "\<not> List.member (block_names @ [''pkcs12'']) d"
    using d by (auto simp: crypto_directives_def is_dangerous_def dangerous_directives_def block_names_def)
  with d v show ?thesis
    by (simp add: apply_directive_def to_ascii_lowercase_crypto exactly_one_value_def)
qed

lemma apply_safe_option:
  assumes "safe_option opt"
  shows "apply_directive ip st (split_ascii_whitespace opt) = Inr (add_option st opt)"
  using assms
proof (cases rule: safe_option_cases)
  case (1 d v)
  then have v: "v \<noteq> []" "list_all plain_char v"
    by (auto simp: is_safe_crypto_value_iff list_all_iff crypto_char_plain)
  with crypto_directive_word [OF 1(1)] plain_words_append [of d v]
  show ?thesis by (simp add: 1 apply_crypto)
next
  case 2
  have "split_ascii_whitespace ''key-direction 0'' = [''key-direction'', ''0'']"
    "split_ascii_whitespace ''key-direction 1'' = [''key-direction'', ''1'']"
    "split_ascii_whitespace ''remote-cert-tls server'' = [''remote-cert-tls'', ''server'']"
    by code_simp+
  with 2 show ?thesis
    by (auto simp: apply_directive_def to_ascii_lowercase_def ascii_lower_def is_ascii_uppercase_def
        less_eq_char_def is_dangerous_def dangerous_directives_def exactly_one_value_def block_names_def
        crypto_directives_def)
qed

lemma parse_option_lines:
  "list_all safe_option opts \<Longrightarrow>
   parse_lines ip st (opts @ ls) = parse_lines ip (foldl add_option st opts) ls"
  by (induction opts arbitrary: st)
     (simp_all add: parse_lines_directive safe_option_line apply_safe_option del: parse_lines.simps(2))

lemma parse_fixed_line:
  "parse_lines ip st (''client'' # ls) = parse_lines ip st ls"
  "parse_lines ip st (''nobind'' # ls) = parse_lines ip st ls"
  "parse_lines ip st (''persist-key'' # ls) = parse_lines ip st ls"
  "parse_lines ip st (''persist-tun'' # ls) = parse_lines ip st ls"
  "parse_lines ip st (''auth-nocache'' # ls) = parse_lines ip st ls"
  "parse_lines ip st (''verb 3'' # ls) = parse_lines ip st ls"
  "parse_lines ip st (''dev tun'' # ls) = parse_lines ip (st\<lparr>ps_saw_tun := True\<rparr>) ls"
  "parse_lines ip st (''proto tcp-client'' # ls) = parse_lines ip (st\<lparr>ps_saw_tcp := True\<rparr>) ls"
proof -
  have dl: "list_all directive_line
    [''client'', ''nobind'', ''persist-key'', ''persist-tun'', ''auth-nocache'', ''verb 3'', ''dev tun'',
     ''proto tcp-client'']" by code_simp
  have words: "split_ascii_whitespace ''client'' = [''client'']"
    "split_ascii_whitespace ''nobind'' = [''nobind'']"
    "split_ascii_whitespace ''persist-key'' = [''persist-key'']"
    "split_ascii_whitespace ''persist-tun'' = [''persist-tun'']"
    "split_ascii_whitespace ''auth-nocache'' = [''auth-nocache'']"
    "split_ascii_whitespace ''verb 3'' = [''verb'', ''3'']"
    "split_ascii_whitespace ''dev tun'' = [''dev'', ''tun'']"
    "split_ascii_whitespace ''proto tcp-client'' = [''proto'', ''tcp-client'']"
    by code_simp+
  note defs = words apply_directive_def to_ascii_lowercase_def ascii_lower_def is_ascii_uppercase_def
    less_eq_char_def is_dangerous_def dangerous_directives_def exactly_one_value_def block_names_def
    crypto_directives_def flag_directives_def scalar_directives_def ensure_no_values_def
    validate_ignored_scalar_def is_tcp_protocol_def is_ascii_alphanumeric_def is_ascii_digit_def
  show "parse_lines ip st (''client'' # ls) = parse_lines ip st ls"
    "parse_lines ip st (''nobind'' # ls) = parse_lines ip st ls"
    "parse_lines ip st (''persist-key'' # ls) = parse_lines ip st ls"
    "parse_lines ip st (''persist-tun'' # ls) = parse_lines ip st ls"
    "parse_lines ip st (''auth-nocache'' # ls) = parse_lines ip st ls"
    "parse_lines ip st (''verb 3'' # ls) = parse_lines ip st ls"
    "parse_lines ip st (''dev tun'' # ls) = parse_lines ip (st\<lparr>ps_saw_tun := True\<rparr>) ls"
    "parse_lines ip st (''proto tcp-client'' # ls) = parse_lines ip (st\<lparr>ps_saw_tcp := True\<rparr>) ls"
    using dl by (simp_all add: parse_lines_directive defs del: parse_lines.simps(2))
qed

lemma plain_char_digit: "is_ascii_digit c \<Longrightarrow> plain_char c"
  by (auto simp: plain_char_def is_ascii_digit_def less_eq_char_def)

lemma plain_show: "list_all plain_char (show_nat n)" "list_all plain_char (show_ipv4 a)"
proof -
  show nat: "list_all plain_char (show_nat n)" for n
    using show_nat_digits [of n] by (auto simp: list_all_iff plain_char_digit)
  have "plain_char (CHR ''.'')" by (simp add: plain_char_def less_eq_char_def)
  then show "list_all plain_char (show_ipv4 a)"
    using nat by (cases a) (simp add: show_u8_def)
qed

lemma show_ipv4_not_Nil [simp]: "show_ipv4 a \<noteq> []"
  by (cases a) simp

lemma parse_remote_line:
  fixes remote :: socket_addr_v4
  defines "l \<equiv> ''remote '' @ show_ipv4 (sock_ip remote) @ '' '' @ show_nat (unat (sock_port remote)) @ '' tcp-client''"
  assumes "remote_ok ip remote" and "ps_remote st = None"
  shows "parse_lines ip st (l # ls) = parse_lines ip (st\<lparr>ps_remote := Some remote\<rparr>) ls"
proof -
  let ?tokens = "[''remote'', show_ipv4 (sock_ip remote), show_nat (unat (sock_port remote)), ''tcp-client'']"
  have nws: "list_all plain_char w \<Longrightarrow> list_all (\<lambda>c. \<not> is_ascii_whitespace c) w" for w
    using plain_char_ascii by (auto simp: list_all_iff)
  have tokens: "split_ascii_whitespace l = ?tokens"
    unfolding l_def
    using split_ascii_whitespace_Cons [of "''remote''"]
      split_ascii_whitespace_Cons [of "show_ipv4 (sock_ip remote)"]
      split_ascii_whitespace_Cons [of "show_nat (unat (sock_port remote))"]
      split_ascii_whitespace_word [of "''tcp-client''"] nws plain_show
    by (simp add: is_ascii_whitespace_def)
  have dl: "directive_line l"
    by (simp add: l_def directive_line_def plain_ends_def plain_char_def less_eq_char_def)
  have port: "unat (sock_port remote) \<noteq> 0"
    using assms by (simp add: remote_ok_def unat_eq_0)
  have rd: "remote_directive ip st ?tokens = Inr (st\<lparr>ps_remote := Some remote\<rparr>)"
    using assms(2,3) port
    by (simp add: remote_directive_def remote_ok_def parse_show_uint unat_u16_le is_tcp_protocol_def
        to_ascii_lowercase_def ascii_lower_def is_ascii_uppercase_def less_eq_char_def)
  have "apply_directive ip st ?tokens = remote_directive ip st ?tokens"
    by (simp add: apply_directive_def to_ascii_lowercase_def ascii_lower_def is_ascii_uppercase_def
        less_eq_char_def is_dangerous_def dangerous_directives_def)
  with dl tokens rd show ?thesis by (simp add: parse_lines_directive del: parse_lines.simps(2))
qed

lemma parse_base_lines:
  "remote_ok ip remote \<Longrightarrow> ps_remote st = None \<Longrightarrow>
   parse_lines ip st (base_lines remote @ ls) =
   parse_lines ip (st\<lparr>ps_remote := Some remote, ps_saw_tcp := True, ps_saw_tun := True\<rparr>) ls"
proof -
  assume "remote_ok ip remote" "ps_remote st = None"
  moreover have eq: "st\<lparr>ps_saw_tun := True, ps_saw_tcp := True, ps_remote := Some remote\<rparr>
      = st\<lparr>ps_remote := Some remote, ps_saw_tcp := True, ps_saw_tun := True\<rparr>" by (cases st) simp
  ultimately show ?thesis
    unfolding base_lines_def eq [symmetric]
    using parse_remote_line [of ip remote "st\<lparr>ps_saw_tun := True, ps_saw_tcp := True\<rparr>"]
    by (simp add: parse_fixed_line del: parse_lines.simps(2))
qed

lemma read_block_again:
  "list_all (body_line_ok name) bls \<Longrightarrow> length (body @ unlines bls) \<le> MAX_BLOCK_BYTES \<Longrightarrow>
   read_block name body (bls @ l # ls) =
   read_block name (body @ unlines bls) (l # ls)"
proof (induction bls arbitrary: body)
  case (Cons b bls)
  have b: "trim_end_matches (\<lambda>c. c = cr) b = b" "trim b \<noteq> close_tag name"
    "opening_block (trim b) = None" "nul \<notin> set b"
    using Cons.prems by (auto simp: body_line_ok_def intro: trim_end_matches_id)
  have "saturating_add (saturating_add (length body) (length b)) 1 \<le> MAX_BLOCK_BYTES"
    using Cons.prems by (auto simp: saturating_add_def usize_max_def MAX_BLOCK_BYTES_def)
  with b Cons show ?case by (simp add: Let_def not_less)
qed simp

lemma block_tags:
  assumes "name \<in> set block_names"
  shows "plain_ends (open_tag name)" and "plain_ends (close_tag name)"
    and "opening_block (open_tag name) = Some name" and "list_all plain_char (open_tag name)"
    and "list_all plain_char (close_tag name)" and "length name \<le> 9"
  using assms
  by (auto simp: block_names_def open_tag_def close_tag_def plain_ends_def plain_char_def
      less_eq_char_def opening_block_def strip_prefix_def strip_suffix_def starts_with_def)

lemma parse_block_lines:
  assumes "blocks_ok blocks" and "blocks name = Some body" and "ps_blocks st name = None"
  shows "parse_lines ip st (block_lines blocks name @ ls) =
    parse_lines ip (st\<lparr>ps_blocks := (ps_blocks st)(name \<mapsto> body)\<rparr>) ls"
proof -
  have name: "name \<in> set block_names" and body: "body_ok name body"
    using assms by (auto simp: blocks_ok_def)
  note tags = block_tags [OF name]
  have "trim (trim_end_matches (\<lambda>c. c = cr) (close_tag name)) = close_tag name"
    using tags(2) by (simp add: trim_id trim_end_matches_id plain_ends_def close_tag_def)
  then have "read_block name body (close_tag name # ls) = Inr (body, ls)" by simp
  moreover have "unlines (lines body) = body" "list_all (body_line_ok name) (lines body)"
    "length body \<le> MAX_BLOCK_BYTES" using body by (auto simp: body_ok_def)
  ultimately have "read_block name [] (lines body @ close_tag name # ls) = Inr (body, ls)"
    by (simp add: read_block_again)
  then have "parse_block st name (lines body @ close_tag name # ls)
      = Inr (st\<lparr>ps_blocks := (ps_blocks st)(name \<mapsto> body)\<rparr>, ls)"
    using name body assms(3) by (simp add: parse_block_def body_ok_def)
  moreover have "\<not> starts_with ''#'' (open_tag name)" "\<not> starts_with '';'' (open_tag name)"
    by (simp_all add: open_tag_def)
  ultimately show ?thesis
    using assms(2) tags by (simp add: block_lines_def trim_line_id open_tag_def)
qed

lemma parse_all_blocks:
  "blocks_ok blocks \<Longrightarrow> distinct names \<Longrightarrow> dom (ps_blocks st) \<inter> set names = {} \<Longrightarrow>
   parse_lines ip st (concat (map (block_lines blocks) names) @ ls) =
   parse_lines ip (st\<lparr>ps_blocks := ps_blocks st ++ (blocks |` set names)\<rparr>) ls"
proof (induction names arbitrary: st)
  case (Cons name names)
  have none: "ps_blocks st name = None" using Cons.prems by auto
  show ?case
  proof (cases "blocks name")
    case None
    have r: "blocks |` insert name (set names) = blocks |` set names"
      using None by (auto simp: restrict_map_def fun_eq_iff)
    have "block_lines blocks name = []" using None by (simp add: block_lines_def)
    with Cons.IH [of st] Cons.prems show ?thesis by (simp add: r)
  next
    case (Some body)
    let ?st = "st\<lparr>ps_blocks := (ps_blocks st)(name \<mapsto> body)\<rparr>"
    have r: "(ps_blocks st)(name \<mapsto> body) ++ blocks |` set names
        = ps_blocks st ++ blocks |` insert name (set names)"
      using Some Cons.prems by (auto simp: fun_eq_iff map_add_def restrict_map_def split: option.splits)
    have "parse_lines ip st (concat (map (block_lines blocks) (name # names)) @ ls)
        = parse_lines ip ?st (concat (map (block_lines blocks) names) @ ls)"
      using parse_block_lines [OF Cons.prems(1) Some none] by simp
    also have "\<dots> = parse_lines ip (?st\<lparr>ps_blocks := ps_blocks ?st ++ blocks |` set names\<rparr>) ls"
    proof (rule Cons.IH)
      show "dom (ps_blocks ?st) \<inter> set names = {}" using Cons.prems by simp
    qed (use Cons.prems in simp_all)
    finally show ?thesis by (simp add: r)
  qed
qed simp

lemma foldl_add_option:
  "foldl add_option st opts = st\<lparr>ps_options := foldl (\<lambda>os x. btree_insert x os) (ps_options st) opts\<rparr>"
  by (induction opts arbitrary: st) (simp_all add: add_option_def)

lemma foldl_btree_insert:
  "sorted os \<Longrightarrow> distinct os \<Longrightarrow>
   sorted (foldl (\<lambda>os x. btree_insert x os) os opts) \<and> distinct (foldl (\<lambda>os x. btree_insert x os) os opts)
   \<and> set (foldl (\<lambda>os x. btree_insert x os) os opts) = set os \<union> set opts"
proof (induction opts arbitrary: os)
  case (Cons x opts)
  have "sorted (btree_insert x os) \<and> distinct (btree_insert x os)"
    using Cons.prems btree_insert_ok by blast
  with Cons.IH [of "btree_insert x os"] show ?case by auto
qed simp

lemma line_lengths:
  "list_all line_ok (base_lines remote)"
  "list_all safe_option options \<Longrightarrow> list_all line_ok (option_lines options)"
  "blocks_ok blocks \<Longrightarrow> list_all line_ok (block_lines blocks name)"
proof -
  have plain: "line_ok l" if "list_all (\<lambda>c. plain_char c \<or> c = CHR '' '') l" "length l \<le> 4000" for l
  proof -
    have "is_ascii_char (CHR '' '')" by (simp add: is_ascii_char_def less_eq_char_def)
    with that plain_char_ascii have "is_ascii l" "nl \<notin> set l" by (auto simp: is_ascii_def list_all_iff)
    with that show ?thesis
      by (simp add: line_ok_def utf8_str_def utf8_valid_ascii MAX_LINE_BYTES_def)
  qed
  have show_len: "length (show_ipv4 a) \<le> 15" for a
  proof (cases a)
    case (Ipv4Addr a b c d)
    have "length (show_u8 x) \<le> 3" for x
      unfolding show_u8_def by (rule length_show_nat) (simp_all add: less_trans [OF unat_u8_less])
    from this [of a] this [of b] this [of c] this [of d] Ipv4Addr show ?thesis by simp
  qed
  have port_len: "length (show_nat (unat p)) \<le> 5" for p :: u16
    by (rule length_show_nat) (use unat_u16_le [of p] in simp_all)
  have show_ok: "list_all (\<lambda>c. plain_char c \<or> c = CHR '' '') (show_ipv4 a)"
    "list_all (\<lambda>c. plain_char c \<or> c = CHR '' '') (show_nat n)" for a n
    using plain_show by (auto simp: list_all_iff)
  have remote: "line_ok (''remote '' @ show_ipv4 (sock_ip remote) @ '' '' @ show_nat (unat (sock_port remote))
      @ '' tcp-client'')"
    using show_len [of "sock_ip remote"] port_len [of "sock_port remote"]
    by (intro plain) (simp_all add: show_ok, simp_all add: plain_char_def less_eq_char_def)
  then show "list_all line_ok (base_lines remote)"
    unfolding base_lines_def
    by (simp only: list.pred_inject remote, intro conjI plain TrueI)
       (simp_all add: plain_char_def less_eq_char_def)
  have "line_ok opt" if "safe_option opt" for opt
    using safe_option_line [OF that] by (simp add: line_ok_def utf8_str_def utf8_valid_ascii MAX_LINE_BYTES_def)
  moreover have "safe_option remote_cert_option" by (simp add: safe_option_def)
  ultimately show "list_all safe_option options \<Longrightarrow> list_all line_ok (option_lines options)"
    by (auto simp: option_lines_def list_all_iff)
  assume ok: "blocks_ok blocks"
  show "list_all line_ok (block_lines blocks name)"
  proof (cases "blocks name")
    case (Some body)
    with ok have name: "name \<in> set block_names" and body: "body_ok name body" by (auto simp: blocks_ok_def)
    have "line_ok (open_tag name)" "line_ok (close_tag name)"
      using block_tags [OF name] by (intro plain; auto simp: list_all_iff open_tag_def close_tag_def)+
    with Some body show ?thesis
      by (auto simp: block_lines_def body_ok_def list_all_iff body_line_ok_def line_ok_def)
  qed (simp add: block_lines_def)
qed

lemma profile_lines_ok:
  "list_all safe_option options \<Longrightarrow> blocks_ok blocks \<Longrightarrow>
   list_all line_ok (profile_lines remote options blocks)"
  using line_lengths by (auto simp: profile_lines_def list_all_iff)

lemma line_end_ok:
  assumes "list_all safe_option options" and "blocks_ok blocks"
  shows "lines (unlines (profile_lines remote options blocks)) = profile_lines remote options blocks"
proof (rule lines_unlines)
  have plain: "last l \<noteq> cr" if "plain_ends l" for l using that by (auto simp: plain_ends_def)
  have base: "list_all (\<lambda>l. last l \<noteq> cr) (base_lines remote)" by (simp add: base_lines_def)
  have "safe_option remote_cert_option" by (simp add: safe_option_def)
  then have opts: "list_all (\<lambda>l. last l \<noteq> cr) (option_lines options)"
    using assms(1) safe_option_line(1) plain
    by (auto simp: option_lines_def list_all_iff directive_line_def)
  have "list_all (\<lambda>l. l = [] \<or> last l \<noteq> cr) (block_lines blocks name)" for name
  proof (cases "blocks name")
    case (Some body)
    with assms(2) have "body_ok name body" by (auto simp: blocks_ok_def)
    with Some show ?thesis
      by (auto simp: block_lines_def list_all_iff body_ok_def body_line_ok_def open_tag_def close_tag_def)
  qed (simp add: block_lines_def)
  with base opts profile_lines_ok [OF assms, of remote]
  show "list_all (\<lambda>l. nl \<notin> set l \<and> (l = [] \<or> last l \<noteq> cr)) (profile_lines remote options blocks)"
    unfolding profile_lines_def list_all_iff line_ok_def by fastforce
qed

lemma parse_profile_lines:
  assumes "remote_ok ip remote" and opts: "list_all safe_option options" and blocks: "blocks_ok blocks"
  defines "st \<equiv> \<lparr>ps_blocks = blocks, ps_options = foldl (\<lambda>os x. btree_insert x os) [] (option_lines options),
    ps_remote = Some remote, ps_saw_tcp = True, ps_saw_tun = True\<rparr>"
  shows "parse_lines ip parse_start (profile_lines remote options blocks) = Inr st"
proof -
  have "safe_option remote_cert_option" by (simp add: safe_option_def)
  with opts have opts': "list_all safe_option (option_lines options)" by (simp add: option_lines_def)
  have dom: "blocks |` set block_names = blocks"
    using blocks by (auto simp: blocks_ok_def restrict_map_def fun_eq_iff) (metis not_None_eq)
  have "distinct block_names" by (simp add: block_names_def)
  with opts' assms(1) dom blocks show ?thesis
    using parse_all_blocks [of blocks block_names _ ip "[]"]
    by (simp add: profile_lines_def parse_base_lines parse_option_lines foldl_add_option
        parse_start_def st_def)
qed

lemma option_lines_settled:
  assumes "sorted options" "distinct options" "remote_cert_option \<in> set options"
  shows "option_lines options = options"
  using assms by (auto simp: option_lines_def list_ex_iff)

lemma sanitize_rendered:
  assumes "remote_ok ip remote" "list_all safe_option options" "blocks_ok blocks"
    and "sorted options" "distinct options"
    and "\<forall>name \<in> {''ca'', ''cert'', ''key''}. blocks name \<noteq> None"
    and "length (render_profile remote options blocks) \<le> MAX_PROFILE_BYTES"
  defines "options' \<equiv> foldl (\<lambda>os x. btree_insert x os) [] (option_lines options)"
  defines "rendered' \<equiv> render_profile remote options' blocks"
  shows "sanitize_openvpn blake3 (as_bytes (render_profile remote options blocks)) ip
      = Inr \<lparr>so_rendered = rendered', so_remote = remote, so_digest = blake3 (as_bytes rendered')\<rparr>"
    and "mset options' = mset (option_lines options)" and "sorted options'" and "distinct options'"
proof -
  have set': "sorted options' \<and> distinct options' \<and> set options' = set (option_lines options)"
    using foldl_btree_insert [of "[]" "option_lines options"] by (simp add: options'_def)
  moreover have "distinct (option_lines options)"
    using assms(5) by (auto simp: option_lines_def list_ex_iff)
  ultimately show "mset options' = mset (option_lines options)" "sorted options'" "distinct options'"
    using set_eq_iff_mset_eq_distinct by blast+
  let ?ls = "profile_lines remote options blocks"
  have r: "render_profile remote options blocks = unlines ?ls"
    by (rule render_profile_lines) fact
  have ok: "list_all line_ok ?ls" using profile_lines_ok assms by blast
  then have "utf8_str (unlines ?ls)" by (auto simp: utf8_str_unlines list_all_iff line_ok_def)
  then have u: "from_utf8 (as_bytes (unlines ?ls)) = Some (unlines ?ls)"
    by (simp add: from_utf8_def utf8_str_def)
  have ls: "lines (unlines ?ls) = ?ls" by (rule line_end_ok) fact+
  have short: "\<not> list_ex (\<lambda>line. MAX_LINE_BYTES < length line) ?ls"
    using ok by (auto simp: list_ex_iff list_all_iff line_ok_def not_less)
  show "sanitize_openvpn blake3 (as_bytes (render_profile remote options blocks)) ip
      = Inr \<lparr>so_rendered = rendered', so_remote = remote, so_digest = blake3 (as_bytes rendered')\<rparr>"
    using assms(6,7) short ls u parse_profile_lines [OF assms(1-3)]
    by (simp add: sanitize_openvpn_def r finish_profile_def options'_def rendered'_def ensure_def Let_def)
qed

section \<open>Properties of the sanitizer\<close>

definition sample_remote :: socket_addr_v4 where
  "sample_remote = \<lparr>sock_ip = Ipv4Addr 1 2 3 4, sock_port = 443\<rparr>"

definition sample_blocks :: "string list \<Rightarrow> (string \<rightharpoonup> string)" where
  "sample_blocks ca = [''ca'' \<mapsto> unlines ca, ''cert'' \<mapsto> unlines [''B''], ''key'' \<mapsto> unlines [''C'']]"

definition sample_options :: "string list" where
  "sample_options = [''cipher AES-128-CBC'', remote_cert_option]"

definition sample_profile :: "string list \<Rightarrow> string" where
  "sample_profile ca = render_profile sample_remote sample_options (sample_blocks ca)"

definition sample_sanitized :: "(bytes \<Rightarrow> bytes) \<Rightarrow> string list \<Rightarrow> sanitized_openvpn" where
  "sample_sanitized blake3 ca =
     \<lparr>so_rendered = sample_profile ca, so_remote = sample_remote,
      so_digest = blake3 (as_bytes (sample_profile ca))\<rparr>"

lemma sample_blocks_ok:
  assumes "body_ok ''ca'' (unlines ca)"
  shows "blocks_ok (sample_blocks ca)"
proof -
  have ls: "lines (unlines [''B'']) = [''B'']" "lines (unlines [''C'']) = [''C'']"
    "trim (unlines [''B'']) \<noteq> []" "trim (unlines [''C'']) \<noteq> []"
    "utf8_str ''B''" "utf8_str ''C''" "trim ''B'' = ''B''" "trim ''C'' = ''C''"
    "opening_block ''B'' = None" "opening_block ''C'' = None" by code_simp+
  have "body_ok ''cert'' (unlines [''B''])" "body_ok ''key'' (unlines [''C''])"
    unfolding body_ok_def ls body_line_ok_def MAX_BLOCK_BYTES_def MAX_LINE_BYTES_def list.pred_inject
      close_tag_def
    using ls by simp_all
  with assms show ?thesis by (auto simp: blocks_ok_def sample_blocks_def block_names_def)
qed

lemma sample_options_ok:
  "list_all safe_option sample_options" "sorted sample_options" "distinct sample_options"
  "foldl (\<lambda>os x. btree_insert x os) [] (option_lines sample_options) = sample_options"
proof -
  have "''cipher AES-128-CBC'' = ''cipher'' @ '' '' @ ''AES-128-CBC''" by simp
  moreover have "is_safe_crypto_value ''AES-128-CBC''"
    unfolding is_safe_crypto_value_iff by (simp add: crypto_char_def is_ascii_alphanumeric_def
        is_ascii_digit_def is_ascii_uppercase_def less_eq_char_def)
  ultimately have "safe_option ''cipher AES-128-CBC''"
    using safe_option_crypto [of "''cipher''" "''AES-128-CBC''"] by (simp add: crypto_directives_def)
  then show "list_all safe_option sample_options"
    by (simp add: sample_options_def safe_option_def [of remote_cert_option])
qed code_simp+

lemma sanitize_sample:
  assumes "body_ok ''ca'' (unlines ca)" and "length (unlines ca) \<le> 1000"
  shows "sanitize_openvpn blake3 (as_bytes (sample_profile ca)) (Ipv4Addr 1 2 3 4)
    = Inr (sample_sanitized blake3 ca)" and "length (sample_profile ca) \<le> MAX_PROFILE_BYTES"
proof -
  have "length (show_nat 443) = 3" "length (show_nat (Suc 0)) = 1" "length (show_nat 2) = 1"
    "length (show_nat 3) = 1" "length (show_nat 4) = 1"
    by (simp_all add: show_nat.simps [of 443] show_nat.simps [of 44] show_nat.simps [of "Suc 0"]
        show_nat.simps [of 2] show_nat.simps [of 3] show_nat.simps [of 4])
  then show len: "length (sample_profile ca) \<le> MAX_PROFILE_BYTES"
    using assms(2)
    by (simp add: sample_profile_def render_profile_def sample_remote_def sample_options_def
        sample_blocks_def render_block_def block_names_def remote_cert_option_def show_u8_def
        MAX_PROFILE_BYTES_def)
  have "remote_ok (Ipv4Addr 1 2 3 4) sample_remote" by (simp add: remote_ok_def sample_remote_def)
  moreover have "\<forall>name \<in> {''ca'', ''cert'', ''key''}. sample_blocks ca name \<noteq> None"
    by (simp add: sample_blocks_def)
  ultimately show "sanitize_openvpn blake3 (as_bytes (sample_profile ca)) (Ipv4Addr 1 2 3 4)
    = Inr (sample_sanitized blake3 ca)"
    using sanitize_rendered(1) [of _ sample_remote sample_options "sample_blocks ca"]
      sample_options_ok sample_blocks_ok [OF assms(1)] len
    by (simp add: sample_sanitized_def sample_profile_def)
qed

lemma sample_ca_ok: "body_ok ''ca'' (unlines [''A''])" "length (unlines [''A'']) \<le> 1000"
proof -
  have ls: "lines (unlines [''A'']) = [''A'']" "trim (unlines [''A'']) \<noteq> []" "utf8_str ''A''"
    "trim ''A'' = ''A''" "opening_block ''A'' = None" by code_simp+
  then show "body_ok ''ca'' (unlines [''A''])"
    unfolding body_ok_def ls body_line_ok_def MAX_BLOCK_BYTES_def MAX_LINE_BYTES_def list.pred_inject
      close_tag_def by simp
qed simp

text \<open>
  C1.  Every profile the sanitizer accepts is a rendering of an allowlisted configuration: the
  remote is the address the CSV named with a nonzero port, every option line is an allowlisted
  crypto setting, \<open>key-direction\<close> or \<open>remote-cert-tls\<close>, and every inline block is one of the
  five known blocks, whose body holds no NUL, no opening tag and no line that is its closing
  tag, within the size limits; \<open>ca\<close>, \<open>cert\<close> and \<open>key\<close> are present.
\<close>

theorem sanitize_allowlist:
  assumes "sanitize_openvpn blake3 input ip = Inr p"
  shows "\<exists>options blocks.
    so_rendered p = render_profile (so_remote p) options blocks
    \<and> sock_ip (so_remote p) = ip \<and> sock_port (so_remote p) \<noteq> 0
    \<and> list_all safe_option options \<and> sorted options \<and> distinct options
    \<and> blocks_ok blocks \<and> {''ca'', ''cert'', ''key''} \<subseteq> dom blocks
    \<and> so_digest p = blake3 (as_bytes (so_rendered p))"
  using assms
proof (rule sanitize_parsed)
  fix st
  assume st: "state_ok ip st" "ps_remote st = Some (so_remote p)"
    "\<forall>name \<in> {''ca'', ''cert'', ''key''}. ps_blocks st name \<noteq> None"
    "so_rendered p = render_profile (so_remote p) (ps_options st) (ps_blocks st)"
    "so_digest p = blake3 (as_bytes (so_rendered p))"
  then show ?thesis
    by (intro exI [of _ "ps_options st"] exI [of _ "ps_blocks st"])
       (auto simp: state_ok_def remote_ok_def)
qed

theorem sanitize_allowlist_witness:
  "\<exists>options blocks.
    sample_profile [''A''] = render_profile sample_remote options blocks
    \<and> sock_ip sample_remote = Ipv4Addr 1 2 3 4 \<and> list_all safe_option options \<and> blocks_ok blocks"
  using sanitize_allowlist [OF sanitize_sample(1) [OF sample_ca_ok, of id]]
  unfolding sample_sanitized_def sanitized_openvpn.simps by blast

lemma length_unlines_mset: "mset ls = mset ls' \<Longrightarrow> length (unlines ls) = length (unlines ls')"
  by (simp add: unlines_def length_concat comp_def) (metis mset_map sum_mset_sum_list)

text \<open>
  Sanitizing a rendered profile only moves the added \<open>remote-cert-tls\<close> option to its place among the
  sorted options; the options are then settled.
\<close>

lemma options_again:
  assumes "list_all safe_option options" "sorted options" "distinct options"
  defines "options' \<equiv> foldl (\<lambda>os x. btree_insert x os) [] (option_lines options)"
  shows "list_all safe_option options'" "sorted options'" "distinct options'" "mset options' = mset (option_lines options)"
    "option_lines options' = options'" "foldl (\<lambda>os x. btree_insert x os) [] options' = options'"
    "filter (\<lambda>l. l \<noteq> remote_cert_option) options' = filter (\<lambda>l. l \<noteq> remote_cert_option) (option_lines options)"
proof -
  have os: "sorted options'" "distinct options'" "set options' = set (option_lines options)"
    using foldl_btree_insert [of "[]" "option_lines options"] by (simp_all add: options'_def)
  show "sorted options'" "distinct options'" by (fact os)+
  have "safe_option remote_cert_option" by (simp add: safe_option_def)
  then show "list_all safe_option options'" "option_lines options' = options'"
    using os(3) assms(1) by (auto simp: list_all_iff option_lines_def list_ex_iff split: if_splits)
  have "distinct (option_lines options)" using assms(3) by (auto simp: option_lines_def list_ex_iff)
  then show "mset options' = mset (option_lines options)" using os set_eq_iff_mset_eq_distinct by blast
  show "foldl (\<lambda>os x. btree_insert x os) [] options' = options'"
    using foldl_btree_insert [of "[]" options'] os(1,2) by (intro sorted_distinct_set_unique) auto
  have "sorted (filter (\<lambda>l. l \<noteq> remote_cert_option) (option_lines options))"
    using assms(2) by (auto simp: option_lines_def sorted_wrt_filter)
  then show "filter (\<lambda>l. l \<noteq> remote_cert_option) options' = filter (\<lambda>l. l \<noteq> remote_cert_option) (option_lines options)"
    using os \<open>distinct (option_lines options)\<close> by (intro sorted_distinct_set_unique) (auto simp: sorted_wrt_filter)
qed

text \<open>
  C2.  Sanitizing is stable.  The privileged helper sanitizes the rendered profile once more before
  it starts OpenVPN.  If the rendered profile is within the size limit it is accepted; the result
  has the same remote, the same lines as a multiset, and the same lines in the same order except
  that the \<open>remote-cert-tls server\<close> line may have moved; and sanitizing that result again returns
  it exactly, text, remote and digest.  A rendered profile over the limit (rendering adds fixed
  directives, so an input just below the limit can give one) is refused as too large.
\<close>

theorem sanitize_again:
  assumes "sanitize_openvpn blake3 input ip = Inr p"
  shows "if length (so_rendered p) \<le> 256 * 1024
    then \<exists>p'. sanitize_openvpn blake3 (as_bytes (so_rendered p)) ip = Inr p'
      \<and> so_remote p' = so_remote p \<and> mset (lines (so_rendered p')) = mset (lines (so_rendered p))
      \<and> filter (\<lambda>l. l \<noteq> ''remote-cert-tls server'') (lines (so_rendered p'))
        = filter (\<lambda>l. l \<noteq> ''remote-cert-tls server'') (lines (so_rendered p))
      \<and> sanitize_openvpn blake3 (as_bytes (so_rendered p')) ip = Inr p'
    else sanitize_openvpn blake3 (as_bytes (so_rendered p)) ip = Inl TooLarge"
  using assms
proof (rule sanitize_parsed)
  fix st
  assume st: "state_ok ip st" "ps_remote st = Some (so_remote p)"
    "\<forall>name \<in> {''ca'', ''cert'', ''key''}. ps_blocks st name \<noteq> None"
    and r: "so_rendered p = render_profile (so_remote p) (ps_options st) (ps_blocks st)"
  then have ok: "remote_ok ip (so_remote p)" "list_all safe_option (ps_options st)" "blocks_ok (ps_blocks st)"
    "sorted (ps_options st)" "distinct (ps_options st)"
    by (auto simp: state_ok_def)
  define options' where "options' = foldl (\<lambda>os x. btree_insert x os) [] (option_lines (ps_options st))"
  note options = options_again [OF ok(2,4,5), folded options'_def]
  let ?r = "render_profile (so_remote p) options' (ps_blocks st)"
  note ls = line_end_ok [OF ok(2,3)] line_end_ok [OF options(1) ok(3)]
  have lines: "lines (so_rendered p) = profile_lines (so_remote p) (ps_options st) (ps_blocks st)"
    "lines ?r = profile_lines (so_remote p) options' (ps_blocks st)"
    by (simp_all add: r render_profile_lines [OF ok(3)] ls)
  have m: "mset (lines ?r) = mset (lines (so_rendered p))"
    unfolding lines by (simp add: profile_lines_def options(4,5))
  have order: "filter (\<lambda>l. l \<noteq> remote_cert_option) (lines ?r) = filter (\<lambda>l. l \<noteq> remote_cert_option) (lines (so_rendered p))"
    unfolding lines by (simp add: profile_lines_def options(5,7))
  have len: "length ?r = length (so_rendered p)"
    unfolding r render_profile_lines [OF ok(3)] using m unfolding lines by (rule length_unlines_mset)
  show ?thesis
  proof (cases "length (so_rendered p) \<le> 256 * 1024")
    case True
    then have "sanitize_openvpn blake3 (as_bytes (so_rendered p)) ip
        = Inr \<lparr>so_rendered = ?r, so_remote = so_remote p, so_digest = blake3 (as_bytes ?r)\<rparr>"
      unfolding options'_def r by (intro sanitize_rendered(1) ok st(3)) (simp add: MAX_PROFILE_BYTES_def)
    moreover have "sanitize_openvpn blake3 (as_bytes ?r) ip
        = Inr \<lparr>so_rendered = ?r, so_remote = so_remote p, so_digest = blake3 (as_bytes ?r)\<rparr>"
      using sanitize_rendered(1) [OF ok(1) options(1) ok(3) options(2,3) st(3)] True
      by (simp add: options(5,6) len MAX_PROFILE_BYTES_def)
    ultimately show ?thesis using True m order by (simp add: remote_cert_option_def)
  qed (simp add: sanitize_openvpn_def ensure_def MAX_PROFILE_BYTES_def)
qed

theorem sanitize_again_witness:
  "\<exists>p'. sanitize_openvpn id (as_bytes (sample_profile [''A''])) (Ipv4Addr 1 2 3 4) = Inr p'
    \<and> so_remote p' = sample_remote \<and> sanitize_openvpn id (as_bytes (so_rendered p')) (Ipv4Addr 1 2 3 4) = Inr p'"
proof -
  have "length (sample_profile [''A'']) \<le> 256 * 1024"
    using sanitize_sample(2) [OF sample_ca_ok] by (simp add: MAX_PROFILE_BYTES_def)
  then show ?thesis
    using sanitize_again [OF sanitize_sample(1) [OF sample_ca_ok, of id]]
    unfolding sample_sanitized_def sanitized_openvpn.simps by auto
qed

section \<open>A limit of the inline block check\<close>

text \<open>
  The end of an inline block is recognised by an exact comparison with \<open></name>\<close>.  OpenVPN
  itself closes a block at the first line that has the closing tag as a prefix, so a body line
  such as \<open></ca>x\<close> ends the block there and the lines that follow are directives.  The
  sanitizer accepts such a profile and copies the lines verbatim.
\<close>

definition split_ca :: "string list" where
  "split_ca = [''A'', ''</ca>x'', ''up /bin/sh'']"

text \<open>
  C40. A closing tag that is only a prefix is accepted.  A profile whose \<open>ca\<close> block has the lines
  \<open></ca>x\<close> and \<open>up /bin/sh\<close> passes the sanitizer, and both lines are in the rendered
  profile as they are.
\<close>

theorem close_tag_prefix_accepted:
  "\<exists>p. sanitize_openvpn id (as_bytes (sample_profile split_ca)) (Ipv4Addr 1 2 3 4) = Inr p
    \<and> (\<exists>a b. lines (so_rendered p) = a @ split_ca @ b)"
proof -
  have ls: "lines (unlines split_ca) = split_ca" "trim (unlines split_ca) \<noteq> []"
    "list_all utf8_str split_ca"
    "list_all (\<lambda>l. trim l \<noteq> close_tag ''ca'' \<and> opening_block (trim l) = None) split_ca" by code_simp+
  then have ok: "body_ok ''ca'' (unlines split_ca)"
    unfolding body_ok_def ls body_line_ok_def MAX_BLOCK_BYTES_def MAX_LINE_BYTES_def
    by (simp add: split_ca_def)
  have len: "length (unlines split_ca) \<le> 1000" by (simp add: split_ca_def)
  note blocks = sample_blocks_ok [OF ok]
  have "lines (sample_profile split_ca) = profile_lines sample_remote sample_options (sample_blocks split_ca)"
    unfolding sample_profile_def render_profile_lines [OF blocks]
    by (rule line_end_ok [OF sample_options_ok(1) blocks])
  moreover have "profile_lines sample_remote sample_options (sample_blocks split_ca) =
      (base_lines sample_remote @ option_lines sample_options @ [open_tag ''ca'']) @ split_ca @
      (close_tag ''ca'' # concat (map (block_lines (sample_blocks split_ca)) (tl block_names)))"
    using ls(1) by (simp add: profile_lines_def block_names_def block_lines_def [of _ "''ca''"] sample_blocks_def)
  ultimately have "\<exists>a b. lines (sample_profile split_ca) = a @ split_ca @ b" by metis
  then show ?thesis using sanitize_sample(1) [OF ok len, of id]
    by (intro exI [of _ "sample_sanitized id split_ca"]) (simp add: sample_sanitized_def)
qed

end
