(* ===== verification/Rust_Ordering.thy ===== *)
theory Rust_Ordering
  imports Prelude
begin

text \<open>
  \<open>std::cmp::Ordering\<close> and the operations the program builds on it: \<open>Ord::cmp\<close>,
  \<open>Ordering::then_with\<close>, \<open>Ordering::reverse\<close>, \<open>slice::sort_by\<close> and
  \<open>Iterator::max_by\<close> / \<open>min_by_key\<close>.  The comparison closures of the program are
  clients of one contract, the locale \<open>comparator\<close>: Rust's documented requirement that the
  argument of \<open>sort_by\<close> and \<open>max_by\<close> is a total preorder.  Everything the clients need
  (the sorted list is a sorted permutation, the maximum is an upper bound taken from the list)
  is proved once inside the locale; each component interprets it on its own closure.
\<close>

datatype ordering = Less | Equal | Greater

fun reverse_ordering :: "ordering \<Rightarrow> ordering" where
  "reverse_ordering Less = Greater"
| "reverse_ordering Equal = Equal"
| "reverse_ordering Greater = Less"

fun then_with :: "ordering \<Rightarrow> ordering \<Rightarrow> ordering" where
  "then_with Equal o2 = o2"
| "then_with o1 o2 = o1"

definition cmp :: "'a::linorder \<Rightarrow> 'a \<Rightarrow> ordering" where
  "cmp x y = (if x < y then Less else if x = y then Equal else Greater)"

text \<open>\<open>Option::cmp\<close>: \<open>None\<close> is less than every \<open>Some\<close>.\<close>

fun cmp_option :: "'a::linorder option \<Rightarrow> 'a option \<Rightarrow> ordering" where
  "cmp_option None None = Equal"
| "cmp_option None (Some _) = Less"
| "cmp_option (Some _) None = Greater"
| "cmp_option (Some x) (Some y) = cmp x y"

lemma reverse_reverse [simp]: "reverse_ordering (reverse_ordering r) = r"
  by (cases r) auto

lemma reverse_eq_iff [simp]:
  "reverse_ordering r = Equal \<longleftrightarrow> r = Equal"
  "reverse_ordering r = Less \<longleftrightarrow> r = Greater"
  "reverse_ordering r = Greater \<longleftrightarrow> r = Less"
  by (cases r; simp)+

lemma then_with_eq [simp]:
  "then_with a b = Equal \<longleftrightarrow> a = Equal \<and> b = Equal"
  "then_with a b = Less \<longleftrightarrow> a = Less \<or> a = Equal \<and> b = Less"
  "then_with a b = Greater \<longleftrightarrow> a = Greater \<or> a = Equal \<and> b = Greater"
  by (cases a; simp)+

lemma reverse_then_with:
  "reverse_ordering (then_with a b) = then_with (reverse_ordering a) (reverse_ordering b)"
  by (cases a) auto

lemma cmp_simps [simp]:
  "cmp x y = Equal \<longleftrightarrow> x = y"
  "cmp x y = Less \<longleftrightarrow> x < y"
  "cmp x y = Greater \<longleftrightarrow> y < x"
  by (auto simp: cmp_def)

lemma reverse_cmp: "reverse_ordering (cmp x y) = cmp y x"
  by (auto simp: cmp_def)

section \<open>Sorting and maxima under a comparison\<close>

text \<open>
  \<open>slice::sort_by\<close> is a stable sort.  \<open>Iterator::max_by\<close> folds from the left and keeps the
  later of two equal elements, as the standard library documents.
\<close>

fun insert_by :: "('a \<Rightarrow> 'a \<Rightarrow> ordering) \<Rightarrow> 'a \<Rightarrow> 'a list \<Rightarrow> 'a list" where
  "insert_by c x [] = [x]"
| "insert_by c x (y # ys) = (if c x y = Greater then y # insert_by c x ys else x # y # ys)"

fun sort_by :: "('a \<Rightarrow> 'a \<Rightarrow> ordering) \<Rightarrow> 'a list \<Rightarrow> 'a list" where
  "sort_by c [] = []"
| "sort_by c (x # xs) = insert_by c x (sort_by c xs)"

definition max_pick :: "('a \<Rightarrow> 'a \<Rightarrow> ordering) \<Rightarrow> 'a \<Rightarrow> 'a \<Rightarrow> 'a" where
  "max_pick c x y = (if c x y = Greater then x else y)"

fun max_by :: "('a \<Rightarrow> 'a \<Rightarrow> ordering) \<Rightarrow> 'a list \<Rightarrow> 'a option" where
  "max_by c [] = None"
| "max_by c (x # xs) = Some (foldl (max_pick c) x xs)"

fun min_by_key :: "('a \<Rightarrow> 'k::linorder) \<Rightarrow> 'a list \<Rightarrow> 'a option" where
  "min_by_key k [] = None"
| "min_by_key k (x # xs) = Some (foldl (\<lambda>m y. if k y < k m then y else m) x xs)"

lemma mset_insert_by [simp]: "mset (insert_by c x xs) = add_mset x (mset xs)"
  by (induction xs) auto

lemma mset_sort_by [simp]: "mset (sort_by c xs) = mset xs"
  by (induction xs) auto

lemma set_sort_by [simp]: "set (sort_by c xs) = set xs"
  by (metis mset_sort_by set_mset_mset)

lemma length_sort_by [simp]: "length (sort_by c xs) = length xs"
  by (metis mset_sort_by size_mset)

lemma distinct_sort_by [simp]: "distinct (sort_by c xs) = distinct xs"
  by (metis mset_sort_by mset_eq_imp_distinct_iff)

lemma foldl_max_pick_mem: "foldl (max_pick c) x xs \<in> insert x (set xs)"
  by (induction xs arbitrary: x) (auto simp: max_pick_def)

lemma max_by_mem: "max_by c xs = Some m \<Longrightarrow> m \<in> set xs"
  using foldl_max_pick_mem [of c] by (cases xs) auto

lemma max_by_eq_None [simp]: "max_by c xs = None \<longleftrightarrow> xs = []"
  by (cases xs) auto

lemma foldl_min_key:
  "foldl (\<lambda>m y. if k y < k m then y else m) x xs \<in> insert x (set xs) \<and>
   (\<forall>y \<in> insert x (set xs). k (foldl (\<lambda>m y. if k y < k m then y else m) x xs) \<le> (k y :: 'k::linorder))"
proof (induction xs arbitrary: x)
  case (Cons z zs)
  show ?case using Cons.IH [of "if k z < k x then z else x"] by (auto split: if_splits)
qed simp

lemma min_by_key_mem: "min_by_key k xs = Some m \<Longrightarrow> m \<in> set xs"
  using foldl_min_key [of k] by (cases xs) auto

lemma min_by_key_least: "min_by_key k xs = Some m \<Longrightarrow> y \<in> set xs \<Longrightarrow> k m \<le> k y"
  using foldl_min_key [of k] by (cases xs) auto

lemma min_by_key_eq_None [simp]: "min_by_key k xs = None \<longleftrightarrow> xs = []"
  by (cases xs) auto

locale comparator =
  fixes c :: "'a \<Rightarrow> 'a \<Rightarrow> ordering"
  assumes anti: "c y x = reverse_ordering (c x y)"
    and trans_le: "c x y \<noteq> Greater \<Longrightarrow> c y z \<noteq> Greater \<Longrightarrow> c x z \<noteq> Greater"
begin

lemma refl_equal [simp]: "c x x = Equal"
  using anti [of x x] by (cases "c x x") auto

lemma total_le: "c x y \<noteq> Greater \<or> c y x \<noteq> Greater"
  using anti [of x y] by (cases "c x y") auto

lemma less_trans_le: "c x y = Less \<Longrightarrow> c y z \<noteq> Greater \<Longrightarrow> c x z = Less"
  by (metis anti ordering.distinct(5) ordering.exhaust reverse_eq_iff trans_le)

lemma equal_between:
  assumes xz: "c x z = Equal" and xy: "c x y \<noteq> Greater" and yz: "c y z \<noteq> Greater"
  shows "c x y = Equal \<and> c y z = Equal"
proof -
  have "c x y \<noteq> Less" using less_trans_le [of x y z] xz yz by auto
  with xy have e: "c x y = Equal" by (cases "c x y") auto
  have "c z x \<noteq> Greater" using anti [of z x] xz by simp
  then have "c y z \<noteq> Less" using less_trans_le [of y z x] anti [of y x] e by auto
  with yz e show ?thesis by (cases "c y z") auto
qed

lemma sorted_insert_by:
  "sorted_wrt (\<lambda>a b. c a b \<noteq> Greater) xs \<Longrightarrow>
   sorted_wrt (\<lambda>a b. c a b \<noteq> Greater) (insert_by c x xs)"
proof (induction xs)
  case (Cons y ys)
  have set_ins: "set (insert_by c x ys) = insert x (set ys)"
    by (metis mset_insert_by set_mset_add_mset_insert set_mset_mset)
  show ?case
  proof (cases "c x y = Greater")
    case True
    then have "c y x \<noteq> Greater" using anti [of y x] by simp
    with Cons True set_ins show ?thesis by auto
  next
    case False
    with Cons.prems show ?thesis by (auto dest: trans_le)
  qed
qed simp

lemma sorted_sort_by: "sorted_wrt (\<lambda>a b. c a b \<noteq> Greater) (sort_by c xs)"
  by (induction xs) (auto intro: sorted_insert_by)

lemma foldl_max_pick_upper:
  "y \<in> insert x (set xs) \<Longrightarrow> c y (foldl (max_pick c) x xs) \<noteq> Greater"
proof (induction xs arbitrary: x y)
  case (Cons z zs)
  have zs: "c w (foldl (max_pick c) (max_pick c x z) zs) \<noteq> Greater"
    if "w \<in> insert (max_pick c x z) (set zs)" for w
    using Cons.IH that .
  have "c x (max_pick c x z) \<noteq> Greater" "c z (max_pick c x z) \<noteq> Greater"
    using anti [of z x] by (auto simp: max_pick_def)
  with zs [of "max_pick c x z"] zs [of y] Cons.prems show ?case
    by (auto dest: trans_le)
qed simp

lemma max_by_upper: "max_by c xs = Some m \<Longrightarrow> y \<in> set xs \<Longrightarrow> c y m \<noteq> Greater"
  using foldl_max_pick_upper by (cases xs) auto

lemma take_sort_by_best:
  assumes "x \<in> set (take n (sort_by c xs))" and "y \<in> set (drop n (sort_by c xs))"
  shows "c x y \<noteq> Greater"
proof -
  have "sorted_wrt (\<lambda>a b. c a b \<noteq> Greater) (take n (sort_by c xs) @ drop n (sort_by c xs))"
    by (simp add: sorted_sort_by)
  with assms show ?thesis by (simp only: sorted_wrt_append) blast
qed

end

text \<open>The comparators the program composes: natural order of a key, reversal, then-with.\<close>

lemma comparator_cmp: "comparator cmp"
  by unfold_locales (auto simp: reverse_cmp)

lemma comparator_option: "comparator cmp_option"
proof
  fix x y z :: "'a option"
  show "cmp_option y x = reverse_ordering (cmp_option x y)"
    by (cases x; cases y) (auto simp: reverse_cmp)
  assume "cmp_option x y \<noteq> Greater" "cmp_option y z \<noteq> Greater"
  then show "cmp_option x z \<noteq> Greater"
    by (cases x; cases y; cases z) auto
qed

lemma comparator_key:
  assumes "comparator c" shows "comparator (\<lambda>x y. c (f x) (f y))"
  using assms unfolding comparator_def by blast

lemma comparator_reverse:
  assumes "comparator c" shows "comparator (\<lambda>x y. c y x)"
  using assms unfolding comparator_def by (metis reverse_eq_iff(3))

lemma comparator_then:
  assumes c: "comparator c" and d: "comparator d"
  shows "comparator (\<lambda>x y. then_with (c x y) (d x y))"
proof
  fix x y z
  have anti: "c y x = reverse_ordering (c x y)" "d y x = reverse_ordering (d x y)" for x y
    using c d unfolding comparator_def by blast+
  then show "then_with (c y x) (d y x) = reverse_ordering (then_with (c x y) (d x y))"
    by (metis reverse_then_with)
  have trans: "c x y \<noteq> Greater \<Longrightarrow> c y z \<noteq> Greater \<Longrightarrow> c x z \<noteq> Greater"
    "d x y \<noteq> Greater \<Longrightarrow> d y z \<noteq> Greater \<Longrightarrow> d x z \<noteq> Greater"
    using c d unfolding comparator_def by blast+
  have eq: "c x z = Equal \<Longrightarrow> c x y \<noteq> Greater \<Longrightarrow> c y z \<noteq> Greater \<Longrightarrow> c x y = Equal \<and> c y z = Equal"
    by (rule comparator.equal_between [OF c])
  assume "then_with (c x y) (d x y) \<noteq> Greater" "then_with (c y z) (d y z) \<noteq> Greater"
  then show "then_with (c x z) (d x z) \<noteq> Greater"
    using trans eq by auto
qed

lemma comparator_reverse_key: "comparator (\<lambda>x y. cmp (f y) (f x))"
  by (rule comparator_reverse [OF comparator_key [OF comparator_cmp]])

lemmas comparator_intros =
  comparator_reverse_key
  comparator_then comparator_cmp comparator_option
  comparator_key [OF comparator_cmp] comparator_key [OF comparator_option]

interpretation natural: comparator "cmp :: 'a::linorder \<Rightarrow> 'a \<Rightarrow> ordering"
  by (rule comparator_cmp)

end
