(* ===== verification/Domain.thy ===== *)
theory Domain
  imports Rust_Std_Laws Rust_Ordering
begin

text \<open>
  The domain values of \<open>src/src/domain.rs\<close>: node, worker and operation identifiers, the
  upstream endpoint and its pinning to one IPv4 address, nodes and their public summary, test
  records, the automatic connection policy, the connection and test life cycles, and the
  predicate that decides which IPv4 targets are globally routable.

  Timestamps (\<open>DateTime<Utc>\<close>) are integers, \<open>f64\<close> values are their IEEE 754 bit
  patterns, UUIDs are 128-bit words.  Unicode case mapping is a table that is not part of the
  repository; the functions that use it take it as an argument.
\<close>

section \<open>Identifiers\<close>

datatype node_id = NodeId (as_str: string)

instantiation node_id :: linorder
begin

definition less_eq_node_id :: "node_id \<Rightarrow> node_id \<Rightarrow> bool" where
  "less_eq_node_id a b \<longleftrightarrow> as_str a \<le> as_str b"

definition less_node_id :: "node_id \<Rightarrow> node_id \<Rightarrow> bool" where
  "less_node_id a b \<longleftrightarrow> as_str a < as_str b"

instance
  by standard (auto simp: less_eq_node_id_def less_node_id_def node_id.expand)

end

definition hex_digit :: "nat \<Rightarrow> char" where
  "hex_digit n = (if n < 10 then char_of (48 + n) else char_of (87 + n))"

definition hex_byte :: "u8 \<Rightarrow> string" where
  "hex_byte b = [hex_digit (unat b div 16), hex_digit (unat b mod 16)]"

definition to_hex :: "bytes \<Rightarrow> string" where
  "to_hex bs = concat (map hex_byte bs)"

text \<open>A BLAKE3 digest is 32 bytes; \<open>Hash::to_hex\<close> prints it in lowercase hexadecimal.\<close>

definition from_digest :: "bytes \<Rightarrow> node_id" where
  "from_digest digest = NodeId (to_hex digest)"

definition is_lower_hex :: "char \<Rightarrow> bool" where
  "is_lower_hex c \<longleftrightarrow> is_ascii_digit c \<or> CHR ''a'' \<le> c \<and> c \<le> CHR ''f''"

definition node_id_from_str :: "string \<Rightarrow> string + node_id" where
  "node_id_from_str value =
     (if length value = 64 \<and> list_all is_lower_hex value
      then Inr (NodeId value)
      else Inl ''node id must be 64 lowercase hexadecimal characters'')"

type_synonym uuid = "128 word"

datatype worker_id = WorkerId uuid

datatype operation_id = OperationId uuid

section \<open>Time and floating point\<close>

type_synonym datetime = int
type_synonym f64 = "64 word"

definition f64_magnitude :: "f64 \<Rightarrow> nat" where
  "f64_magnitude x = unat (x AND 0x7FFFFFFFFFFFFFFF)"

definition f64_negative :: "f64 \<Rightarrow> bool" where
  "f64_negative x = bit x 63"

definition f64_is_finite :: "f64 \<Rightarrow> bool" where
  "f64_is_finite x \<longleftrightarrow> f64_magnitude x < 0x7FF0000000000000"

definition f64_is_nan :: "f64 \<Rightarrow> bool" where
  "f64_is_nan x \<longleftrightarrow> 0x7FF0000000000000 < f64_magnitude x"

text \<open>The key of \<open>f64::total_cmp\<close>, and the IEEE comparison \<open><=\<close> derived from it.\<close>

definition f64_key :: "f64 \<Rightarrow> int" where
  "f64_key x = (if f64_negative x then - int (f64_magnitude x) - 1 else int (f64_magnitude x))"

definition f64_total_cmp :: "f64 \<Rightarrow> f64 \<Rightarrow> ordering" where
  "f64_total_cmp x y = cmp (f64_key x) (f64_key y)"

definition f64_le :: "f64 \<Rightarrow> f64 \<Rightarrow> bool" where
  "f64_le x y \<longleftrightarrow> \<not> f64_is_nan x \<and> \<not> f64_is_nan y \<and>
     (f64_magnitude x = 0 \<and> f64_magnitude y = 0 \<or> f64_key x \<le> f64_key y)"

definition f64_zero :: f64 where "f64_zero = 0"
definition f64_hundred :: f64 where "f64_hundred = 0x4059000000000000"

text \<open>\<open>score.is_finite() && (0.0..=100.0).contains(score)\<close>\<close>

definition valid_fraud_score :: "f64 \<Rightarrow> bool" where
  "valid_fraud_score x \<longleftrightarrow> f64_is_finite x \<and> f64_le f64_zero x \<and> f64_le x f64_hundred"

section \<open>The upstream endpoint\<close>

datatype secret_string = SecretString (expose: string)

definition debug_secret :: "secret_string \<Rightarrow> string" where
  "debug_secret s = ''[redacted]''"

record upstream_endpoint =
  ue_host :: string
  ue_port :: u16
  ue_username :: "string option"
  ue_password :: "secret_string option"

record resolved_upstream =
  ru_address :: socket_addr_v4
  ru_username :: "string option"
  ru_password :: "secret_string option"

datatype upstream_resolve_error = Lookup string | NoIpv4 | Mismatch

definition ipv4_broadcast :: ipv4addr where
  "ipv4_broadcast = Ipv4Addr 255 255 255 255"

fun ipv4_is_multicast :: "ipv4addr \<Rightarrow> bool" where
  "ipv4_is_multicast (Ipv4Addr a b c d) \<longleftrightarrow> 224 \<le> a \<and> a \<le> 239"

fun first_octet :: "ipv4addr \<Rightarrow> u8" where
  "first_octet (Ipv4Addr a b c d) = a"

definition is_valid_upstream_ipv4 :: "ipv4addr \<Rightarrow> bool" where
  "is_valid_upstream_ipv4 host \<longleftrightarrow>
     first_octet host \<noteq> 0 \<and> host \<noteq> ipv4_broadcast \<and> \<not> ipv4_is_multicast host"

definition valid_hostname_label :: "string \<Rightarrow> bool" where
  "valid_hostname_label label \<longleftrightarrow>
     label \<noteq> [] \<and> length label \<le> 63
     \<and> list_all (\<lambda>c. is_ascii_alphanumeric c \<or> c = CHR ''-'') label
     \<and> is_ascii_alphanumeric (hd label) \<and> is_ascii_alphanumeric (last label)"

definition is_valid_upstream_hostname :: "string \<Rightarrow> bool" where
  "is_valid_upstream_hostname host \<longleftrightarrow>
     host \<noteq> [] \<and> length host \<le> 253 \<and> is_ascii host
     \<and> list_all valid_hostname_label (split_on (CHR ''.'') host)"

definition invalid_socks_credential :: "string \<Rightarrow> bool" where
  "invalid_socks_credential value \<longleftrightarrow>
     value = [] \<or> 255 < length value \<or> list_ex (\<lambda>c. c \<in> {nul, cr, nl}) value"

definition is_some_and :: "('a \<Rightarrow> bool) \<Rightarrow> 'a option \<Rightarrow> bool" where
  "is_some_and p x = (case x of None \<Rightarrow> False | Some v \<Rightarrow> p v)"

definition is_some :: "'a option \<Rightarrow> bool" where
  "is_some x = (case x of None \<Rightarrow> False | Some _ \<Rightarrow> True)"

definition check_upstream_host :: "string \<Rightarrow> string + unit" where
  "check_upstream_host host =
     (case parse_ipv4 host of
        Some address \<Rightarrow>
          ensure (is_valid_upstream_ipv4 address) ''upstream host must be a unicast IPv4 address''
      | None \<Rightarrow>
          if list_all (\<lambda>c. is_ascii_digit c \<or> c = CHR ''.'') host
          then Inl ''upstream host contains an invalid IPv4 address''
          else ensure (is_valid_upstream_hostname host)
                 ''upstream host must be an IPv4 address or valid ASCII hostname'')"

definition new_host ::
    "string \<Rightarrow> u16 \<Rightarrow> string option \<Rightarrow> secret_string option \<Rightarrow> string + upstream_endpoint" where
  "new_host host port username password =
     and_then (check_upstream_host host) (\<lambda>_.
     and_then (ensure (is_some username = is_some password)
       ''upstream username and password must be configured together'') (\<lambda>_.
     and_then (ensure (\<not> is_some_and (\<lambda>u. u = []) username)
       ''upstream username must not be empty'') (\<lambda>_.
     and_then (ensure (\<not> (is_some_and invalid_socks_credential username
                          \<or> is_some_and (\<lambda>p. invalid_socks_credential (expose p)) password))
       ''upstream credentials must be at most 255 bytes and contain no line breaks'') (\<lambda>_.
     Inr \<lparr>ue_host = to_ascii_lowercase host, ue_port = port,
          ue_username = username, ue_password = password\<rparr>))))"

definition resolve_to ::
    "upstream_endpoint \<Rightarrow> socket_addr_v4 \<Rightarrow> upstream_resolve_error + resolved_upstream" where
  "resolve_to e address =
     and_then (ensure (sock_port address = ue_port e \<and> is_valid_upstream_ipv4 (sock_ip address))
       Mismatch) (\<lambda>_.
     and_then (case parse_ipv4 (ue_host e) of
         Some configured \<Rightarrow> ensure (configured = sock_ip address) Mismatch
       | None \<Rightarrow> Inr ()) (\<lambda>_.
     Inr \<lparr>ru_address = address, ru_username = ue_username e, ru_password = ue_password e\<rparr>))"

text \<open>
  \<open>resolve_ipv4\<close>: the outcome of \<open>tokio::net::lookup_host\<close> is an argument, an error or the
  socket addresses in the order they were returned (\<open>None\<close> stands for an IPv6 one).
\<close>

definition resolve_ipv4 ::
    "(string \<Rightarrow> u16 \<Rightarrow> string + socket_addr_v4 option list) \<Rightarrow> upstream_endpoint
     \<Rightarrow> upstream_resolve_error + resolved_upstream" where
  "resolve_ipv4 lookup_host e =
     (case parse_ipv4 (ue_host e) of
        Some address \<Rightarrow> resolve_to e \<lparr>sock_ip = address, sock_port = ue_port e\<rparr>
      | None \<Rightarrow>
          and_then (map_err Lookup (lookup_host (ue_host e) (ue_port e))) (\<lambda>addresses.
          and_then (ok_or NoIpv4
            (min_by_key (\<lambda>a. u32_from_ipv4 (sock_ip a))
              (filter (\<lambda>a. is_valid_upstream_ipv4 (sock_ip a)) (List.map_filter (\<lambda>x. x) addresses))))
          (\<lambda>address. resolve_to e address)))"

section \<open>Public IPv4 targets\<close>

definition in_cidr :: "u32 \<Rightarrow> ipv4addr \<Rightarrow> nat \<Rightarrow> bool" where
  "in_cidr value network prefix =
     (let mask = (if prefix = 0 then 0 else push_bit (32 - prefix) (- 1 :: u32))
      in value AND mask = u32_from_ipv4 network AND mask)"

definition is_public_ipv4 :: "ipv4addr \<Rightarrow> bool" where
  "is_public_ipv4 ip =
     (let value = u32_from_ipv4 ip in
      \<not> (in_cidr value (Ipv4Addr 0 0 0 0) 8
         \<or> in_cidr value (Ipv4Addr 10 0 0 0) 8
         \<or> in_cidr value (Ipv4Addr 100 64 0 0) 10
         \<or> in_cidr value (Ipv4Addr 127 0 0 0) 8
         \<or> in_cidr value (Ipv4Addr 169 254 0 0) 16
         \<or> in_cidr value (Ipv4Addr 172 16 0 0) 12
         \<or> in_cidr value (Ipv4Addr 192 0 0 0) 24
         \<or> in_cidr value (Ipv4Addr 192 0 2 0) 24
         \<or> in_cidr value (Ipv4Addr 192 88 99 0) 24
         \<or> in_cidr value (Ipv4Addr 192 168 0 0) 16
         \<or> in_cidr value (Ipv4Addr 198 18 0 0) 15
         \<or> in_cidr value (Ipv4Addr 198 51 100 0) 24
         \<or> in_cidr value (Ipv4Addr 203 0 113 0) 24
         \<or> in_cidr value (Ipv4Addr 224 0 0 0) 4
         \<or> in_cidr value (Ipv4Addr 240 0 0 0) 4))"

section \<open>Laws: identifiers\<close>

lemma hex_digit_lower_hex: "n < 16 \<Longrightarrow> is_lower_hex (hex_digit n)"
  by (auto simp: is_lower_hex_def hex_digit_def is_ascii_digit_def less_eq_char_def)

lemma length_to_hex [simp]: "length (to_hex bs) = 2 * length bs"
  by (induction bs) (simp_all add: to_hex_def hex_byte_def)

lemma to_hex_lower_hex: "list_all is_lower_hex (to_hex bs)"
proof (induction bs)
  case (Cons b bs)
  have "unat b div 16 < 16" using unat_u8_less [of b] by linarith
  with Cons show ?case by (simp add: to_hex_def hex_byte_def hex_digit_lower_hex)
qed (simp add: to_hex_def)

lemma hex_digit_inj: "m < 16 \<Longrightarrow> n < 16 \<Longrightarrow> hex_digit m = hex_digit n \<longleftrightarrow> m = n"
  by (auto simp: hex_digit_def char_of_eq_iff take_bit_eq_mod split: if_splits)

lemma hex_byte_inj [simp]: "hex_byte a = hex_byte b \<longleftrightarrow> a = b"
proof
  assume "hex_byte a = hex_byte b"
  moreover have "unat a div 16 < 16" "unat b div 16 < 16"
    using unat_u8_less [of a] unat_u8_less [of b] by linarith+
  ultimately have "unat a div 16 = unat b div 16" "unat a mod 16 = unat b mod 16"
    by (auto simp: hex_byte_def hex_digit_inj)
  then have "unat a = unat b" by (metis div_mult_mod_eq)
  then show "a = b" by (simp add: word_unat_eq_iff)
qed simp

lemma to_hex_inj: "length a = length b \<Longrightarrow> to_hex a = to_hex b \<longleftrightarrow> a = b"
  by (induction a b rule: list_induct2)
     (auto simp: to_hex_def hex_byte_def simp flip: hex_byte_inj)

section \<open>Laws: IPv4 ranges\<close>

lemma bit_cidr_mask: "bit (push_bit k (- 1 :: u32)) n \<longleftrightarrow> k \<le> n \<and> n < 32"
  by (auto simp: bit_simps)

lemma and_mask_eq_iff:
  "(v AND push_bit k (- 1 :: u32) = w AND push_bit k (- 1)) = (drop_bit k v = drop_bit k w)"
  (is "?l = ?r")
proof
  assume ?l
  then have eq: "bit (v AND push_bit k (- 1 :: u32)) n = bit (w AND push_bit k (- 1)) n" for n
    by simp
  show ?r
  proof (rule bit_word_eqI)
    fix n
    show "bit (drop_bit k v) n = bit (drop_bit k w) n"
      using eq [of "k + n"] by (auto simp: bit_simps bit_cidr_mask dest: bit_imp_le_length)
  qed
next
  assume r: ?r
  show ?l
  proof (rule bit_word_eqI)
    fix n
    have "bit (drop_bit k v) (n - k) = bit (drop_bit k w) (n - k)" using r by simp
    then show "bit (v AND push_bit k (- 1 :: u32)) n = bit (w AND push_bit k (- 1)) n"
      by (auto simp: bit_simps bit_cidr_mask)
  qed
qed

lemma unat_drop_bit_u32: "unat (drop_bit k (v :: u32)) = unat v div 2 ^ k"
proof -
  have "unat (drop_bit k v) = drop_bit k (take_bit 32 (unat v))"
    by (simp only: unsigned_drop_bit_eq) simp
  also have "take_bit 32 (unat v) = unat v"
    using unsigned_less [of v, where ?'a = nat] by (simp add: take_bit_nat_eq_self)
  finally show ?thesis by (simp add: drop_bit_eq_div)
qed

lemma in_cidr_iff:
  assumes "0 < p"
  shows "in_cidr v n p \<longleftrightarrow> unat v div 2 ^ (32 - p) = unat (u32_from_ipv4 n) div 2 ^ (32 - p)"
proof -
  have "in_cidr v n p \<longleftrightarrow> drop_bit (32 - p) v = drop_bit (32 - p) (u32_from_ipv4 n)"
    using assms and_mask_eq_iff [of v "32 - p"] unfolding in_cidr_def Let_def by presburger
  also have "\<dots> \<longleftrightarrow> unat (drop_bit (32 - p) v) = unat (drop_bit (32 - p) (u32_from_ipv4 n))"
    by (rule word_unat_eq_iff)
  finally show ?thesis by (simp only: unat_drop_bit_u32)
qed

lemma push_bit_or_nat: "y < 2 ^ k \<Longrightarrow> push_bit k x OR y = x * 2 ^ k + (y :: nat)"
proof -
  assume "y < 2 ^ k"
  then have y: "take_bit k y = y" by (simp add: take_bit_nat_eq_self)
  have "push_bit k x AND take_bit k y = 0"
    by (rule bit_eqI) (auto simp: bit_simps)
  then have "push_bit k x + take_bit k y = push_bit k x OR take_bit k y"
    by (rule disjunctive_add_eq_or)
  with y show ?thesis by (simp add: push_bit_eq_mult)
qed

lemma unat_u32_from_be_bytes:
  "unat (u32_from_be_bytes a b c d) =
   unat a * 16777216 + unat b * 65536 + unat c * 256 + unat d"
proof -
  have "D < 2 ^ 8 \<and> C * 2 ^ 8 + D < 2 ^ 16 \<and> B * 2 ^ 16 + (C * 2 ^ 8 + D) < 2 ^ 24"
    if "B < 256" "C < 256" "D < 256" for B C D :: nat
    using that by simp
  from this [of "unat b" "unat c" "unat d"]
  have small: "unat d < 2 ^ 8" "unat c * 2 ^ 8 + unat d < 2 ^ 16"
    "unat b * 2 ^ 16 + (unat c * 2 ^ 8 + unat d) < 2 ^ 24"
    by simp_all
  have push: "unat (push_bit k (ucast x :: u32)) = push_bit k (unat x)" if "k \<le> 24" for k and x :: u8
  proof -
    have "unat x * 2 ^ k < 2 ^ 8 * 2 ^ k" by simp
    also have "\<dots> = 2 ^ (8 + k)" by (simp only: power_add)
    also have "\<dots> \<le> 2 ^ 32" using that by (intro power_increasing) simp_all
    finally have "unat x * 2 ^ k < 2 ^ 32" .
    moreover have "unat (ucast x :: u32) = unat x"
      by (simp add: unsigned_ucast_eq take_bit_nat_eq_self less_trans [OF unat_u8_less])
    ultimately show ?thesis
      by (simp only: unsigned_push_bit_eq) (simp add: push_bit_eq_mult take_bit_nat_eq_self)
  qed
  have low: "unat (ucast d :: u32) = unat d"
    by (simp add: unsigned_ucast_eq take_bit_nat_eq_self less_trans [OF unat_u8_less])
  show ?thesis
    unfolding u32_from_be_bytes_def unsigned_or_eq
    by (simp only: push low push_bit_or_nat small) simp
qed

text \<open>
  The special-purpose ranges by octets: this is the specification the mask arithmetic of
  \<^const>\<open>is_public_ipv4\<close> is checked against.
\<close>

definition special_purpose :: "nat \<Rightarrow> nat \<Rightarrow> nat \<Rightarrow> bool" where
  "special_purpose a b c \<longleftrightarrow>
     a = 0 \<or> a = 10 \<or> a = 127 \<or> 224 \<le> a
     \<or> (a = 100 \<and> 64 \<le> b \<and> b \<le> 127)
     \<or> (a = 169 \<and> b = 254)
     \<or> (a = 172 \<and> 16 \<le> b \<and> b \<le> 31)
     \<or> (a = 192 \<and> (b = 168 \<or> b = 0 \<and> (c = 0 \<or> c = 2) \<or> b = 88 \<and> c = 99))
     \<or> (a = 198 \<and> (b = 18 \<or> b = 19 \<or> b = 51 \<and> c = 100))
     \<or> (a = 203 \<and> b = 0 \<and> c = 113)"

lemma octets_div:
  fixes A B C D :: nat
  assumes "B < 256" "C < 256" "D < 256"
  defines "n \<equiv> A * 16777216 + B * 65536 + C * 256 + D"
  shows "n div 268435456 = A div 16" and "n div 16777216 = A"
    and "n div 4194304 = A * 4 + B div 64" and "n div 1048576 = A * 16 + B div 16"
    and "n div 131072 = A * 128 + B div 2" and "n div 65536 = A * 256 + B"
    and "n div 256 = A * 65536 + B * 256 + C"
proof -
  have high: "n div 16777216 = A" "n div 65536 = A * 256 + B" "n div 256 = A * 65536 + B * 256 + C"
    using assms by simp_all
  then show "n div 16777216 = A" "n div 65536 = A * 256 + B" "n div 256 = A * 65536 + B * 256 + C" .
  have "n div 268435456 = (n div 16777216) div 16" "n div 4194304 = (n div 65536) div 64"
    "n div 1048576 = (n div 65536) div 16" "n div 131072 = (n div 65536) div 2"
    by (simp_all flip: div_mult2_eq)
  then show "n div 268435456 = A div 16" "n div 4194304 = A * 4 + B div 64"
    "n div 1048576 = A * 16 + B div 16" "n div 131072 = A * 128 + B div 2"
    unfolding high
    using div_mult_self3 [of 64 "A * 4" B] div_mult_self3 [of 16 "A * 16" B]
      div_mult_self3 [of 2 "A * 128" B] by (simp_all add: mult.commute [of A])
qed

lemma in_cidr_octets:
  fixes a b c d :: u8
  defines "v \<equiv> u32_from_ipv4 (Ipv4Addr a b c d)"
  shows "in_cidr v (Ipv4Addr a' b' c' d') 4 \<longleftrightarrow> unat a div 16 = unat a' div 16"
    and "in_cidr v (Ipv4Addr a' b' c' d') 8 \<longleftrightarrow> unat a = unat a'"
    and "in_cidr v (Ipv4Addr a' b' c' d') 10 \<longleftrightarrow> unat a = unat a' \<and> unat b div 64 = unat b' div 64"
    and "in_cidr v (Ipv4Addr a' b' c' d') 12 \<longleftrightarrow> unat a = unat a' \<and> unat b div 16 = unat b' div 16"
    and "in_cidr v (Ipv4Addr a' b' c' d') 15 \<longleftrightarrow> unat a = unat a' \<and> unat b div 2 = unat b' div 2"
    and "in_cidr v (Ipv4Addr a' b' c' d') 16 \<longleftrightarrow> unat a = unat a' \<and> unat b = unat b'"
    and "in_cidr v (Ipv4Addr a' b' c' d') 24 \<longleftrightarrow>
           unat a = unat a' \<and> unat b = unat b' \<and> unat c = unat c'"
proof -
  have joint: "A * m + x = A' * m + x' \<longleftrightarrow> A = A' \<and> x = x'" if "x < m" "x' < m"
    for A A' x x' m :: nat
    using that by (metis add.commute div_mult_self3 mod_less mod_mult_self3 div_less
        add_cancel_right_left less_nat_zero_code)
  have b: "unat x div 64 < 4" "unat x div 16 < 16" "unat x div 2 < 128" for x :: u8
    using unat_u8_less [of x] by linarith+
  have bc: "unat x * 256 + unat y < 65536" for x y :: u8
    using unat_u8_less [of x] unat_u8_less [of y] by linarith
  note cidr = v_def u32_from_ipv4.simps unat_u32_from_be_bytes
    octets_div [OF unat_u8_less unat_u8_less unat_u8_less] in_cidr_iff
  show "in_cidr v (Ipv4Addr a' b' c' d') 4 \<longleftrightarrow> unat a div 16 = unat a' div 16"
    "in_cidr v (Ipv4Addr a' b' c' d') 8 \<longleftrightarrow> unat a = unat a'"
    "in_cidr v (Ipv4Addr a' b' c' d') 10 \<longleftrightarrow> unat a = unat a' \<and> unat b div 64 = unat b' div 64"
    "in_cidr v (Ipv4Addr a' b' c' d') 12 \<longleftrightarrow> unat a = unat a' \<and> unat b div 16 = unat b' div 16"
    "in_cidr v (Ipv4Addr a' b' c' d') 15 \<longleftrightarrow> unat a = unat a' \<and> unat b div 2 = unat b' div 2"
    "in_cidr v (Ipv4Addr a' b' c' d') 16 \<longleftrightarrow> unat a = unat a' \<and> unat b = unat b'"
    using joint [OF b(1) b(1)] joint [OF b(2) b(2)] joint [OF b(3) b(3)]
      joint [OF unat_u8_less unat_u8_less]
    by (simp_all add: cidr)
  have "in_cidr v (Ipv4Addr a' b' c' d') 24 \<longleftrightarrow>
      unat a * 65536 + (unat b * 256 + unat c) = unat a' * 65536 + (unat b' * 256 + unat c')"
    by (simp add: cidr) (simp only: add.assoc)
  then show "in_cidr v (Ipv4Addr a' b' c' d') 24 \<longleftrightarrow>
      unat a = unat a' \<and> unat b = unat b' \<and> unat c = unat c'"
    by (simp only: joint [OF bc bc] joint [OF unat_u8_less unat_u8_less])
qed

text \<open>
  C37. Public targets.  The mask arithmetic of \<open>is_public_ipv4\<close> accepts exactly the addresses
  outside the special-purpose ranges (this network, private, carrier-grade NAT, loopback,
  link-local, documentation, 6to4 relay, benchmarking, multicast and reserved), for every one of
  the 2^32 addresses.
\<close>

theorem is_public_ipv4_iff:
  "is_public_ipv4 (Ipv4Addr a b c d) \<longleftrightarrow> \<not> special_purpose (unat a) (unat b) (unat c)"
proof -
  have "A div 16 = 14 \<or> A div 16 = 15 \<longleftrightarrow> 224 \<le> A" if "A < 256" for A :: nat
    using that by linarith
  from this [of "unat a"] have a: "unat a div 16 = 14 \<or> unat a div 16 = 15 \<longleftrightarrow> 224 \<le> unat a"
    by simp
  have b: "B div 64 = 1 \<longleftrightarrow> 64 \<le> B \<and> B \<le> 127" "B div 16 = 1 \<longleftrightarrow> 16 \<le> B \<and> B \<le> 31"
    "B div 2 = 9 \<longleftrightarrow> B = 18 \<or> B = 19" for B :: nat
    by linarith+
  have n: "(64 :: nat) div 64 = 1" "(16 :: nat) div 16 = 1" "(18 :: nat) div 2 = 9"
    "(224 :: nat) div 16 = 14" "(240 :: nat) div 16 = 15" by simp_all
  have u: "unat (0 :: u8) = 0" "unat (10 :: u8) = 10" "unat (100 :: u8) = 100" "unat (64 :: u8) = 64"
    "unat (127 :: u8) = 127" "unat (169 :: u8) = 169" "unat (254 :: u8) = 254" "unat (172 :: u8) = 172"
    "unat (16 :: u8) = 16" "unat (192 :: u8) = 192" "unat (2 :: u8) = 2" "unat (88 :: u8) = 88"
    "unat (99 :: u8) = 99" "unat (168 :: u8) = 168" "unat (198 :: u8) = 198" "unat (18 :: u8) = 18"
    "unat (51 :: u8) = 51" "unat (203 :: u8) = 203" "unat (113 :: u8) = 113"
    "unat (224 :: u8) = 224" "unat (240 :: u8) = 240" by simp_all
  show ?thesis
    unfolding is_public_ipv4_def Let_def in_cidr_octets special_purpose_def u n b
    using a by argo
qed

section \<open>Laws: the pinned upstream\<close>

lemma resolve_to_Inr:
  "resolve_to e address = Inr r \<longleftrightarrow>
   sock_port address = ue_port e \<and> is_valid_upstream_ipv4 (sock_ip address)
   \<and> (\<forall>ip. parse_ipv4 (ue_host e) = Some ip \<longrightarrow> ip = sock_ip address)
   \<and> r = \<lparr>ru_address = address, ru_username = ue_username e, ru_password = ue_password e\<rparr>"
  by (auto simp: resolve_to_def result_simps split: option.splits)

text \<open>
  One upstream address is pinned.  Whatever the resolver answers, a successful resolution
  yields a unicast address with the configured port; a numeric host is pinned to itself, and a
  host name to the numerically least usable IPv4 address of the answer, so that the helper and
  the control plane pin the same one whatever the order of the answer; reconciling with that
  address again succeeds with the same endpoint.
\<close>

lemma resolve_ipv4_pins:
  assumes "resolve_ipv4 lookup_host e = Inr r"
  shows "sock_port (ru_address r) = ue_port e \<and> is_valid_upstream_ipv4 (sock_ip (ru_address r))
    \<and> resolve_to e (ru_address r) = Inr r
    \<and> (case parse_ipv4 (ue_host e) of
         Some ip \<Rightarrow> sock_ip (ru_address r) = ip
       | None \<Rightarrow> \<exists>answer. lookup_host (ue_host e) (ue_port e) = Inr answer \<and> Some (ru_address r) \<in> set answer
           \<and> (\<forall>a. Some a \<in> set answer \<and> is_valid_upstream_ipv4 (sock_ip a) \<longrightarrow>
                u32_from_ipv4 (sock_ip (ru_address r)) \<le> u32_from_ipv4 (sock_ip a)))"
proof (cases "parse_ipv4 (ue_host e)")
  case (Some ip)
  then show ?thesis using assms by (auto simp: resolve_ipv4_def resolve_to_Inr)
next
  case None
  then obtain answer a where a: "lookup_host (ue_host e) (ue_port e) = Inr answer"
    "min_by_key (\<lambda>a. u32_from_ipv4 (sock_ip a))
      (filter (\<lambda>a. is_valid_upstream_ipv4 (sock_ip a)) (List.map_filter (\<lambda>x. x) answer)) = Some a"
    "resolve_to e a = Inr r"
    using assms by (auto simp: resolve_ipv4_def result_simps)
  then have r: "ru_address r = a" by (simp add: resolve_to_Inr)
  show ?thesis
    using None a(1,3) min_by_key_mem [OF a(2)] min_by_key_least [OF a(2)]
    by (auto simp: r resolve_to_Inr set_map_filter)
qed

lemma resolve_ipv4_pins_witness:
  "\<exists>r. resolve_ipv4 (\<lambda>_ _. Inr [Some \<lparr>sock_ip = Ipv4Addr 10 0 0 9, sock_port = 1080\<rparr>, None,
          Some \<lparr>sock_ip = Ipv4Addr 10 0 0 2, sock_port = 1080\<rparr>])
        \<lparr>ue_host = ''proxy'', ue_port = 1080, ue_username = None, ue_password = None\<rparr> = Inr r
     \<and> sock_port (ru_address r) = 1080 \<and> is_valid_upstream_ipv4 (sock_ip (ru_address r))"
proof -
  let ?e = "\<lparr>ue_host = ''proxy'', ue_port = 1080, ue_username = None, ue_password = None\<rparr>"
  let ?l = "\<lambda>_ _. Inr [Some \<lparr>sock_ip = Ipv4Addr 10 0 0 9, sock_port = 1080\<rparr>, None,
    Some \<lparr>sock_ip = Ipv4Addr 10 0 0 2, sock_port = 1080\<rparr>]"
  have "resolve_ipv4 ?l ?e = Inr \<lparr>ru_address = \<lparr>sock_ip = Ipv4Addr 10 0 0 2, sock_port = 1080\<rparr>,
    ru_username = None, ru_password = None\<rparr>" by code_simp
  from this resolve_ipv4_pins [OF this] show ?thesis by simp
qed

end
