(* ===== verification/Domain_Nodes.thy ===== *)
theory Domain_Nodes
  imports Domain Openvpn
begin

text \<open>
  The second half of \<open>src/src/domain.rs\<close>: nodes and their public summary, IPPure results and
  test records, the filters and policy of automatic connection, and the life cycles of the
  active connection and of a node test.  Timestamps (\<open>DateTime<Utc>\<close>) are integers,
  \<open>str::to_lowercase\<close> and \<open>str::to_uppercase\<close> (Unicode tables) are arguments.
\<close>

section \<open>Worker identifiers\<close>

definition uuid_simple :: "uuid \<Rightarrow> string" where
  "uuid_simple u = map (\<lambda>i. hex_digit (unat (drop_bit (124 - 4 * i) u AND 15))) [0..<32]"

fun short_id :: "worker_id \<Rightarrow> string" where
  "short_id (WorkerId u) = take 8 (uuid_simple u)"

section \<open>Nodes\<close>

datatype node_availability = Available | UnsupportedNode | InvalidConfig

record vpn_node =
  vn_id :: node_id
  vn_hostname :: string
  vn_ip :: ipv4addr
  vn_score :: nat
  vn_ping_ms :: "nat option"
  vn_speed_bps :: nat
  vn_country_long :: string
  vn_country_short :: string
  vn_sessions :: nat
  vn_uptime_ms :: nat
  vn_total_users :: nat
  vn_total_traffic_bytes :: nat
  vn_log_type :: string
  vn_operator :: string
  vn_message :: string
  vn_tcp_port :: "u16 option"
  vn_availability :: node_availability
  vn_openvpn :: "sanitized_openvpn option"

section \<open>Test results\<close>

record ip_pure_result =
  ip_fraud_score :: f64
  ip_is_residential :: bool
  ip_is_broadcast :: bool
  ip_exit_ip :: "ipv4addr option"

record test_record =
  tr_node_id :: node_id
  tr_result :: "ip_pure_result option"
  tr_duration_ms :: nat
  tr_tested_at :: datetime
  tr_error :: "string option"

record node_summary =
  ns_id :: node_id
  ns_hostname :: string
  ns_ip :: ipv4addr
  ns_score :: nat
  ns_ping_ms :: "nat option"
  ns_speed_bps :: nat
  ns_country_long :: string
  ns_country_short :: string
  ns_sessions :: nat
  ns_uptime_ms :: nat
  ns_total_users :: nat
  ns_total_traffic_bytes :: nat
  ns_log_type :: string
  ns_operator :: string
  ns_message :: string
  ns_tcp_port :: "u16 option"
  ns_availability :: node_availability
  ns_latest_test :: "test_record option"

definition summary :: "vpn_node \<Rightarrow> test_record option \<Rightarrow> node_summary" where
  "summary n latest_test =
     \<lparr>ns_id = vn_id n, ns_hostname = vn_hostname n, ns_ip = vn_ip n, ns_score = vn_score n,
      ns_ping_ms = vn_ping_ms n, ns_speed_bps = vn_speed_bps n,
      ns_country_long = vn_country_long n, ns_country_short = vn_country_short n,
      ns_sessions = vn_sessions n, ns_uptime_ms = vn_uptime_ms n,
      ns_total_users = vn_total_users n, ns_total_traffic_bytes = vn_total_traffic_bytes n,
      ns_log_type = vn_log_type n, ns_operator = vn_operator n, ns_message = vn_message n,
      ns_tcp_port = vn_tcp_port n, ns_availability = vn_availability n,
      ns_latest_test = latest_test\<rparr>"

definition matches_search :: "(string \<Rightarrow> string) \<Rightarrow> vpn_node \<Rightarrow> string \<Rightarrow> bool" where
  "matches_search to_lowercase n q \<longleftrightarrow>
     (let query = to_lowercase q in
      query = []
      \<or> contains query (to_lowercase (vn_country_long n))
      \<or> contains query (to_lowercase (vn_country_short n))
      \<or> contains query (to_lowercase (vn_hostname n))
      \<or> contains query (show_ipv4 (vn_ip n))
      \<or> contains query (to_lowercase (vn_operator n))
      \<or> contains query (to_lowercase (vn_message n)))"

section \<open>Automatic connection policy\<close>

datatype ip_type_filter = AnyType | Native | Broadcast

fun ip_type_as_str :: "ip_type_filter \<Rightarrow> string" where
  "ip_type_as_str AnyType = ''any''"
| "ip_type_as_str Native = ''native''"
| "ip_type_as_str Broadcast = ''broadcast''"

definition ip_type_from_stored :: "string \<Rightarrow> ip_type_filter option" where
  "ip_type_from_stored value =
     (if value = ''any'' then Some AnyType
      else if value = ''native'' then Some Native
      else if value = ''broadcast'' then Some Broadcast
      else None)"

datatype residential_filter = AnyResidential | Residential | NonResidential

fun residential_as_str :: "residential_filter \<Rightarrow> string" where
  "residential_as_str AnyResidential = ''any''"
| "residential_as_str Residential = ''residential''"
| "residential_as_str NonResidential = ''nonResidential''"

definition residential_from_stored :: "string \<Rightarrow> residential_filter option" where
  "residential_from_stored value =
     (if value = ''any'' then Some AnyResidential
      else if value = ''residential'' then Some Residential
      else if value = ''nonResidential'' then Some NonResidential
      else None)"

record auto_connect_config =
  ac_enabled :: bool
  ac_region :: "string option"
  ac_ip_type :: ip_type_filter
  ac_residential :: residential_filter

definition default_auto_connect :: auto_connect_config where
  "default_auto_connect =
     \<lparr>ac_enabled = False, ac_region = None, ac_ip_type = AnyType, ac_residential = AnyResidential\<rparr>"

text \<open>
  \<open>chars().any(char::is_control)\<close> on UTF-8 text: U+0000--U+001F, U+007F, and U+0080--U+009F,
  whose encoding is 0xC2 followed by the code.
\<close>

fun has_control :: "string \<Rightarrow> bool" where
  "has_control [] = False"
| "has_control (c # cs) =
     (c \<le> CHR 0x1F \<or> c = CHR 0x7F
      \<or> (c = CHR 0xC2 \<and> (case cs of d # _ \<Rightarrow> CHR 0x80 \<le> d \<and> d \<le> CHR 0x9F | [] \<Rightarrow> False))
      \<or> has_control cs)"

definition option_filter :: "('a \<Rightarrow> bool) \<Rightarrow> 'a option \<Rightarrow> 'a option" where
  "option_filter p x = (case x of Some v \<Rightarrow> if p v then Some v else None | None \<Rightarrow> None)"

definition normalized ::
    "(string \<Rightarrow> string) \<Rightarrow> auto_connect_config \<Rightarrow> string + auto_connect_config" where
  "normalized to_uppercase c =
     (let region = option_filter (\<lambda>r. r \<noteq> []) (map_option (\<lambda>r. to_uppercase (trim r)) (ac_region c))
      in if is_some_and (\<lambda>r. 8 < length r \<or> has_control r) region
         then Inl ''region must be at most 8 bytes and contain no control characters''
         else Inr (c\<lparr>ac_region := region\<rparr>))"

section \<open>Life cycles\<close>

datatype connection_state =
    Disconnected
  | Connecting node_id worker_id datetime
  | Connected node_id worker_id datetime
  | ConnectionFailed node_id string datetime

fun connection_is_ready :: "connection_state \<Rightarrow> bool" where
  "connection_is_ready (Connected _ _ _) = True"
| "connection_is_ready _ = False"

fun connection_node_id :: "connection_state \<Rightarrow> node_id option" where
  "connection_node_id Disconnected = None"
| "connection_node_id (Connecting n _ _) = Some n"
| "connection_node_id (Connected n _ _) = Some n"
| "connection_node_id (ConnectionFailed n _ _) = Some n"

datatype test_state =
    Queued node_id datetime
  | Running node_id datetime
  | Succeeded node_id test_record
  | TestFailed node_id test_record

datatype upstream_state = Checking | UpstreamReady | Unreachable | AuthenticationFailed | NetdUnavailable

datatype app_event =
    ConnectionEvent connection_state
  | AutoConnectionEvent auto_connect_config
  | TestEvent operation_id test_state
  | NodesRefreshed nat nat datetime
  | RefreshFailed string datetime
  | UpstreamEvent upstream_state datetime

section \<open>Laws\<close>

lemma ip_type_roundtrip [simp]: "ip_type_from_stored (ip_type_as_str f) = Some f"
  by (cases f) (simp_all add: ip_type_from_stored_def)

lemma residential_roundtrip [simp]: "residential_from_stored (residential_as_str f) = Some f"
  by (cases f) (simp_all add: residential_from_stored_def)

lemma is_some_and_simps [simp]: "\<not> is_some_and p None" "is_some_and p (Some v) = p v"
  by (simp_all add: is_some_and_def)

lemma option_filter_simps [simp]:
  "option_filter p None = None" "option_filter p (Some v) = (if p v then Some v else None)"
  by (simp_all add: option_filter_def)

lemma option_filter_eq_Some: "option_filter p x = Some v \<longleftrightarrow> x = Some v \<and> p v"
  by (auto simp: option_filter_def split: option.splits)

lemma normalized_region:
  assumes "normalized up c = Inr c'" and "ac_region c' = Some r"
  shows "r \<noteq> [] \<and> length r \<le> 8 \<and> \<not> has_control r"
  using assms by (auto simp: normalized_def Let_def option_filter_def split: if_splits option.splits)

lemma length_uuid_simple [simp]: "length (uuid_simple u) = 32"
  by (simp add: uuid_simple_def)

lemma length_short_id [simp]: "length (short_id w) = 8"
  by (cases w) simp

lemma short_id_lower_hex: "list_all is_lower_hex (short_id w)"
proof (cases w)
  case (WorkerId u)
  have "unat (v AND 15 :: 128 word) < 16" for v
  proof -
    have "(v AND 15) \<le> 15" by (rule word_and_le1)
    then show ?thesis by (simp add: word_le_nat_alt)
  qed
  then have "list_all is_lower_hex (uuid_simple u)"
    by (simp add: uuid_simple_def list_all_iff hex_digit_lower_hex)
  then show ?thesis using WorkerId by (auto simp: list_all_iff dest: in_set_takeD)
qed

end
