(* ===== verification/Transition_System.thy ===== *)
theory Transition_System
  imports Prelude
begin

text \<open>
  The stateful components (test registry, worker manager, login sessions, connection actor) are
  step relations on a state record.  \<open>reachable\<close> is the reflexive transitive closure from the
  initial state; the locale \<open>invariant_system\<close> is the contract under which a component's
  well-formedness predicate holds in every reachable state, and \<open>terminating_phase\<close> the contract
  of a phase (a shutdown, the working off of a queue) that must come to its end.
\<close>

inductive reachable :: "('s \<Rightarrow> bool) \<Rightarrow> ('s \<Rightarrow> 's \<Rightarrow> bool) \<Rightarrow> 's \<Rightarrow> bool"
  for init :: "'s \<Rightarrow> bool" and step :: "'s \<Rightarrow> 's \<Rightarrow> bool" where
  reach_init: "init s \<Longrightarrow> reachable init step s"
| reach_step: "reachable init step s \<Longrightarrow> step s s' \<Longrightarrow> reachable init step s'"

locale invariant_system =
  fixes init :: "'s \<Rightarrow> bool" and step :: "'s \<Rightarrow> 's \<Rightarrow> bool" and inv :: "'s \<Rightarrow> bool"
  assumes init_inv: "init s \<Longrightarrow> inv s"
    and step_inv: "inv s \<Longrightarrow> step s s' \<Longrightarrow> inv s'"
begin

lemma reachable_inv: "reachable init step s \<Longrightarrow> inv s"
  by (induction rule: reachable.induct) (blast intro: init_inv step_inv)+

lemma steps_inv: "step\<^sup>*\<^sup>* s s' \<Longrightarrow> inv s \<Longrightarrow> inv s'"
  by (induction rule: rtranclp_induct) (blast intro: step_inv)+

end

text \<open>
  A phase that must end: while \<open>busy\<close> every step lowers a weight and some step is possible, and
  a step leaves the phase only into \<open>finished\<close> states, where nothing more happens.
\<close>

locale terminating_phase = invariant_system init step inv
  for init :: "'s \<Rightarrow> bool" and step :: "'s \<Rightarrow> 's \<Rightarrow> bool" and inv :: "'s \<Rightarrow> bool" +
  fixes busy :: "'s \<Rightarrow> bool" and finished :: "'s \<Rightarrow> bool" and weight :: "'s \<Rightarrow> nat"
  assumes busy_step: "inv s \<Longrightarrow> busy s \<Longrightarrow> step s s' \<Longrightarrow> weight s' < weight s \<and> (busy s' \<or> finished s')"
    and progress: "inv s \<Longrightarrow> busy s \<Longrightarrow> \<exists>s'. step s s'"
    and finished_final: "finished s \<Longrightarrow> \<not> step s s'"
begin

lemma run_bounded:
  "(step ^^ n) s s' \<Longrightarrow> inv s \<Longrightarrow> busy s \<Longrightarrow>
   n + weight s' \<le> weight s \<and> inv s' \<and> (busy s' \<or> finished s')"
proof (induction n arbitrary: s')
  case (Suc n)
  then obtain u where u: "(step ^^ n) s u" "step u s'" by auto
  with Suc have IH: "n + weight u \<le> weight s" "inv u" "busy u \<or> finished u" by blast+
  with u(2) have "busy u" using finished_final by blast
  with busy_step [OF IH(2) this u(2)] IH step_inv [OF IH(2) u(2)] show ?case by simp
qed simp

lemma no_infinite_run:
  assumes "inv s" "busy s" "f 0 = s"
  shows "\<exists>n. \<not> step (f n) (f (Suc n))"
proof (rule ccontr)
  assume "\<nexists>n. \<not> step (f n) (f (Suc n))"
  then have "(step ^^ n) (f 0) (f n)" for n by (induction n) auto
  then have "Suc (weight s) + weight (f (Suc (weight s))) \<le> weight s"
    using run_bounded [of "Suc (weight s)" s] assms by blast
  then show False by simp
qed

lemma stuck_finished:
  assumes "inv s" "busy s" "step\<^sup>*\<^sup>* s s'" "\<And>u. \<not> step s' u"
  shows "finished s'"
proof -
  from assms(3) obtain n where "(step ^^ n) s s'" by (auto simp: rtranclp_power)
  from run_bounded [OF this assms(1,2)] assms(4) show ?thesis using progress by blast
qed

lemma reaches_finished: "inv s \<Longrightarrow> busy s \<Longrightarrow> \<exists>s'. step\<^sup>*\<^sup>* s s' \<and> finished s'"
proof (induction "weight s" arbitrary: s rule: less_induct)
  case less
  from progress [OF less.prems] obtain u where u: "step s u" by blast
  from busy_step [OF less.prems u] step_inv [OF less.prems(1) u]
  have "weight u < weight s" "inv u" "busy u \<or> finished u" by blast+
  with less.hyps [of u] u show ?case by (meson converse_rtranclp_into_rtranclp rtranclp.rtrancl_refl)
qed

end

end
