(* ===== verification/Netd_Workers.thy ===== *)
theory Netd_Workers
  imports Domain_Nodes Transition_System Openvpn "HOL-Library.AList"
begin

text \<open>
  The worker manager of the privileged helper, \<open>src/src/netd/system.rs\<close>: reservations and the
  capacity check, the allocation of worker networks and their leases, and the start and stop of
  workers.  Client requests run concurrently, so the operations are given by their atomic
  sections: \<open>reserve\<close> takes the \<open>starting\<close> lock, then reads the worker table, then takes the
  lock again, and other tasks may run in between.  A task is the progress of one \<open>start\<close> call;
  \<open>starting\<close> holds the identifiers of the tasks.
\<close>

section \<open>Errors\<close>

datatype worker_error =
    Duplicate | WorkerNotFound | Capacity | InvalidProfile | WorkerRemoteMismatch | WorkerFile
  | Network string | OpenVpnSpawn | OpenVpnExited | Management | ConnectTimedOut | WorkerSpawn
  | WorkerNotReady | ShuttingDown

fun error_code :: "worker_error \<Rightarrow> string" where
  "error_code Duplicate = ''duplicateWorker''"
| "error_code WorkerNotFound = ''workerNotFound''"
| "error_code Capacity = ''capacityExhausted''"
| "error_code InvalidProfile = ''invalidProfile''"
| "error_code WorkerRemoteMismatch = ''invalidProfile''"
| "error_code ConnectTimedOut = ''connectTimeout''"
| "error_code OpenVpnExited = ''openvpnExited''"
| "error_code WorkerNotReady = ''workerNotReady''"
| "error_code ShuttingDown = ''shuttingDown''"
| "error_code WorkerFile = ''workerSetupFailed''"
| "error_code (Network _) = ''workerSetupFailed''"
| "error_code OpenVpnSpawn = ''workerSetupFailed''"
| "error_code Management = ''workerSetupFailed''"
| "error_code WorkerSpawn = ''workerSetupFailed''"

section \<open>State\<close>

definition MAX_DRAINING_WORKERS :: nat where "MAX_DRAINING_WORKERS = 8"
definition MAX_MANAGED_WORKERS :: nat where "MAX_MANAGED_WORKERS = 64"
definition MAX_CLIENTS :: nat where "MAX_CLIENTS = 32"

datatype task = Inserted | Counted nat | Admitted | Holding u16 | Committed

record netd_state =
  nd_workers :: "(worker_id \<times> u16) list"
  nd_tasks :: "(worker_id \<times> task) list"
  nd_stopping :: "u16 list"
  nd_free :: "u16 list"
  nd_next :: u16
  nd_max :: nat

definition manager_new :: "nat \<Rightarrow> netd_state" where
  "manager_new max_parallel_tests =
     \<lparr>nd_workers = [], nd_tasks = [], nd_stopping = [], nd_free = [], nd_next = 1,
      nd_max = min (saturating_add max_parallel_tests MAX_DRAINING_WORKERS) MAX_MANAGED_WORKERS\<rparr>"

section \<open>Networks\<close>

record network_allocation =
  na_index :: u16
  na_namespace :: string
  na_host_veth :: string
  na_worker_veth :: string
  na_host_ip :: ipv4addr
  na_worker_ip :: ipv4addr

definition hex4 :: "u16 \<Rightarrow> string" where
  "hex4 w = map (\<lambda>k. hex_digit (unat w div 16 ^ k mod 16)) [3, 2, 1, 0]"

definition saturating_add_u8 :: "u8 \<Rightarrow> nat \<Rightarrow> u8" where
  "saturating_add_u8 b n = (if unat b + n \<le> 255 then of_nat (unat b + n) else 255)"

definition network_of_index :: "u16 \<Rightarrow> worker_error + network_allocation" where
  "network_of_index index =
     (if index = 0 \<or> 16383 < index then Inl Capacity
      else
        let subnet = unat index in
        if 255 < subnet div 64 \<or> 255 < subnet mod 64 * 4 then Inl Capacity
        else
          let third = of_nat (subnet div 64);
              base = of_nat (subnet mod 64 * 4);
              short = hex4 index
          in Inr \<lparr>na_index = index, na_namespace = ''v2s-'' @ short, na_host_veth = ''v2h'' @ short,
                  na_worker_veth = ''v2w'' @ short,
                  na_host_ip = Ipv4Addr 10 231 third (saturating_add_u8 base 1),
                  na_worker_ip = Ipv4Addr 10 231 third (saturating_add_u8 base 2)\<rparr>)"

text \<open>The free list is popped from its end; otherwise the counter advances, with wrap-around.\<close>

definition take_index :: "netd_state \<Rightarrow> u16 \<times> netd_state" where
  "take_index s =
     (if nd_free s = [] then (nd_next s, s\<lparr>nd_next := nd_next s + 1\<rparr>)
      else (last (nd_free s), s\<lparr>nd_free := butlast (nd_free s)\<rparr>))"

definition allocate_network :: "netd_state \<Rightarrow> (worker_error + network_allocation) \<times> netd_state" where
  "allocate_network s = (case take_index s of (index, s') \<Rightarrow> (network_of_index index, s'))"

definition release_lease :: "u16 \<Rightarrow> netd_state \<Rightarrow> netd_state" where
  "release_lease index s = s\<lparr>nd_free := nd_free s @ [index]\<rparr>"

section \<open>Atomic sections of \<open>start\<close> and \<open>stop\<close>\<close>

definition set_task :: "worker_id \<Rightarrow> task \<Rightarrow> netd_state \<Rightarrow> netd_state" where
  "set_task i t s = s\<lparr>nd_tasks := AList.update i t (nd_tasks s)\<rparr>"

definition drop_reservation :: "worker_id \<Rightarrow> netd_state \<Rightarrow> netd_state" where
  "drop_reservation i s = s\<lparr>nd_tasks := AList.delete i (nd_tasks s)\<rparr>"

definition reserve_insert :: "worker_id \<Rightarrow> netd_state \<Rightarrow> worker_error + netd_state" where
  "reserve_insert i s =
     (if map_of (nd_tasks s) i \<noteq> None then Inl Duplicate else Inr (set_task i Inserted s))"

definition reserve_count :: "worker_id \<Rightarrow> netd_state \<Rightarrow> worker_error + netd_state" where
  "reserve_count i s =
     (if map_of (nd_workers s) i \<noteq> None then Inl Duplicate
      else Inr (set_task i (Counted (length (nd_workers s))) s))"

definition reserve_admit :: "worker_id \<Rightarrow> nat \<Rightarrow> netd_state \<Rightarrow> worker_error + netd_state" where
  "reserve_admit i running s =
     (if nd_max s < saturating_add running (length (nd_tasks s)) then Inl Capacity
      else Inr (set_task i Admitted s))"

definition start_allocate :: "worker_id \<Rightarrow> netd_state \<Rightarrow> (worker_error + network_allocation) \<times> netd_state" where
  "start_allocate i s =
     (case allocate_network s of
        (Inr a, s') \<Rightarrow> (Inr a, set_task i (Holding (na_index a)) s')
      | (Inl e, s') \<Rightarrow> (Inl e, s'))"

definition start_commit :: "worker_id \<Rightarrow> u16 \<Rightarrow> netd_state \<Rightarrow> worker_error + netd_state" where
  "start_commit i index s =
     (if map_of (nd_workers s) i \<noteq> None then Inl Duplicate
      else Inr (set_task i Committed (s\<lparr>nd_workers := AList.update i index (nd_workers s)\<rparr>)))"

text \<open>
  The end of \<open>start\<close>: lease and reservation are dropped one after the other with nothing awaited
  in between; they are one step here.
\<close>

definition start_abandon :: "worker_id \<Rightarrow> netd_state \<Rightarrow> netd_state" where
  "start_abandon i s =
     (case map_of (nd_tasks s) i of
        Some (Holding index) \<Rightarrow> drop_reservation i (release_lease index s)
      | _ \<Rightarrow> drop_reservation i s)"

definition stop_remove :: "worker_id \<Rightarrow> netd_state \<Rightarrow> worker_error + netd_state" where
  "stop_remove i s =
     (case map_of (nd_workers s) i of
        None \<Rightarrow> Inl WorkerNotFound
      | Some index \<Rightarrow>
          Inr (s\<lparr>nd_workers := AList.delete i (nd_workers s), nd_stopping := nd_stopping s @ [index]\<rparr>))"

definition stop_finish :: "u16 \<Rightarrow> netd_state \<Rightarrow> netd_state" where
  "stop_finish index s = release_lease index (s\<lparr>nd_stopping := remove1 index (nd_stopping s)\<rparr>)"

definition stop_all :: "netd_state \<Rightarrow> netd_state" where
  "stop_all s = s\<lparr>nd_workers := [], nd_free := nd_free s @ map snd (nd_workers s)\<rparr>"

text \<open>
  Interleaving: each rule is one atomic section of one client task.  A client holds one of 32
  permits for as long as its request runs; \<open>stop_all\<close> runs after every client task has ended.
\<close>

definition client_slot :: "netd_state \<Rightarrow> bool" where
  "client_slot s \<longleftrightarrow> length (nd_tasks s) + length (nd_stopping s) < MAX_CLIENTS"

inductive netd_step :: "netd_state \<Rightarrow> netd_state \<Rightarrow> bool" where
  step_insert: "client_slot s \<Longrightarrow> reserve_insert i s = Inr s' \<Longrightarrow> netd_step s s'"
| step_count: "map_of (nd_tasks s) i = Some Inserted \<Longrightarrow> reserve_count i s = Inr s' \<Longrightarrow> netd_step s s'"
| step_admit: "map_of (nd_tasks s) i = Some (Counted r) \<Longrightarrow> reserve_admit i r s = Inr s' \<Longrightarrow> netd_step s s'"
| step_allocate: "map_of (nd_tasks s) i = Some Admitted \<Longrightarrow> start_allocate i s = (Inr a, s') \<Longrightarrow> netd_step s s'"
| step_allocate_failed: "map_of (nd_tasks s) i = Some Admitted \<Longrightarrow> start_allocate i s = (Inl e, s') \<Longrightarrow> netd_step s s'"
| step_commit: "map_of (nd_tasks s) i = Some (Holding index) \<Longrightarrow> start_commit i index s = Inr s' \<Longrightarrow> netd_step s s'"
| step_abandon: "map_of (nd_tasks s) i = Some t \<Longrightarrow> netd_step s (start_abandon i s)"
| step_stop: "client_slot s \<Longrightarrow> stop_remove i s = Inr s' \<Longrightarrow> netd_step s s'"
| step_finish: "index \<in> set (nd_stopping s) \<Longrightarrow> netd_step s (stop_finish index s)"
| step_stop_all: "nd_tasks s = [] \<Longrightarrow> nd_stopping s = [] \<Longrightarrow> netd_step s (stop_all s)"

section \<open>The invariant\<close>

fun held_index :: "task \<Rightarrow> u16 option" where
  "held_index (Holding index) = Some index"
| "held_index _ = None"

definition leases :: "netd_state \<Rightarrow> u16 list" where
  "leases s = nd_free s @ map snd (nd_workers s) @ nd_stopping s
     @ List.map_filter (\<lambda>p. held_index (snd p)) (nd_tasks s)"

text \<open>A task that may still become a worker: it was counted below the limit.\<close>

fun viable :: "nat \<Rightarrow> task \<Rightarrow> bool" where
  "viable limit Inserted = False"
| "viable limit (Counted r) = (r < limit)"
| "viable limit Admitted = True"
| "viable limit (Holding _) = True"
| "viable limit Committed = False"

definition viable_tasks :: "netd_state \<Rightarrow> (worker_id \<times> task) list" where
  "viable_tasks s = filter (\<lambda>p. viable (nd_max s) (snd p)) (nd_tasks s)"

definition lease_ok :: "u16 \<Rightarrow> u16 list \<Rightarrow> bool" where
  "lease_ok n ls \<longleftrightarrow>
     distinct ls \<and> length ls + 1 = unat n \<and> list_all (\<lambda>i. 0 < unat i \<and> unat i < unat n) ls"

definition counts_ok :: "netd_state \<Rightarrow> bool" where
  "counts_ok s \<longleftrightarrow>
     length (nd_tasks s) + length (nd_stopping s) \<le> MAX_CLIENTS
     \<and> length (nd_workers s) + length (viable_tasks s) < nd_max s + MAX_CLIENTS
     \<and> nd_max s \<le> MAX_MANAGED_WORKERS"

definition netd_ok :: "netd_state \<Rightarrow> bool" where
  "netd_ok s \<longleftrightarrow>
     distinct (map fst (nd_workers s)) \<and> distinct (map fst (nd_tasks s))
     \<and> lease_ok (nd_next s) (leases s) \<and> counts_ok s \<and> unat (nd_next s) \<le> 1000"

section \<open>Laws: association lists\<close>

lemma alist_split:
  assumes "distinct (map fst al)" and "map_of al i = Some v"
  obtains a b where "al = a @ (i, v) # b" "\<And>w. AList.update i w al = a @ (i, w) # b" "AList.delete i al = a @ b"
    "i \<notin> fst ` set a" "i \<notin> fst ` set b"
proof -
  from assms(2) have "(i, v) \<in> set al" by (rule map_of_SomeD)
  then obtain a b where al: "al = a @ (i, v) # b" by (meson split_list)
  then have out: "i \<notin> fst ` set a" "i \<notin> fst ` set b" using assms(1) by auto
  have upd: "AList.update i w (a @ (i, v) # b) = a @ (i, w) # b" if "i \<notin> fst ` set a" for w a
    using that by (induction a) auto
  have "filter (\<lambda>p. i \<noteq> fst p) a = a" "filter (\<lambda>p. i \<noteq> fst p) b = b"
    using out by (auto simp: filter_id_conv)
  then have "AList.delete i (a @ (i, v) # b) = a @ b"
    by (simp add: AList.delete_eq case_prod_beta')
  with al out upd that show thesis by blast
qed

lemma alist_update_new: "map_of al i = None \<Longrightarrow> AList.update i v al = al @ [(i, v)]"
  by (induction al) (auto split: if_splits)

lemma map_filter_append [simp]: "List.map_filter f (xs @ ys) = List.map_filter f xs @ List.map_filter f ys"
  by (induction xs) (simp_all add: List.map_filter_simps split: option.split)

section \<open>Laws: the invariant is preserved\<close>

lemma lease_ok_cong: "mset ls = mset ls' \<Longrightarrow> lease_ok n ls \<longleftrightarrow> lease_ok n ls'"
proof -
  assume eq: "mset ls = mset ls'"
  have "distinct ls = distinct ls'" using eq by (rule mset_eq_imp_distinct_iff)
  moreover have "length ls = length ls'" using eq by (rule mset_eq_length)
  moreover have "set ls = set ls'" using eq by (rule mset_eq_setD)
  ultimately show ?thesis unfolding lease_ok_def list_all_iff by (simp only:)
qed

lemma netd_ok_moved:
  assumes "netd_ok s" and "mset (leases s') = mset (leases s)" and "nd_next s' = nd_next s"
    and "counts_ok s'" and "distinct (map fst (nd_workers s'))" and "distinct (map fst (nd_tasks s'))"
  shows "netd_ok s'"
  using assms(1,3-) lease_ok_cong [OF assms(2), of "nd_next s"] by (simp add: netd_ok_def)

lemmas netd_sections =
  set_task_def drop_reservation_def reserve_insert_def reserve_count_def reserve_admit_def start_commit_def
  start_abandon_def stop_remove_def stop_finish_def stop_all_def release_lease_def

lemmas netd_views = leases_def counts_ok_def viable_tasks_def List.map_filter_simps

lemma insert_ok:
  assumes "netd_ok s" "client_slot s" "reserve_insert i s = Inr s'"
  shows "netd_ok s'"
proof -
  have "map_of (nd_tasks s) i = None" and s': "s' = set_task i Inserted s"
    using assms(3) by (auto simp: reserve_insert_def split: if_splits)
  then have "AList.update i Inserted (nd_tasks s) = nd_tasks s @ [(i, Inserted)]" "i \<notin> fst ` set (nd_tasks s)"
    by (simp_all add: alist_update_new map_of_eq_None_iff)
  then show ?thesis
    by (intro netd_ok_moved [OF assms(1)])
       (use assms(1,2) in \<open>auto simp: s' netd_sections netd_views netd_ok_def client_slot_def\<close>)
qed

lemma count_ok:
  assumes "netd_ok s" "map_of (nd_tasks s) i = Some Inserted" "reserve_count i s = Inr s'"
  shows "netd_ok s'"
proof -
  have "distinct (map fst (nd_tasks s))" using assms(1) by (simp add: netd_ok_def)
  then obtain a b where ab: "nd_tasks s = a @ (i, Inserted) # b"
    "\<And>w. AList.update i w (nd_tasks s) = a @ (i, w) # b"
    using assms(2) by (rule alist_split) blast
  have "length (filter (\<lambda>p. viable (nd_max s) (snd p)) (a @ b)) \<le> length a + length b"
    by (metis length_append length_filter_le)
  then show ?thesis
    by (intro netd_ok_moved [OF assms(1)])
       (use assms ab in \<open>auto simp: netd_sections netd_views netd_ok_def MAX_CLIENTS_def split: if_splits\<close>)
qed

lemma admit_ok:
  assumes "netd_ok s" "map_of (nd_tasks s) i = Some (Counted r)" "reserve_admit i r s = Inr s'"
  shows "netd_ok s'"
proof -
  have "distinct (map fst (nd_tasks s))" using assms(1) by (simp add: netd_ok_def)
  then obtain a b where ab: "nd_tasks s = a @ (i, Counted r) # b"
    "\<And>w. AList.update i w (nd_tasks s) = a @ (i, w) # b"
    using assms(2) by (rule alist_split) blast
  have "nd_max s \<le> 64" using assms(1) by (simp add: netd_ok_def counts_ok_def MAX_MANAGED_WORKERS_def)
  then have "r < nd_max s"
    using assms(3) ab(1)
    by (auto simp: reserve_admit_def saturating_add_def usize_max_def split: if_splits)
  then show ?thesis
    by (intro netd_ok_moved [OF assms(1)])
       (use assms ab in \<open>auto simp: netd_sections netd_views netd_ok_def split: if_splits\<close>)
qed

lemma commit_ok:
  assumes "netd_ok s" "map_of (nd_tasks s) i = Some (Holding index)" "start_commit i index s = Inr s'"
  shows "netd_ok s'"
proof -
  have "distinct (map fst (nd_tasks s))" using assms(1) by (simp add: netd_ok_def)
  then obtain a b where ab: "nd_tasks s = a @ (i, Holding index) # b"
    "\<And>w. AList.update i w (nd_tasks s) = a @ (i, w) # b"
    using assms(2) by (rule alist_split) blast
  moreover have "map_of (nd_workers s) i = None"
    and s': "s' = set_task i Committed (s\<lparr>nd_workers := AList.update i index (nd_workers s)\<rparr>)"
    using assms(3) by (auto simp: start_commit_def split: if_splits)
  then have "AList.update i index (nd_workers s) = nd_workers s @ [(i, index)]" "i \<notin> fst ` set (nd_workers s)"
    by (simp_all add: alist_update_new map_of_eq_None_iff)
  ultimately show ?thesis
    by (intro netd_ok_moved [OF assms(1)])
       (use assms(1) in \<open>auto simp: s' netd_sections netd_views netd_ok_def\<close>)
qed

lemma abandon_ok:
  assumes "netd_ok s" "map_of (nd_tasks s) i = Some t"
  shows "netd_ok (start_abandon i s)"
proof -
  have "distinct (map fst (nd_tasks s))" using assms(1) by (simp add: netd_ok_def)
  then obtain a b where "nd_tasks s = a @ (i, t) # b" "AList.delete i (nd_tasks s) = a @ b"
    using assms(2) by (rule alist_split) blast
  then show ?thesis
    by (intro netd_ok_moved [OF assms(1)])
       (use assms in \<open>cases t; auto simp: netd_sections netd_views netd_ok_def split: if_splits\<close>)+
qed

lemma stop_ok:
  assumes "netd_ok s" "client_slot s" "stop_remove i s = Inr s'"
  shows "netd_ok s'"
proof -
  from assms(3) obtain index where idx: "map_of (nd_workers s) i = Some index"
    by (auto simp: stop_remove_def split: option.splits)
  have "distinct (map fst (nd_workers s))" using assms(1) by (simp add: netd_ok_def)
  then obtain a b where "nd_workers s = a @ (i, index) # b" "AList.delete i (nd_workers s) = a @ b"
    using idx by (rule alist_split) blast
  then show ?thesis
    by (intro netd_ok_moved [OF assms(1)])
       (use assms idx in \<open>auto simp: netd_sections netd_views netd_ok_def client_slot_def\<close>)
qed

lemma finish_ok:
  assumes "netd_ok s" "index \<in> set (nd_stopping s)"
  shows "netd_ok (stop_finish index s)"
  by (rule netd_ok_moved [OF assms(1)])
     (use assms in \<open>auto simp: netd_sections netd_views netd_ok_def length_remove1\<close>)

lemma stop_all_ok: "netd_ok s \<Longrightarrow> netd_ok (stop_all s)"
  by (rule netd_ok_moved [of s]) (auto simp: netd_sections netd_views netd_ok_def)

lemma held_bound:
  "length (List.map_filter (\<lambda>p. held_index (snd p)) ts) \<le> length (filter (\<lambda>p. viable k (snd p)) ts)"
proof (induction ts)
  case (Cons p ts)
  then show ?case by (cases "snd p") (simp_all add: List.map_filter_simps)
qed (simp add: List.map_filter_simps)

lemma take_index_ok:
  assumes "netd_ok s" and "take_index s = (index, s')"
  shows "lease_ok (nd_next s') (index # leases s')" and "unat (nd_next s') \<le> 1000"
    and "nd_workers s' = nd_workers s" "nd_tasks s' = nd_tasks s" "nd_stopping s' = nd_stopping s"
    "nd_max s' = nd_max s"
proof -
  have ok: "lease_ok (nd_next s) (leases s)" "counts_ok s" "unat (nd_next s) \<le> 1000"
    using assms(1) by (simp_all add: netd_ok_def)
  show "nd_workers s' = nd_workers s" "nd_tasks s' = nd_tasks s" "nd_stopping s' = nd_stopping s"
    "nd_max s' = nd_max s"
    using assms(2) by (auto simp: take_index_def split: if_splits)
  have "lease_ok (nd_next s') (index # leases s') \<and> unat (nd_next s') \<le> 1000"
  proof (cases "nd_free s = []")
    case False
    then have "mset (index # leases s') = mset (leases s)"
      using assms(2) arg_cong [OF append_butlast_last_id [OF False], of mset]
      by (auto simp: take_index_def leases_def)
    moreover have "nd_next s' = nd_next s" using False assms(2) by (auto simp: take_index_def)
    ultimately show ?thesis using ok lease_ok_cong [of "index # leases s'" "leases s"] by simp
  next
    case True
    then have s': "index = nd_next s" "s' = s\<lparr>nd_next := nd_next s + 1\<rparr>"
      using assms(2) by (auto simp: take_index_def)
    have "length (leases s) \<le> length (nd_workers s) + length (nd_stopping s) + length (viable_tasks s)"
      using True held_bound [of "nd_tasks s" "nd_max s"] by (simp add: leases_def viable_tasks_def)
    then have small: "unat (nd_next s) \<le> 200"
      using ok(1,2) by (simp add: lease_ok_def counts_ok_def MAX_CLIENTS_def MAX_MANAGED_WORKERS_def)
    then have next': "unat (nd_next s + 1) = unat (nd_next s) + 1"
      by (simp add: unat_word_ariths)
    have "leases s' = leases s" using s' by (simp add: leases_def)
    moreover have "lease_ok (nd_next s + 1) (nd_next s # leases s)"
      using ok(1) next' by (fastforce simp: lease_ok_def list_all_iff)
    ultimately show ?thesis using s' next' small by simp
  qed
  then show "lease_ok (nd_next s') (index # leases s')" "unat (nd_next s') \<le> 1000" by simp_all
qed

lemma network_of_index_Inr: "network_of_index index = Inr a \<Longrightarrow> na_index a = index"
  by (auto simp: network_of_index_def Let_def split: if_splits)

lemma allocate_ok:
  assumes "netd_ok s" "map_of (nd_tasks s) i = Some Admitted" "start_allocate i s = (Inr a, s')"
  shows "netd_ok s'"
proof -
  from assms(3) obtain s1 where t: "take_index s = (na_index a, s1)" and s': "s' = set_task i (Holding (na_index a)) s1"
    by (auto simp: start_allocate_def allocate_network_def dest: network_of_index_Inr
        split: prod.splits sum.splits)
  note t_ok = take_index_ok [OF assms(1) t]
  have "distinct (map fst (nd_tasks s))" using assms(1) by (simp add: netd_ok_def)
  then obtain x y where xy: "nd_tasks s = x @ (i, Admitted) # y"
    "\<And>w. AList.update i w (nd_tasks s) = x @ (i, w) # y"
    using assms(2) by (rule alist_split) blast
  have "mset (leases s') = mset (na_index a # leases s1)"
    using xy t_ok(3-) by (simp add: s' leases_def set_task_def List.map_filter_simps)
  then have "lease_ok (nd_next s') (leases s')"
    using t_ok(1) lease_ok_cong [of "leases s'" "na_index a # leases s1"] by (simp add: s' set_task_def)
  moreover have "counts_ok s'" using assms(1) xy t_ok(3-)
    by (simp add: s' netd_ok_def counts_ok_def viable_tasks_def set_task_def)
  ultimately show ?thesis
    using assms(1) xy t_ok(2-) by (simp add: s' netd_ok_def set_task_def)
qed

lemma network_of_index_ok: "0 < unat index \<Longrightarrow> unat index \<le> 16383 \<Longrightarrow> \<exists>a. network_of_index index = Inr a"
proof -
  assume i: "0 < unat index" "unat index \<le> 16383"
  then have "index \<noteq> 0" "\<not> 16383 < index" by (auto simp: word_less_nat_alt)
  moreover have "unat index div 64 \<le> 255" "unat index mod 64 * 4 \<le> 255"
    using i mod_less_divisor [of 64 "unat index"] by linarith+
  ultimately show ?thesis by (simp add: network_of_index_def Let_def)
qed

text \<open>The index taken is always in the address range, so the allocation never fails.\<close>

lemma start_allocate_total:
  assumes "netd_ok s"
  obtains a s' where "start_allocate i s = (Inr a, s')"
proof -
  obtain index s1 where t: "take_index s = (index, s1)" by (cases "take_index s")
  have "0 < unat index" "unat index \<le> 16383"
    using take_index_ok(1,2) [OF assms t] by (auto simp: lease_ok_def)
  then obtain a where "network_of_index index = Inr a" using network_of_index_ok by blast
  with t that show thesis by (simp add: start_allocate_def allocate_network_def)
qed

lemma allocate_failed_ok: "netd_ok s \<Longrightarrow> start_allocate i s = (Inl e, s') \<Longrightarrow> netd_ok s'"
  by (erule start_allocate_total [of s i]) simp

lemma manager_new_ok: "netd_ok (manager_new n)"
  by (simp add: netd_ok_def manager_new_def leases_def lease_ok_def counts_ok_def viable_tasks_def
      List.map_filter_simps MAX_CLIENTS_def MAX_DRAINING_WORKERS_def MAX_MANAGED_WORKERS_def saturating_add_def
      usize_max_def)

interpretation manager: invariant_system "\<lambda>s. \<exists>n. s = manager_new n" netd_step netd_ok
proof
  show "netd_ok s" if "\<exists>n. s = manager_new n" for s using that manager_new_ok by blast
  show "netd_ok s'" if "netd_ok s" and "netd_step s s'" for s s'
    using that(2,1)
    by cases (auto intro: insert_ok count_ok admit_ok allocate_ok allocate_failed_ok commit_ok abandon_ok stop_ok finish_ok stop_all_ok)
qed

section \<open>Laws: networks of different leases are disjoint\<close>

definition slash30 :: "ipv4addr \<Rightarrow> nat" where
  "slash30 ip = unat (u32_from_ipv4 ip) div 4"

lemma saturating_add_u8_small: "n + k \<le> 255 \<Longrightarrow> saturating_add_u8 (of_nat n) k = of_nat (n + k)"
  by (simp add: saturating_add_u8_def unsigned_of_nat take_bit_nat_eq_self)

lemma slash30_index:
  assumes "network_of_index index = Inr a"
  shows "slash30 (na_host_ip a) = slash30 (Ipv4Addr 10 231 0 0) + unat index"
    and "slash30 (na_worker_ip a) = slash30 (Ipv4Addr 10 231 0 0) + unat index"
proof -
  let ?i = "unat index"
  have i: "?i \<le> 16383" using assms by (auto simp: network_of_index_def word_le_nat_alt not_less split: if_splits)
  then have t: "?i div 64 \<le> 255" and b: "?i mod 64 * 4 + 2 \<le> 255"
    using mod_less_divisor [of 64 ?i] by linarith+
  have a: "na_host_ip a = Ipv4Addr 10 231 (of_nat (?i div 64)) (of_nat (?i mod 64 * 4 + 1))"
    "na_worker_ip a = Ipv4Addr 10 231 (of_nat (?i div 64)) (of_nat (?i mod 64 * 4 + 2))"
    using assms saturating_add_u8_small [of "?i mod 64 * 4" 1] saturating_add_u8_small [of "?i mod 64 * 4" 2] b
    by (auto simp: network_of_index_def Let_def simp del: of_nat_mult of_nat_add One_nat_def split: if_splits)
  have u: "unat (of_nat n :: u8) = n" if "n \<le> 255" for n
    using that by (simp add: unsigned_of_nat take_bit_nat_eq_self)
  have eq: "64 * (?i div 64) + ?i mod 64 = ?i" by simp
  have blk: "(C + T * 256 + (B * 4 + k)) div 4 = C div 4 + (64 * T + B)" if "k < 4" "4 dvd C" for C T B k :: nat
    using that by (auto elim!: dvdE)
  show "slash30 (na_host_ip a) = slash30 (Ipv4Addr 10 231 0 0) + ?i"
    "slash30 (na_worker_ip a) = slash30 (Ipv4Addr 10 231 0 0) + ?i"
    using blk [of 1 182910976 "?i div 64" "?i mod 64"] blk [of 2 182910976 "?i div 64" "?i mod 64"] t b eq
    by (simp_all add: slash30_def a unat_u32_from_be_bytes u del: of_nat_mult of_nat_add of_nat_Suc)
qed

lemma hex4_inj: "hex4 a = hex4 b \<Longrightarrow> a = b"
proof -
  assume "hex4 a = hex4 b"
  then have d: "unat a div 4096 mod 16 = unat b div 4096 mod 16" "unat a div 256 mod 16 = unat b div 256 mod 16"
    "unat a div 16 mod 16 = unat b div 16 mod 16" "unat a mod 16 = unat b mod 16"
    by (simp_all add: hex4_def hex_digit_inj)
  have "n = ((n div 4096 mod 16 * 16 + n div 256 mod 16) * 16 + n div 16 mod 16) * 16 + n mod 16"
    if "n < 65536" for n :: nat
  proof -
    have "n div 4096 mod 16 = n div 4096" using that by simp
    moreover have "n div 256 = n div 4096 * 16 + n div 256 mod 16" "n div 16 = n div 256 * 16 + n div 16 mod 16"
      using div_mult_mod_eq [of "n div 256" 16] div_mult_mod_eq [of "n div 16" 16]
      by (simp_all flip: div_mult2_eq)
    ultimately show ?thesis using div_mult_mod_eq [of n 16] by simp
  qed
  moreover have "unat a < 65536" "unat b < 65536" using unat_u16_le [of a] unat_u16_le [of b] by linarith+
  ultimately have "unat a = unat b" using d by metis
  then show "a = b" by (simp add: word_unat_eq_iff)
qed

lemma network_of_index_names:
  "network_of_index index = Inr a \<Longrightarrow>
   na_namespace a = ''v2s-'' @ hex4 index \<and> na_host_veth a = ''v2h'' @ hex4 index
   \<and> na_worker_veth a = ''v2w'' @ hex4 index"
  by (auto simp: network_of_index_def Let_def split: if_splits)

section \<open>Executable interleavings\<close>

datatype task_section = Insert worker_id | Count worker_id | Admit worker_id | Allocate worker_id
  | Commit worker_id | Leave worker_id

fun run_section :: "task_section \<Rightarrow> netd_state \<Rightarrow> netd_state option" where
  "run_section (Insert i) s = (if client_slot s then result_ok (reserve_insert i s) else None)"
| "run_section (Count i) s =
     (if map_of (nd_tasks s) i = Some Inserted then result_ok (reserve_count i s) else None)"
| "run_section (Admit i) s =
     (case map_of (nd_tasks s) i of Some (Counted r) \<Rightarrow> result_ok (reserve_admit i r s) | _ \<Rightarrow> None)"
| "run_section (Allocate i) s =
     (if map_of (nd_tasks s) i = Some Admitted
      then (case start_allocate i s of (Inr _, s') \<Rightarrow> Some s' | _ \<Rightarrow> None) else None)"
| "run_section (Commit i) s =
     (case map_of (nd_tasks s) i of Some (Holding index) \<Rightarrow> result_ok (start_commit i index s) | _ \<Rightarrow> None)"
| "run_section (Leave i) s =
     (if map_of (nd_tasks s) i \<noteq> None then Some (start_abandon i s) else None)"

fun run_sections :: "task_section list \<Rightarrow> netd_state \<Rightarrow> netd_state option" where
  "run_sections [] s = Some s"
| "run_sections (x # xs) s = Option.bind (run_section x s) (run_sections xs)"

lemma result_ok_Some [simp]: "result_ok r = Some x \<longleftrightarrow> r = Inr x"
  by (cases r) auto

lemma run_section_step: "run_section x s = Some s' \<Longrightarrow> netd_step s s'"
  by (cases x)
     (auto intro: netd_step.intros split: if_splits option.splits task.splits prod.splits sum.splits)

lemma run_sections_reachable:
  "run_sections xs s = Some s' \<Longrightarrow> reachable I netd_step s \<Longrightarrow> reachable I netd_step s'"
proof (induction xs arbitrary: s)
  case (Cons x xs)
  then obtain s1 where s1: "run_section x s = Some s1" "run_sections xs s1 = Some s'"
    by (auto simp: bind_eq_Some_conv)
  show ?case
    by (rule Cons.IH [OF s1(2)]) (rule reach_step [OF Cons.prems(2) run_section_step [OF s1(1)]])
qed simp

definition start_sections :: "worker_id \<Rightarrow> task_section list" where
  "start_sections i = [Insert i, Count i, Admit i, Allocate i, Commit i, Leave i]"

text \<open>
  Eight workers start one after another; then two start together: the second reads the worker
  table before the first commits, and the reservation list after the first has left it.
\<close>

definition race :: "task_section list" where
  "race = concat (map (\<lambda>k. start_sections (WorkerId (of_nat k))) [0..<8])
     @ [Insert (WorkerId 8), Count (WorkerId 8), Admit (WorkerId 8), Allocate (WorkerId 8),
        Insert (WorkerId 9), Count (WorkerId 9), Commit (WorkerId 8), Leave (WorkerId 8),
        Admit (WorkerId 9), Allocate (WorkerId 9), Commit (WorkerId 9), Leave (WorkerId 9)]"

lemma race_run: "map_option (\<lambda>s. (length (nd_workers s), nd_max s)) (run_sections race (manager_new 1)) = Some (10, 9)"
  by (simp add: race_def start_sections_def upt_conv_Cons netd_sections manager_new_def client_slot_def
      start_allocate_def allocate_network_def take_index_def network_of_index_def saturating_add_def usize_max_def
      MAX_CLIENTS_def MAX_DRAINING_WORKERS_def MAX_MANAGED_WORKERS_def Let_def)

lemma start_run: "map_option leases (run_sections (start_sections (WorkerId 1)) (manager_new 4)) = Some [1]"
  by (simp add: start_sections_def netd_sections manager_new_def client_slot_def start_allocate_def
      allocate_network_def take_index_def network_of_index_def saturating_add_def usize_max_def leases_def
      MAX_CLIENTS_def MAX_DRAINING_WORKERS_def MAX_MANAGED_WORKERS_def Let_def List.map_filter_simps)

text \<open>
  C39. Capacity is not a hard limit: the two counts of \<open>reserve\<close> come from two critical sections,
  and a commit between them hides a worker from both.  With one parallel test configured, the smallest
  number the configuration admits, ten workers can run under a limit of nine.
\<close>

theorem reserve_race:
  "\<exists>s. reachable (\<lambda>s. s = manager_new 1) netd_step s \<and> nd_max s < length (nd_workers s)"
proof -
  obtain s where s: "run_sections race (manager_new 1) = Some s" "length (nd_workers s) = 10" "nd_max s = 9"
    using race_run by auto
  have "reachable (\<lambda>s. s = manager_new 1) netd_step (manager_new 1)" by (blast intro: reach_init)
  then show ?thesis using run_sections_reachable [OF s(1)] s(2,3) by (intro exI [of _ s]) simp
qed

text \<open>
  C13. Worker networks are isolated.  In every state the worker manager can reach, under any
  interleaving of client requests, the lease indices in use (by workers, by starts in progress,
  by stops in progress, and on the free list) are pairwise distinct, an index can always be
  allocated, and the networks of two different indices have different namespace names, different
  interface names and host and worker addresses in different /30 blocks.
\<close>

theorem networks_isolated:
  assumes "reachable (\<lambda>s. \<exists>n. s = manager_new n) netd_step s"
  shows "distinct (leases s) \<and> (\<exists>a s'. start_allocate i s = (Inr a, s'))
    \<and> (\<forall>x \<in> set (leases s). \<exists>a. network_of_index x = Inr a)
    \<and> (\<forall>x a y b. network_of_index x = Inr a \<and> network_of_index y = Inr b \<and> x \<noteq> y \<longrightarrow>
         na_namespace a \<noteq> na_namespace b \<and> na_host_veth a \<noteq> na_host_veth b
         \<and> na_worker_veth a \<noteq> na_worker_veth b
         \<and> {slash30 (na_host_ip a), slash30 (na_worker_ip a)} \<inter> {slash30 (na_host_ip b), slash30 (na_worker_ip b)} = {})"
proof (intro conjI allI impI ballI)
  have ok: "netd_ok s" using assms by (rule manager.reachable_inv)
  then show "distinct (leases s)" by (simp add: netd_ok_def lease_ok_def)
  show "\<exists>a s'. start_allocate i s = (Inr a, s')" using start_allocate_total [OF ok] by metis
  show "\<exists>a. network_of_index x = Inr a" if "x \<in> set (leases s)" for x
    using ok that by (intro network_of_index_ok) (auto simp: netd_ok_def lease_ok_def list_all_iff)
next
  fix x a y b assume n: "network_of_index x = Inr a \<and> network_of_index y = Inr b \<and> x \<noteq> y"
  then have "hex4 x \<noteq> hex4 y" "unat x \<noteq> unat y"
    using hex4_inj [of x y] word_unat_eq_iff [of x y] by blast+
  then show "na_namespace a \<noteq> na_namespace b" "na_host_veth a \<noteq> na_host_veth b"
    "na_worker_veth a \<noteq> na_worker_veth b"
    "{slash30 (na_host_ip a), slash30 (na_worker_ip a)} \<inter> {slash30 (na_host_ip b), slash30 (na_worker_ip b)} = {}"
    using n network_of_index_names [of x a] network_of_index_names [of y b] slash30_index [of x a]
      slash30_index [of y b] by simp_all
qed

theorem networks_isolated_witness:
  "\<exists>s. run_sections (start_sections (WorkerId 1)) (manager_new 4) = Some s \<and> leases s = [1] \<and> distinct (leases s)"
proof -
  obtain s where s: "run_sections (start_sections (WorkerId 1)) (manager_new 4) = Some s" "leases s = [1]"
    using start_run by auto
  have "reachable (\<lambda>s. \<exists>n. s = manager_new n) netd_step (manager_new 4)" by (blast intro: reach_init)
  from networks_isolated [OF run_sections_reachable [OF s(1) this]] s show ?thesis by blast
qed

text \<open>
  C34. The number of workers is bounded.  Under any interleaving of client requests at most
  \<open>max_workers\<close> + 31 workers run, since a start can only overshoot the limit while it competes
  with the other 31 clients, and the address range of 16383 networks is never exhausted.
\<close>

theorem workers_bounded:
  assumes "reachable (\<lambda>s. \<exists>n. s = manager_new n) netd_step s"
  shows "length (nd_workers s) < nd_max s + MAX_CLIENTS \<and> nd_max s \<le> MAX_MANAGED_WORKERS
    \<and> length (leases s) < 16383"
  using manager.reachable_inv [OF assms] by (auto simp: netd_ok_def counts_ok_def lease_ok_def)

theorem workers_bounded_witness:
  "\<exists>s. run_sections race (manager_new 1) = Some s \<and> length (nd_workers s) = 10 \<and> length (nd_workers s) < nd_max s + MAX_CLIENTS"
proof -
  obtain s where s: "run_sections race (manager_new 1) = Some s" "length (nd_workers s) = 10"
    using race_run by auto
  have "reachable (\<lambda>s. \<exists>n. s = manager_new n) netd_step (manager_new 1)" by (blast intro: reach_init)
  from workers_bounded [OF run_sections_reachable [OF s(1) this]] s show ?thesis by blast
qed

end
