(* ===== verification/Byte_Stream.thy ===== *)
theory Byte_Stream
  imports Prelude
begin

text \<open>
  Byte streams as the asynchronous readers and writers of the program see them, and the
  contract of an encoding that is read back from a stream.  A stream is the bytes that will
  arrive, whether it then stalls (a read runs into the caller's timeout) or ends (the read
  fails), the bytes written to it, and whether the peer has closed it.  The locale
  \<open>stream_codec\<close> is the contract between an encoder and the reader of its messages; SOCKS
  requests and replies and the frames of the helper protocol are instances.
\<close>

section \<open>Streams\<close>

record conn =
  c_in :: bytes
  c_stalled :: bool
  c_out :: bytes
  c_broken :: bool

datatype stream_error = StreamEnd | StreamStall | StreamBroken

definition stream_of :: "bytes \<Rightarrow> conn" where
  "stream_of bs = \<lparr>c_in = bs, c_stalled = False, c_out = [], c_broken = False\<rparr>"

definition read_exact :: "nat \<Rightarrow> conn \<Rightarrow> (stream_error + bytes) \<times> conn" where
  "read_exact n c =
     (if n \<le> length (c_in c) then (Inr (take n (c_in c)), c\<lparr>c_in := drop n (c_in c)\<rparr>)
      else (Inl (if c_stalled c then StreamStall else StreamEnd), c\<lparr>c_in := []\<rparr>))"

definition write_all :: "bytes \<Rightarrow> conn \<Rightarrow> (stream_error + unit) \<times> conn" where
  "write_all bs c =
     (if c_broken c then (Inl StreamBroken, c) else (Inr (), c\<lparr>c_out := c_out c @ bs\<rparr>))"

section \<open>Sequencing of fallible operations on a state\<close>

text \<open>
  The state is a stream in the SOCKS and protocol code and a log of system calls in the helper.
\<close>

type_synonym ('s, 'e, 'a) state_io = "'s \<Rightarrow> ('e + 'a) \<times> 's"
type_synonym ('e, 'a) stream_io = "(conn, 'e, 'a) state_io"

definition io_return :: "'a \<Rightarrow> ('s, 'e, 'a) state_io" where
  "io_return x c = (Inr x, c)"

definition io_fail :: "'e \<Rightarrow> ('s, 'e, 'a) state_io" where
  "io_fail e c = (Inl e, c)"

definition io_then :: "('s, 'e, 'a) state_io \<Rightarrow> ('a \<Rightarrow> ('s, 'e, 'b) state_io) \<Rightarrow> ('s, 'e, 'b) state_io" where
  "io_then m f c = (case m c of (Inl e, c') \<Rightarrow> (Inl e, c') | (Inr x, c') \<Rightarrow> f x c')"

definition io_err :: "('e \<Rightarrow> 'f) \<Rightarrow> ('s, 'e, 'a) state_io \<Rightarrow> ('s, 'f, 'a) state_io" where
  "io_err g m c = (case m c of (Inl e, c') \<Rightarrow> (Inl (g e), c') | (Inr x, c') \<Rightarrow> (Inr x, c'))"

definition io_lift :: "'e + 'a \<Rightarrow> ('s, 'e, 'a) state_io" where
  "io_lift r c = (r, c)"

lemma io_simps [simp]:
  "io_return x c = (Inr x, c)" "io_fail e c = (Inl e, c)" "io_lift r c = (r, c)"
  by (simp_all add: io_return_def io_fail_def io_lift_def)

lemma io_then_eq_Inr [result_simps]:
  "io_then m f c = (Inr y, c') \<longleftrightarrow> (\<exists>x c1. m c = (Inr x, c1) \<and> f x c1 = (Inr y, c'))"
  by (auto simp: io_then_def split: prod.splits sum.splits)

lemma io_then_eq_Inl [result_simps]:
  "io_then m f c = (Inl e, c') \<longleftrightarrow>
   m c = (Inl e, c') \<or> (\<exists>x c1. m c = (Inr x, c1) \<and> f x c1 = (Inl e, c'))"
  by (auto simp: io_then_def split: prod.splits sum.splits)

lemma io_then_Inr: "m c = (Inr x, c1) \<Longrightarrow> io_then m f c = f x c1"
  by (simp add: io_then_def)

lemma io_then_Inl: "m c = (Inl e, c1) \<Longrightarrow> io_then m f c = (Inl e, c1)"
  by (simp add: io_then_def)

lemma io_err_eq_Inr [result_simps]: "io_err g m c = (Inr y, c') \<longleftrightarrow> m c = (Inr y, c')"
  by (auto simp: io_err_def split: prod.splits sum.splits)

lemma read_exact_Inr [result_simps]:
  "read_exact n c = (Inr bs, c') \<longleftrightarrow>
   (\<exists>rest. length bs = n \<and> c_in c = bs @ rest \<and> c' = c\<lparr>c_in := rest\<rparr>)"
proof
  assume r: "read_exact n c = (Inr bs, c')"
  then have "bs = take n (c_in c)" "n \<le> length (c_in c)" "c' = c\<lparr>c_in := drop n (c_in c)\<rparr>"
    by (auto simp: read_exact_def split: if_splits)
  then show "\<exists>rest. length bs = n \<and> c_in c = bs @ rest \<and> c' = c\<lparr>c_in := rest\<rparr>"
    by (intro exI [of _ "drop n (c_in c)"]) simp
qed (auto simp: read_exact_def)

lemma read_exact_append [simp]:
  "length bs = n \<Longrightarrow> read_exact n (c\<lparr>c_in := bs @ rest\<rparr>) = (Inr bs, c\<lparr>c_in := rest\<rparr>)"
  by (auto simp: read_exact_def)

lemma write_all_Inr [result_simps]:
  "write_all bs c = (Inr u, c') \<longleftrightarrow> \<not> c_broken c \<and> c' = c\<lparr>c_out := c_out c @ bs\<rparr>"
  by (auto simp: write_all_def)

section \<open>The contract of an encoding\<close>

locale stream_codec =
  fixes valid :: "'a \<Rightarrow> bool" and enc :: "'a \<Rightarrow> bytes" and dec :: "bytes \<Rightarrow> ('a \<times> bytes) option"
  assumes dec_enc: "valid x \<Longrightarrow> dec (enc x @ rest) = Some (x, rest)"
begin

text \<open>No message is a proper prefix of another stream's start: messages cannot be confused.\<close>

lemma enc_prefix_free:
  assumes "valid x" "valid y" "enc x @ r = enc y @ s"
  shows "x = y \<and> r = s"
  using dec_enc [OF assms(1), of r] dec_enc [OF assms(2), of s] unfolding assms(3) by simp

lemma enc_inj: "valid x \<Longrightarrow> valid y \<Longrightarrow> enc x = enc y \<longleftrightarrow> x = y"
  using enc_prefix_free [of x y "[]" "[]"] by auto

text \<open>A sequence of messages is read back message by message.\<close>

lemma dec_stream:
  "list_all valid xs \<Longrightarrow>
   (\<exists>ds. length ds = length xs + 1 \<and> hd ds = concat (map enc xs) @ rest \<and> last ds = rest \<and>
      (\<forall>i < length xs. dec (ds ! i) = Some (xs ! i, ds ! Suc i)))"
proof (induction xs)
  case Nil
  then show ?case by (intro exI [of _ "[rest]"]) simp
next
  case (Cons x xs)
  then obtain ds where ds: "length ds = length xs + 1" "hd ds = concat (map enc xs) @ rest" "last ds = rest"
    "\<forall>i < length xs. dec (ds ! i) = Some (xs ! i, ds ! Suc i)" by auto
  have "ds ! 0 = concat (map enc xs) @ rest" using ds(1,2) by (cases ds) auto
  moreover have "valid x" using Cons.prems by simp
  ultimately show ?case using ds
    by (intro exI [of _ "(enc x @ concat (map enc xs) @ rest) # ds"])
       (auto simp: less_Suc_eq_0_disj dec_enc)
qed

end

end
