(* ===== verification/Netd_Protocol.thy ===== *)
theory Netd_Protocol
  imports Domain Byte_Stream Rust_Std_Laws
begin

text \<open>
  The length-delimited protocol between the control plane and the privileged helper,
  \<open>src/src/netd/protocol.rs\<close>.  JSON encoding and decoding (\<open>serde_json\<close>) are arguments; the
  frame layer and the client's classification of responses are modelled.
\<close>

section \<open>Messages\<close>

datatype netd_request =
    Ping
  | StartWorker worker_id node_id socket_addr_v4 string nat
  | StopWorker worker_id
  | WorkerStatusRequest worker_id

datatype netd_response =
    Pong socket_addr_v4
  | WorkerStarted string
  | Stopped
  | WorkerStatus bool
  | ErrorResponse string string

datatype netd_client_error =
    Unavailable
  | ClientTimeout
  | ClientProtocol
  | Rejected string string
  | UnexpectedResponse

section \<open>Frames\<close>

definition MAX_FRAME_BYTES :: nat where
  "MAX_FRAME_BYTES = 512 * 1024"

datatype frame_error = FrameIo stream_error | FrameInvalid

definition read_u32 :: "(frame_error, u32) stream_io" where
  "read_u32 = io_then (io_err FrameIo (read_exact 4)) (\<lambda>bs.
     io_return (u32_from_be_bytes (bs ! 0) (bs ! 1) (bs ! 2) (bs ! 3)))"

definition read_frame :: "(bytes \<Rightarrow> 'a option) \<Rightarrow> (frame_error, 'a) stream_io" where
  "read_frame from_slice =
     io_then read_u32 (\<lambda>n.
     if n = 0 \<or> MAX_FRAME_BYTES < unat n then io_fail FrameInvalid
     else
       io_then (io_err FrameIo (read_exact (unat n))) (\<lambda>bs.
       io_lift (ok_or FrameInvalid (from_slice bs))))"

definition write_frame :: "('a \<Rightarrow> bytes option) \<Rightarrow> 'a \<Rightarrow> (frame_error, unit) stream_io" where
  "write_frame to_vec value =
     io_then (io_lift (ok_or FrameInvalid (to_vec value))) (\<lambda>bs.
     if bs = [] \<or> MAX_FRAME_BYTES < length bs then io_fail FrameInvalid
     else
       io_then (io_err FrameIo (write_all (u32_to_be_bytes (of_nat (length bs))))) (\<lambda>_.
       io_err FrameIo (write_all bs)))"

section \<open>The client\<close>

fun client_error :: "frame_error \<Rightarrow> netd_client_error" where
  "client_error (FrameIo StreamStall) = ClientTimeout"
| "client_error _ = ClientProtocol"

text \<open>
  \<open>NetdClient::request\<close> on the helper's socket (\<open>None\<close>: it cannot be opened).  A stalled
  stream is the elapsed request timeout.
\<close>

definition client_request ::
    "(netd_request \<Rightarrow> bytes option) \<Rightarrow> (bytes \<Rightarrow> netd_response option) \<Rightarrow> conn option \<Rightarrow> netd_request
     \<Rightarrow> netd_client_error + netd_response" where
  "client_request to_vec from_slice socket request =
     (case socket of
        None \<Rightarrow> Inl Unavailable
      | Some s \<Rightarrow>
          map_err client_error (fst (io_then (write_frame to_vec request) (\<lambda>_. read_frame from_slice) s)))"

fun expect_pong :: "netd_response \<Rightarrow> netd_client_error + socket_addr_v4" where
  "expect_pong (Pong upstream) = Inr upstream"
| "expect_pong _ = Inl UnexpectedResponse"

fun expect_started :: "netd_response \<Rightarrow> netd_client_error + string" where
  "expect_started (WorkerStarted socks_socket) = Inr socks_socket"
| "expect_started (ErrorResponse code message) = Inl (Rejected code message)"
| "expect_started _ = Inl UnexpectedResponse"

fun expect_stopped :: "netd_response \<Rightarrow> netd_client_error + unit" where
  "expect_stopped Stopped = Inr ()"
| "expect_stopped (ErrorResponse code message) = Inl (Rejected code message)"
| "expect_stopped _ = Inl UnexpectedResponse"

fun expect_status :: "netd_response \<Rightarrow> netd_client_error + bool" where
  "expect_status (WorkerStatus ready) = Inr ready"
| "expect_status (ErrorResponse code message) = Inl (Rejected code message)"
| "expect_status _ = Inl UnexpectedResponse"

definition client_ping ::
    "(netd_request \<Rightarrow> netd_client_error + netd_response) \<Rightarrow> netd_client_error + socket_addr_v4" where
  "client_ping request = and_then (request Ping) expect_pong"

definition client_start_worker ::
    "(netd_request \<Rightarrow> netd_client_error + netd_response) \<Rightarrow> worker_id \<Rightarrow> node_id \<Rightarrow> socket_addr_v4
     \<Rightarrow> string \<Rightarrow> nat \<Rightarrow> netd_client_error + string" where
  "client_start_worker request worker_id node_id expected_remote openvpn_config connect_timeout_ms =
     and_then (request (StartWorker worker_id node_id expected_remote openvpn_config
       (min connect_timeout_ms 18446744073709551615))) expect_started"

definition client_stop_worker ::
    "(netd_request \<Rightarrow> netd_client_error + netd_response) \<Rightarrow> worker_id \<Rightarrow> netd_client_error + unit" where
  "client_stop_worker request worker_id = and_then (request (StopWorker worker_id)) expect_stopped"

definition client_worker_ready ::
    "(netd_request \<Rightarrow> netd_client_error + netd_response) \<Rightarrow> worker_id \<Rightarrow> netd_client_error + bool" where
  "client_worker_ready request worker_id =
     and_then (request (WorkerStatusRequest worker_id)) expect_status"

section \<open>Laws\<close>

definition frame_bytes :: "bytes \<Rightarrow> bytes" where
  "frame_bytes bs = u32_to_be_bytes (of_nat (length bs)) @ bs"

definition frame_ok :: "bytes \<Rightarrow> bool" where
  "frame_ok bs \<longleftrightarrow> bs \<noteq> [] \<and> length bs \<le> MAX_FRAME_BYTES"

definition decode_frame :: "bytes \<Rightarrow> (bytes \<times> bytes) option" where
  "decode_frame s =
     (case read_frame Some (stream_of s) of (Inr bs, c) \<Rightarrow> Some (bs, c_in c) | _ \<Rightarrow> None)"

lemma unat_of_nat_u32: "n < 4294967296 \<Longrightarrow> unat (of_nat n :: u32) = n"
  by (simp add: unsigned_of_nat take_bit_nat_eq_self)

lemma read_u32_run: "c_in c = u32_to_be_bytes w @ rest \<Longrightarrow> read_u32 c = (Inr w, c\<lparr>c_in := rest\<rparr>)"
  by (simp add: read_u32_def io_then_def io_err_def read_exact_def u32_to_be_bytes_def)

lemma read_frame_run:
  assumes "frame_ok bs" and "c_in c = frame_bytes bs @ rest"
  shows "read_frame from_slice c = (ok_or FrameInvalid (from_slice bs), c\<lparr>c_in := rest\<rparr>)"
proof -
  have n: "unat (of_nat (length bs) :: u32) = length bs"
    using assms(1) by (simp add: frame_ok_def MAX_FRAME_BYTES_def unat_of_nat_u32)
  moreover have "(of_nat (length bs) :: u32) \<noteq> 0"
    using n assms(1) by (force simp: frame_ok_def)
  moreover have "read_u32 c = (Inr (of_nat (length bs)), c\<lparr>c_in := bs @ rest\<rparr>)"
    using assms(2) by (simp add: read_u32_run frame_bytes_def)
  ultimately show ?thesis
    using assms(1) by (simp add: read_frame_def io_then_def io_err_def frame_ok_def)
qed

lemma write_frame_run:
  assumes "to_vec v = Some bs" and "frame_ok bs" and "\<not> c_broken c"
  shows "write_frame to_vec v c = (Inr (), c\<lparr>c_out := c_out c @ frame_bytes bs\<rparr>)"
  using assms by (auto simp: write_frame_def io_then_def io_err_def write_all_def frame_ok_def frame_bytes_def)

interpretation frame: stream_codec frame_ok frame_bytes decode_frame
proof
  fix x rest
  assume "frame_ok x"
  from read_frame_run [OF this, of "stream_of (frame_bytes x @ rest)" rest Some]
  show "decode_frame (frame_bytes x @ rest) = Some (x, rest)"
    by (simp add: decode_frame_def stream_of_def)
qed

section \<open>Properties\<close>

text \<open>
  Frames: a value written by \<open>write_frame\<close> is the length prefix and its JSON text, and
  \<open>read_frame\<close> on the other end returns the value and leaves the following bytes, provided
  \<open>serde_json\<close> reads back what it wrote; a value whose text is empty or over the limit is
  refused without writing a byte.
\<close>

lemma frame_roundtrip:
  assumes json: "to_vec v = Some bs" "from_slice bs = Some v" and "\<not> c_broken c"
  shows "if frame_ok bs
    then write_frame to_vec v c = (Inr (), c\<lparr>c_out := c_out c @ frame_bytes bs\<rparr>)
      \<and> read_frame from_slice (stream_of (frame_bytes bs @ rest)) = (Inr v, stream_of rest)
    else write_frame to_vec v c = (Inl FrameInvalid, c)"
proof (cases "frame_ok bs")
  case True
  then show ?thesis
    using write_frame_run [of to_vec v bs c] assms
      read_frame_run [OF True, of "stream_of (frame_bytes bs @ rest)" rest from_slice]
    by (simp add: stream_of_def)
next
  case False
  then show ?thesis using json by (auto simp: write_frame_def io_then_def frame_ok_def)
qed

end
