(* ===== verification/Netd_System.thy ===== *)
theory Netd_System
  imports Netd_Workers Netd_Protocol Openvpn_Laws
begin

text \<open>
  What the privileged helper does to the system, \<open>src/src/netd/system.rs\<close>: the commands that
  build and tear down a worker, the firewall scripts, the waiting loops, and the dispatch of
  requests.  The operating system is an argument that answers each call, given the calls made
  so far; a computation extends the log of calls and their answers, so that the order of effects
  and the clean-up on every error path can be stated.  The reservation, the allocation and the
  insertion into the worker table are the atomic sections of \<open>Netd_Workers\<close>; their outcomes
  are arguments here.
\<close>

section \<open>System calls\<close>

datatype child = OpenvpnChild | SocksChild

datatype syscall =
    ReadFile string
  | CreateDir string
  | Chown string nat nat
  | SetMode string nat
  | CreateNew string nat
  | WriteAll string bytes
  | CreateDirAll string
  | RemoveFile string
  | Bind string
  | RemoveDirAll string
  | Metadata string
  | Status string "string list"
  | Run string "string list"
  | Output string "string list"
  | RunInput string "string list" string
  | Spawn child string "string list"
  | Connect string
  | IsCancelled
  | AwaitOpenvpn string nat
  | AwaitRoutes string
  | AwaitSocket string
  | StartMonitor
  | AbortMonitor
  | Kill child

text \<open>
  One attempt to reach the management socket: whether shutdown was requested, whether the child
  had exited (\<open>None\<close>: asking failed), whether the connection succeeded, and whether shutdown
  ended the pause after it.
\<close>

record attempt =
  at_cancelled :: bool
  at_exited :: "bool option"
  at_connected :: bool
  at_woken :: bool

datatype line_event = LineCancelled | LineElapsed | LineFailed | Line string

text \<open>One poll of a readiness loop; \<open>po_ready\<close> is the outcome of the check that is polled.\<close>

record poll =
  po_exited :: bool
  po_ready :: bool
  po_cancelled :: bool
  po_woken :: bool

datatype answer =
    Done
  | AlreadyExists
  | Missing
  | Unsuccessful
  | Refused string
  | Content bytes
  | Management_seen "attempt list" attempt bool "line_event list"
  | Polls "poll list" poll

type_synonym log = "(syscall \<times> answer) list"
type_synonym os = "log \<Rightarrow> syscall \<Rightarrow> answer"
type_synonym 'a sys = "(log, worker_error, 'a) state_io"

definition call :: "os \<Rightarrow> syscall \<Rightarrow> log \<Rightarrow> answer \<times> log" where
  "call os c l = (os l c, l @ [(c, os l c)])"

fun refusal :: "answer \<Rightarrow> string" where
  "refusal (Refused message) = message"
| "refusal _ = []"

definition must :: "os \<Rightarrow> (string \<Rightarrow> 'e) \<Rightarrow> syscall \<Rightarrow> (log, 'e, unit) state_io" where
  "must os err c l =
     (case call os c l of (a, l') \<Rightarrow> (if a = Done then Inr () else Inl (err (refusal a)), l'))"

fun must_all :: "os \<Rightarrow> (string \<Rightarrow> 'e) \<Rightarrow> syscall list \<Rightarrow> (log, 'e, unit) state_io" where
  "must_all os err [] = io_return ()"
| "must_all os err (c # cs) = io_then (must os err c) (\<lambda>_. must_all os err cs)"

definition attempt_call :: "os \<Rightarrow> syscall \<Rightarrow> log \<Rightarrow> log" where
  "attempt_call os c l = snd (call os c l)"

definition on_error :: "'a sys \<Rightarrow> (log \<Rightarrow> log) \<Rightarrow> 'a sys" where
  "on_error m cleanup l =
     (case m l of (Inl e, l') \<Rightarrow> (Inl e, cleanup l') | (Inr x, l') \<Rightarrow> (Inr x, l'))"

section \<open>Command lines\<close>

definition path_join :: "string \<Rightarrow> string \<Rightarrow> string" where
  "path_join a b = a @ ''/'' @ b"

definition namespace_argument :: "string \<Rightarrow> string" where
  "namespace_argument ns = ''--net=/run/netns/'' @ ns"

definition in_namespace :: "string \<Rightarrow> string \<Rightarrow> string list \<Rightarrow> syscall" where
  "in_namespace ns program arguments = Run ''nsenter'' (namespace_argument ns # program # arguments)"

fun worker_id_string :: "worker_id \<Rightarrow> string" where
  "worker_id_string (WorkerId u) =
     (let s = uuid_simple u
      in take 8 s @ ''-'' @ take 4 (drop 8 s) @ ''-'' @ take 4 (drop 12 s) @ ''-'' @ take 4 (drop 16 s)
         @ ''-'' @ drop 20 s)"

section \<open>Firewall scripts\<close>

definition root_guard_script :: "resolved_upstream \<Rightarrow> u16 \<Rightarrow> u16 \<Rightarrow> string" where
  "root_guard_script upstream web_port socks_port =
     (let host = show_ipv4 (sock_ip (ru_address upstream));
          port = show_nat (unat (sock_port (ru_address upstream)))
      in unlines [
        '''',
        ''table inet vpngate2socks_root {'',
        ''    chain input {'',
        ''        type filter hook input priority filter; policy drop;'',
        ''        iifname \"lo\" accept'',
        ''        iifname \"v2h*\" drop'',
        ''        ct state established,related accept'',
        ''        tcp dport { '' @ show_nat (unat web_port) @ '', '' @ show_nat (unat socks_port) @ '' } accept'',
        ''    }'',
        ''    chain output {'',
        ''        type filter hook output priority filter; policy drop;'',
        ''        oifname \"lo\" accept'',
        ''        ct state established,related accept'',
        ''        ip daddr '' @ host @ '' tcp dport '' @ port @ '' accept'',
        ''    }'',
        ''    chain forward {'',
        ''        type filter hook forward priority filter; policy drop;'',
        ''        iifname \"v2h*\" ip daddr '' @ host @ '' tcp dport '' @ port @ '' accept'',
        ''        oifname \"v2h*\" ip saddr '' @ host @ '' tcp sport '' @ port @ '' ct state established,related accept'',
        ''    }'',
        ''    chain postrouting {'',
        ''        type nat hook postrouting priority srcnat; policy accept;'',
        ''        ip saddr 10.231.0.0/16 masquerade'',
        ''    }'',
        ''}''])"

definition worker_guard_script :: "string \<Rightarrow> resolved_upstream \<Rightarrow> string" where
  "worker_guard_script worker_veth upstream =
     (let host = show_ipv4 (sock_ip (ru_address upstream));
          port = show_nat (unat (sock_port (ru_address upstream)))
      in unlines [
        '''',
        ''table inet vpngate2socks_guard {'',
        ''    chain input {'',
        ''        type filter hook input priority filter; policy drop;'',
        ''        iifname \"lo\" accept'',
        ''        iifname \"'' @ worker_veth @ ''\" ip saddr '' @ host @ '' tcp sport '' @ port
          @ '' ct state established,related accept'',
        ''        iifname \"tun0\" ct state established,related accept'',
        ''    }'',
        ''    chain output {'',
        ''        type filter hook output priority filter; policy drop;'',
        ''        oifname \"lo\" accept'',
        ''        oifname \"'' @ worker_veth @ ''\" ip daddr '' @ host @ '' tcp dport '' @ port @ '' accept'',
        ''        oifname \"tun0\" accept'',
        ''    }'',
        ''}''])"

definition ensure_ipv4_forwarding :: "os \<Rightarrow> unit sys" where
  "ensure_ipv4_forwarding os l =
     (case call os (ReadFile ''/proc/sys/net/ipv4/ip_forward'') l of
        (a, l') \<Rightarrow>
          if (case a of
                Content bs \<Rightarrow> (case from_utf8 bs of Some s \<Rightarrow> trim s = ''1'' | None \<Rightarrow> False)
              | _ \<Rightarrow> False)
          then (Inr (), l')
          else must os Network (Run ''sysctl'' [''-q'', ''-w'', ''net.ipv4.ip_forward=1'']) l')"

text \<open>
  \<open>command_succeeds\<close> reports a failure to run the program as an error (\<open>Refused\<close>) and an exit
  status other than success as false (\<open>Unsuccessful\<close>).
\<close>

definition command_succeeds :: "os \<Rightarrow> string \<Rightarrow> string list \<Rightarrow> bool sys" where
  "command_succeeds os program arguments l =
     (case call os (Status program arguments) l of
        (Done, l') \<Rightarrow> (Inr True, l')
      | (Refused message, l') \<Rightarrow> (Inl (Network message), l')
      | (_, l') \<Rightarrow> (Inr False, l'))"

definition prepare_root_network :: "os \<Rightarrow> resolved_upstream \<Rightarrow> u16 \<Rightarrow> u16 \<Rightarrow> unit sys" where
  "prepare_root_network os upstream web_port socks_port =
     io_then (ensure_ipv4_forwarding os) (\<lambda>_.
     io_then (command_succeeds os ''nft'' [''list'', ''table'', ''inet'', ''vpngate2socks_root'']) (\<lambda>present.
     io_then (if present then must os Network (Run ''nft'' [''delete'', ''table'', ''inet'', ''vpngate2socks_root''])
              else io_return ()) (\<lambda>_.
     must os Network (RunInput ''nft'' [''-f'', ''-''] (root_guard_script upstream web_port socks_port)))))"

section \<open>The worker's network\<close>

record start_env =
  se_runtime_dir :: string
  se_upstream :: resolved_upstream
  se_uid :: nat
  se_gid :: nat
  se_openvpn_uid :: nat
  se_exe :: "string option"

definition link_commands :: "network_allocation \<Rightarrow> syscall list" where
  "link_commands a =
     [Run ''ip'' [''netns'', ''add'', na_namespace a],
      Run ''ip'' [''link'', ''add'', na_host_veth a, ''type'', ''veth'', ''peer'', ''name'', na_worker_veth a],
      Run ''ip'' [''addr'', ''add'', show_ipv4 (na_host_ip a) @ ''/30'', ''dev'', na_host_veth a],
      Run ''ip'' [''link'', ''set'', na_host_veth a, ''up''],
      Run ''ip'' [''link'', ''set'', na_worker_veth a, ''netns'', na_namespace a]]"

definition namespace_setup :: "string \<Rightarrow> string \<Rightarrow> syscall" where
  "namespace_setup ns exe =
     Run ''nsenter'' [namespace_argument ns, ''unshare'', ''--mount'', ''--propagation'', ''private'', exe,
       ''namespace-setup'']"

definition worker_guard :: "network_allocation \<Rightarrow> resolved_upstream \<Rightarrow> syscall" where
  "worker_guard a upstream =
     RunInput ''nsenter'' [namespace_argument (na_namespace a), ''nft'', ''-f'', ''-'']
       (worker_guard_script (na_worker_veth a) upstream)"

definition namespace_commands :: "network_allocation \<Rightarrow> resolved_upstream \<Rightarrow> syscall list" where
  "namespace_commands a upstream =
     [in_namespace (na_namespace a) ''ip'' [''link'', ''set'', ''lo'', ''up''],
      in_namespace (na_namespace a) ''ip''
        [''addr'', ''add'', show_ipv4 (na_worker_ip a) @ ''/30'', ''dev'', na_worker_veth a],
      in_namespace (na_namespace a) ''ip'' [''link'', ''set'', na_worker_veth a, ''up''],
      in_namespace (na_namespace a) ''ip'' [''route'', ''add'', ''default'', ''via'', show_ipv4 (na_host_ip a)],
      worker_guard a upstream]"

definition run_namespace_setup :: "os \<Rightarrow> start_env \<Rightarrow> string \<Rightarrow> unit sys" where
  "run_namespace_setup os env ns =
     (case se_exe env of
        None \<Rightarrow> io_fail (Network [])
      | Some exe \<Rightarrow> must os Network (namespace_setup ns exe))"

definition prepare_worker_network :: "os \<Rightarrow> start_env \<Rightarrow> network_allocation \<Rightarrow> unit sys" where
  "prepare_worker_network os env a =
     io_then (must_all os Network (link_commands a)) (\<lambda>_.
     io_then (run_namespace_setup os env (na_namespace a)) (\<lambda>_.
     must_all os Network (namespace_commands a (se_upstream env))))"

text \<open>The three settings written by the \<open>namespace-setup\<close> subcommand inside the namespace.\<close>

definition configure_namespace :: "os \<Rightarrow> unit sys" where
  "configure_namespace os =
     must_all os Network
       (Run ''mount'' [''-t'', ''proc'', ''proc'', ''/proc'']
        # map (\<lambda>path. WriteAll path (as_bytes (''1'' @ [nl])))
            [''/proc/sys/net/ipv6/conf/all/disable_ipv6'',
             ''/proc/sys/net/ipv6/conf/default/disable_ipv6'',
             ''/proc/sys/net/ipv6/conf/lo/disable_ipv6''])"

section \<open>The worker's files\<close>

definition build_runtime_profile :: "string \<Rightarrow> resolved_upstream \<Rightarrow> string option \<Rightarrow> string \<Rightarrow> string" where
  "build_runtime_profile sanitized upstream auth_path management_path =
     sanitized @ ''socks-proxy '' @ show_ipv4 (sock_ip (ru_address upstream)) @ '' ''
     @ show_nat (unat (sock_port (ru_address upstream)))
     @ (case auth_path of None \<Rightarrow> [] | Some path \<Rightarrow> '' '' @ path) @ [nl]
     @ ''management '' @ management_path @ '' unix'' @ [nl]
     @ ''management-hold'' @ [nl] @ ''management-query-passwords'' @ [nl]"

definition octal :: "nat \<Rightarrow> nat \<Rightarrow> nat \<Rightarrow> nat" where
  "octal a b c = 64 * a + 8 * b + c"

definition write_private :: "os \<Rightarrow> string \<Rightarrow> bytes \<Rightarrow> nat \<Rightarrow> nat \<Rightarrow> unit sys" where
  "write_private os path contents owner_uid owner_gid =
     must_all os (\<lambda>_. WorkerFile) [CreateNew path (octal 4 0 0), WriteAll path contents, Chown path owner_uid owner_gid]"

definition directory_commands :: "start_env \<Rightarrow> string \<Rightarrow> syscall list" where
  "directory_commands env dir =
     [Chown dir 0 (se_gid env), SetMode dir (octal 7 1 0),
      CreateDir (path_join dir ''openvpn''),
      Chown (path_join dir ''openvpn'') (se_openvpn_uid env) (se_gid env),
      SetMode (path_join dir ''openvpn'') (octal 7 0 0),
      CreateDir (path_join dir ''ipc''),
      Chown (path_join dir ''ipc'') (se_uid env) (se_gid env),
      SetMode (path_join dir ''ipc'') (octal 7 0 0)]"

definition socket_path :: "string \<Rightarrow> string" where
  "socket_path dir = path_join (path_join dir ''ipc'') ''socks.sock''"

definition management_path :: "string \<Rightarrow> string" where
  "management_path dir = path_join (path_join dir ''openvpn'') ''management.sock''"

definition profile_path :: "string \<Rightarrow> string" where
  "profile_path dir = path_join (path_join dir ''openvpn'') ''openvpn.conf''"

definition auth_path :: "start_env \<Rightarrow> string \<Rightarrow> string option" where
  "auth_path env dir =
     map_option (\<lambda>_. path_join (path_join dir ''openvpn'') ''upstream.auth'') (ru_username (se_upstream env))"

definition write_credentials :: "os \<Rightarrow> start_env \<Rightarrow> string \<Rightarrow> unit sys" where
  "write_credentials os env dir =
     (case (auth_path env dir, ru_username (se_upstream env), ru_password (se_upstream env)) of
        (None, _) \<Rightarrow> io_return ()
      | (Some path, Some username, Some password) \<Rightarrow>
          write_private os path (as_bytes (username @ [nl] @ expose password @ [nl]))
            (se_openvpn_uid env) (se_gid env)
      | _ \<Rightarrow> io_fail InvalidProfile)"

definition file_setup :: "os \<Rightarrow> start_env \<Rightarrow> string \<Rightarrow> sanitized_openvpn \<Rightarrow> unit sys" where
  "file_setup os env dir profile =
     io_then (must_all os (\<lambda>_. WorkerFile) (directory_commands env dir)) (\<lambda>_.
     io_then (write_credentials os env dir) (\<lambda>_.
     write_private os (profile_path dir)
       (as_bytes (build_runtime_profile (so_rendered profile) (se_upstream env) (auth_path env dir)
          (management_path dir)))
       (se_openvpn_uid env) (se_gid env)))"

definition create_worker_dir :: "os \<Rightarrow> string \<Rightarrow> unit sys" where
  "create_worker_dir os dir l =
     (case call os (CreateDir dir) l of
        (Done, l') \<Rightarrow> (Inr (), l')
      | (AlreadyExists, l') \<Rightarrow> (Inl Duplicate, l')
      | (_, l') \<Rightarrow> (Inl WorkerFile, l'))"

section \<open>Waiting\<close>

definition check_attempt :: "attempt \<Rightarrow> worker_error + unit \<Rightarrow> worker_error + unit" where
  "check_attempt a otherwise =
     (if at_cancelled a then Inl ShuttingDown
      else case at_exited a of
             None \<Rightarrow> Inl Management
           | Some True \<Rightarrow> Inl OpenVpnExited
           | Some False \<Rightarrow> if at_connected a then Inr () else otherwise)"

text \<open>The attempts made before the deadline, and the one after it, whose failure ends the loop.\<close>

fun wait_connect :: "attempt list \<Rightarrow> attempt \<Rightarrow> worker_error + unit" where
  "wait_connect [] late = check_attempt late (Inl ConnectTimedOut)"
| "wait_connect (a # attempts) late =
     check_attempt a (if at_woken a then Inl ShuttingDown else wait_connect attempts late)"

fun wait_connected :: "line_event list \<Rightarrow> worker_error + unit" where
  "wait_connected [] = Inl ConnectTimedOut"
| "wait_connected (LineCancelled # events) = Inl ShuttingDown"
| "wait_connected (LineElapsed # events) = Inl ConnectTimedOut"
| "wait_connected (LineFailed # events) = Inl Management"
| "wait_connected (Line line # events) =
     (if line = [] then Inl OpenVpnExited
      else if contains '',CONNECTED,SUCCESS,'' line then Inr ()
      else if starts_with ''>FATAL:'' line \<or> contains '',EXITING,'' line then Inl OpenVpnExited
      else wait_connected events)"

definition wait_for_openvpn :: "attempt list \<Rightarrow> attempt \<Rightarrow> bool \<Rightarrow> line_event list \<Rightarrow> worker_error + unit" where
  "wait_for_openvpn attempts late written events =
     and_then (wait_connect attempts late) (\<lambda>_.
     and_then (ensure written Management) (\<lambda>_. wait_connected events))"

text \<open>\<open>monitor_management\<close>: the value of the ready flag after the lines read (\<open>None\<close>: a failed read).\<close>

fun monitor_management :: "string option list \<Rightarrow> bool \<Rightarrow> bool" where
  "monitor_management [] ready = ready"
| "monitor_management (None # events) ready = False"
| "monitor_management (Some line # events) ready =
     (if line = [] then False
      else if starts_with ''>STATE:'' line
      then monitor_management events (contains '',CONNECTED,SUCCESS,'' line)
      else if starts_with ''>FATAL:'' line then False
      else monitor_management events ready)"

text \<open>\<open>wait_for_socket\<close> and \<open>wait_for_tunnel_routes\<close> share the shape of their loop.\<close>

fun wait_ready :: "poll list \<Rightarrow> poll \<Rightarrow> bool" where
  "wait_ready [] late = (\<not> po_exited late \<and> po_ready late)"
| "wait_ready (p # polls) late =
     (\<not> po_exited p \<and> (po_ready p \<or> \<not> po_cancelled p \<and> \<not> po_woken p \<and> wait_ready polls late))"

fun scan_output_route :: "bool \<times> bool \<times> bool \<Rightarrow> string list \<Rightarrow> bool \<times> bool \<times> bool" where
  "scan_output_route (whole, lower_half, upper_half) cols =
     (if \<not> list_ex (\<lambda>pair. pair = (''dev'', ''tun0'')) (zip cols (drop 1 cols))
      then (whole, lower_half, upper_half)
      else case cols of
             [] \<Rightarrow> (whole, lower_half, upper_half)
           | first # _ \<Rightarrow>
               if first = ''default'' then (True, lower_half, upper_half)
               else if first = ''0.0.0.0/1'' then (whole, True, upper_half)
               else if first = ''128.0.0.0/1'' then (whole, lower_half, True)
               else (whole, lower_half, upper_half))"

definition route_output_covers_public_ipv4 :: "string \<Rightarrow> bool" where
  "route_output_covers_public_ipv4 routes =
     (case foldl scan_output_route (False, False, False) (map split_ascii_whitespace (lines routes)) of
        (whole, lower_half, upper_half) \<Rightarrow> whole \<or> lower_half \<and> upper_half)"

definition namespace_routes_cover_public_ipv4 :: "os \<Rightarrow> string \<Rightarrow> bool sys" where
  "namespace_routes_cover_public_ipv4 os ns l =
     (case call os (Output ''nsenter''
         [namespace_argument ns, ''ip'', ''-4'', ''route'', ''show'', ''table'', ''main'']) l of
        (Content bs, l') \<Rightarrow>
          (case from_utf8 bs of
             None \<Rightarrow> (Inl (Network []), l')
           | Some routes \<Rightarrow> (Inr (route_output_covers_public_ipv4 routes), l'))
      | (Refused message, l') \<Rightarrow> (Inl (Network message), l')
      | (_, l') \<Rightarrow> (Inr False, l'))"

section \<open>Children and clean-up\<close>

definition openvpn_command :: "start_env \<Rightarrow> string \<Rightarrow> string \<Rightarrow> syscall" where
  "openvpn_command env ns profile =
     Spawn OpenvpnChild ''nsenter''
       [namespace_argument ns, ''setpriv'', ''--reuid='' @ show_nat (se_openvpn_uid env),
        ''--regid='' @ show_nat (se_gid env), ''--clear-groups'', ''--bounding-set=-all,+net_admin'',
        ''--inh-caps=-all,+net_admin'', ''--ambient-caps=+net_admin'', ''--no-new-privs'', ''openvpn'',
        ''--config'', profile]"

definition socks_command :: "start_env \<Rightarrow> string \<Rightarrow> string \<Rightarrow> string \<Rightarrow> syscall" where
  "socks_command env exe ns socket =
     Spawn SocksChild ''nsenter''
       [namespace_argument ns, ''setpriv'', ''--reuid='' @ show_nat (se_uid env),
        ''--regid='' @ show_nat (se_gid env), ''--clear-groups'', ''--inh-caps=-all'', ''--ambient-caps=-all'',
        ''--bounding-set=-all'', ''--no-new-privs'', exe, ''worker'', ''--socket'', socket, ''--require-tun'']"

definition spawn_openvpn :: "os \<Rightarrow> start_env \<Rightarrow> string \<Rightarrow> string \<Rightarrow> unit sys" where
  "spawn_openvpn os env ns profile = must os (\<lambda>_. OpenVpnSpawn) (openvpn_command env ns profile)"

definition spawn_worker_socks :: "os \<Rightarrow> start_env \<Rightarrow> string \<Rightarrow> string \<Rightarrow> unit sys" where
  "spawn_worker_socks os env ns socket =
     (case se_exe env of
        None \<Rightarrow> io_fail WorkerSpawn
      | Some exe \<Rightarrow> must os (\<lambda>_. WorkerSpawn) (socks_command env exe ns socket))"

definition cleanup_directory :: "os \<Rightarrow> string \<Rightarrow> log \<Rightarrow> log" where
  "cleanup_directory os dir = attempt_call os (RemoveDirAll dir)"

definition cleanup_worker_network :: "os \<Rightarrow> network_allocation \<Rightarrow> log \<Rightarrow> log" where
  "cleanup_worker_network os a l =
     (let (shown, l1) = call os (Status ''ip'' [''link'', ''show'', ''dev'', na_host_veth a]) l;
          l2 = (if shown = Done then attempt_call os (Run ''ip'' [''link'', ''delete'', na_host_veth a]) l1 else l1);
          (present, l3) = call os (Metadata (path_join ''/run/netns'' (na_namespace a))) l2
      in if present = Done then attempt_call os (Run ''ip'' [''netns'', ''delete'', na_namespace a]) l3 else l3)"

definition stop_child :: "os \<Rightarrow> child \<Rightarrow> log \<Rightarrow> log" where
  "stop_child os c = attempt_call os (Kill c)"

definition stop_process :: "os \<Rightarrow> network_allocation \<Rightarrow> string \<Rightarrow> log \<Rightarrow> log" where
  "stop_process os a dir l =
     cleanup_directory os dir (cleanup_worker_network os a (stop_child os OpenvpnChild
       (stop_child os SocksChild (attempt_call os AbortMonitor l))))"

section \<open>Starting a worker\<close>

definition ensure_running :: "os \<Rightarrow> unit sys" where
  "ensure_running os l =
     (case call os IsCancelled l of (a, l') \<Rightarrow> (if a = Done then Inl ShuttingDown else Inr (), l'))"

definition await_openvpn :: "os \<Rightarrow> string \<Rightarrow> nat \<Rightarrow> unit sys" where
  "await_openvpn os path timeout_ms l =
     (case call os (AwaitOpenvpn path timeout_ms) l of
        (Management_seen attempts late written events, l') \<Rightarrow>
          (wait_for_openvpn attempts late written events, l')
      | (_, l') \<Rightarrow> (Inl ConnectTimedOut, l'))"

definition await_ready :: "os \<Rightarrow> syscall \<Rightarrow> unit sys" where
  "await_ready os c l =
     (case call os c l of
        (Polls polls late, l') \<Rightarrow> (if wait_ready polls late then Inr () else Inl WorkerNotReady, l')
      | (_, l') \<Rightarrow> (Inl WorkerNotReady, l'))"

definition check_profile ::
    "(bytes \<Rightarrow> bytes) \<Rightarrow> socket_addr_v4 \<Rightarrow> string \<Rightarrow> worker_error + sanitized_openvpn" where
  "check_profile blake3 expected_remote profile_text =
     and_then (ensure (is_public_ipv4 (sock_ip expected_remote)) WorkerRemoteMismatch) (\<lambda>_.
     and_then (map_err (\<lambda>_. InvalidProfile)
       (sanitize_openvpn blake3 (as_bytes profile_text) (sock_ip expected_remote))) (\<lambda>profile.
     and_then (ensure (so_remote profile = expected_remote) WorkerRemoteMismatch) (\<lambda>_.
     Inr profile)))"

definition worker_dir :: "start_env \<Rightarrow> worker_id \<Rightarrow> string" where
  "worker_dir env i = path_join (se_runtime_dir env) (worker_id_string i)"

definition bring_up_openvpn :: "os \<Rightarrow> start_env \<Rightarrow> network_allocation \<Rightarrow> string \<Rightarrow> nat \<Rightarrow> unit sys" where
  "bring_up_openvpn os env a dir timeout_ms =
     (let files = cleanup_directory os dir;
          net = (\<lambda>l. files (cleanup_worker_network os a l));
          vpn = (\<lambda>l. net (stop_child os OpenvpnChild l))
      in
        io_then (on_error (ensure_running os) files) (\<lambda>_.
        io_then (on_error (prepare_worker_network os env a) net) (\<lambda>_.
        io_then (on_error (ensure_running os) net) (\<lambda>_.
        io_then (on_error (spawn_openvpn os env (na_namespace a) (profile_path dir)) net) (\<lambda>_.
        io_then (on_error (await_openvpn os (management_path dir) timeout_ms) vpn) (\<lambda>_.
        on_error (await_ready os (AwaitRoutes (na_namespace a))) vpn))))))"

definition bring_up_socks :: "os \<Rightarrow> start_env \<Rightarrow> network_allocation \<Rightarrow> string \<Rightarrow> unit sys" where
  "bring_up_socks os env a dir =
     (let vpn = (\<lambda>l. cleanup_directory os dir (cleanup_worker_network os a (stop_child os OpenvpnChild l)));
          monitor = (\<lambda>l. vpn (attempt_call os AbortMonitor l));
          all = stop_process os a dir
      in
        io_then (\<lambda>l. (Inr (), attempt_call os StartMonitor l)) (\<lambda>_.
        io_then (on_error (spawn_worker_socks os env (na_namespace a) (socket_path dir)) monitor) (\<lambda>_.
        io_then (on_error (await_ready os (AwaitSocket (socket_path dir))) all) (\<lambda>_.
        on_error (ensure_running os) all))))"

definition start ::
    "os \<Rightarrow> start_env \<Rightarrow> (bytes \<Rightarrow> bytes) \<Rightarrow> worker_error + unit \<Rightarrow> worker_error + network_allocation
     \<Rightarrow> worker_error + unit \<Rightarrow> worker_id \<Rightarrow> socket_addr_v4 \<Rightarrow> string \<Rightarrow> nat \<Rightarrow> string sys" where
  "start os env blake3 reserved allocated inserted i expected_remote profile_text timeout_ms =
     (let dir = worker_dir env i in
      io_then (ensure_running os) (\<lambda>_.
      io_then (io_lift reserved) (\<lambda>_.
      io_then (io_lift (check_profile blake3 expected_remote profile_text)) (\<lambda>profile.
      io_then (io_lift allocated) (\<lambda>a.
      io_then (create_worker_dir os dir) (\<lambda>_.
      io_then (on_error (file_setup os env dir profile) (cleanup_directory os dir)) (\<lambda>_.
      io_then (bring_up_openvpn os env a dir timeout_ms) (\<lambda>_.
      io_then (bring_up_socks os env a dir) (\<lambda>_.
      io_then (on_error (io_lift inserted) (stop_process os a dir)) (\<lambda>_.
      io_return (socket_path dir)))))))))))"

section \<open>Requests\<close>

definition is_ready :: "os \<Rightarrow> (string \<times> string \<times> bool) option \<Rightarrow> log \<Rightarrow> bool \<times> log" where
  "is_ready os worker l =
     (case worker of
        None \<Rightarrow> (False, l)
      | Some (ns, socket, ready) \<Rightarrow>
          if \<not> ready then (False, l)
          else
            case call os (Status ''nsenter'' (namespace_argument ns # ''ip''
                # [''link'', ''show'', ''up'', ''dev'', ''tun0''])) l of
              (shown, l1) \<Rightarrow>
                if shown \<noteq> Done then (False, l1)
                else
                  case namespace_routes_cover_public_ipv4 os ns l1 of
                    (Inr True, l2) \<Rightarrow> (case call os (Connect socket) l2 of (c, l3) \<Rightarrow> (c = Done, l3))
                  | (_, l2) \<Rightarrow> (False, l2))"

definition clamp_timeout :: "nat \<Rightarrow> nat" where
  "clamp_timeout ms = max 1000 (min ms 300000)"

record 's manager_ops =
  mo_upstream :: socket_addr_v4
  mo_start :: "worker_id \<Rightarrow> node_id \<Rightarrow> socket_addr_v4 \<Rightarrow> string \<Rightarrow> nat \<Rightarrow> 's \<Rightarrow> (worker_error + string) \<times> 's"
  mo_stop :: "worker_id \<Rightarrow> 's \<Rightarrow> (worker_error + unit) \<times> 's"
  mo_ready :: "worker_id \<Rightarrow> 's \<Rightarrow> bool \<times> 's"
  mo_message :: "worker_error \<Rightarrow> string"

definition error_response :: "'s manager_ops \<Rightarrow> worker_error \<Rightarrow> netd_response" where
  "error_response m e = ErrorResponse (error_code e) (mo_message m e)"

fun handle_request :: "'s manager_ops \<Rightarrow> netd_request \<Rightarrow> 's \<Rightarrow> netd_response \<times> 's" where
  "handle_request m Ping s = (Pong (mo_upstream m), s)"
| "handle_request m (StartWorker i node remote config timeout_ms) s =
     (case mo_start m i node remote config (clamp_timeout timeout_ms) s of
        (Inr socks_socket, s') \<Rightarrow> (WorkerStarted socks_socket, s')
      | (Inl e, s') \<Rightarrow> (error_response m e, s'))"
| "handle_request m (StopWorker i) s =
     (case mo_stop m i s of (Inr _, s') \<Rightarrow> (Stopped, s') | (Inl e, s') \<Rightarrow> (error_response m e, s'))"
| "handle_request m (WorkerStatusRequest i) s =
     (case mo_ready m i s of (ready, s') \<Rightarrow> (WorkerStatus ready, s'))"

definition serve_client ::
    "(bytes \<Rightarrow> netd_request option) \<Rightarrow> (netd_response \<Rightarrow> bytes option) \<Rightarrow> 's manager_ops
     \<Rightarrow> conn \<Rightarrow> 's \<Rightarrow> (frame_error + unit) \<times> conn \<times> 's" where
  "serve_client from_slice to_vec m c s =
     (case read_frame from_slice c of
        (Inl e, c') \<Rightarrow> (Inl e, c', s)
      | (Inr request, c') \<Rightarrow>
          (case handle_request m request s of
             (response, s') \<Rightarrow>
               (case write_frame to_vec response c' of (r, c'') \<Rightarrow> (r, c'', s'))))"

section \<open>Set-up and shutdown of the helper\<close>

datatype netd_server_error =
    UnsupportedPlatform | ResolveTimeout | ResolveFailed | RuntimeFailed | GuardFailed string | BindFailed
  | AcceptFailed

definition remove_stale_socket :: "os \<Rightarrow> string \<Rightarrow> (log, netd_server_error, unit) state_io" where
  "remove_stale_socket os socket l =
     (case call os (RemoveFile socket) l of
        (a, l') \<Rightarrow> (if a = Done \<or> a = Missing then Inr () else Inl RuntimeFailed, l'))"

text \<open>
  \<open>run_netd\<close> up to its accept loop; the outcome of resolving the upstream within five seconds is
  an argument.
\<close>

definition netd_setup ::
    "os \<Rightarrow> bool \<Rightarrow> (worker_error \<Rightarrow> string) \<Rightarrow> netd_server_error + resolved_upstream \<Rightarrow> string \<Rightarrow> string \<Rightarrow> nat
     \<Rightarrow> u16 \<Rightarrow> u16 \<Rightarrow> (log, netd_server_error, resolved_upstream) state_io" where
  "netd_setup os linux message resolved runtime_dir netd_socket gid web_port socks_port =
     (if \<not> linux then io_fail UnsupportedPlatform
      else
        let workers = path_join runtime_dir ''workers'' in
        io_then (io_lift resolved) (\<lambda>upstream.
        io_then (must_all os (\<lambda>_. RuntimeFailed)
          [CreateDirAll runtime_dir, Chown runtime_dir 0 gid, SetMode runtime_dir (octal 7 5 0),
           CreateDirAll workers, Chown workers 0 gid, SetMode workers (octal 7 1 0)]) (\<lambda>_.
        io_then (io_err (\<lambda>e. GuardFailed (message e)) (prepare_root_network os upstream web_port socks_port)) (\<lambda>_.
        io_then (remove_stale_socket os netd_socket) (\<lambda>_.
        io_then (must os (\<lambda>_. BindFailed) (Bind netd_socket)) (\<lambda>_.
        io_then (must_all os (\<lambda>_. RuntimeFailed) [Chown netd_socket 0 gid, SetMode netd_socket (octal 6 6 0)]) (\<lambda>_.
        io_return upstream)))))))"

text \<open>The end of \<open>run_netd\<close>: the workers that are still running are stopped, then the guard is removed.\<close>

definition netd_shutdown :: "os \<Rightarrow> (network_allocation \<times> string) list \<Rightarrow> string \<Rightarrow> log \<Rightarrow> log" where
  "netd_shutdown os workers netd_socket l =
     (let l1 = foldl (\<lambda>l (a, dir). stop_process os a dir l) l workers;
          (listed, l2) = call os (Status ''nft'' [''list'', ''table'', ''inet'', ''vpngate2socks_root'']) l1;
          l3 = (if listed = Done
                then attempt_call os (Run ''nft'' [''delete'', ''table'', ''inet'', ''vpngate2socks_root'']) l2 else l2)
      in attempt_call os (RemoveFile netd_socket) l3)"

end
