(* ===== verification/Event_Logic.thy ===== *)
theory Event_Logic
  imports Netd_System
begin

text \<open>
  Reasoning about logs of system calls.  A monitor watches the events of a computation: it has a
  state, a step for every event, and an order in which smaller states promise more.  The locale
  \<open>event_logic\<close> asks that steps respect the order; then an assertion about the monitor is
  carried through the sequencing combinators by one rule each.  \<open>keeps\<close> bounds the monitor's
  state after a fallible computation, on its error and on its success exit, \<open>clears\<close> the state
  after a clean-up.  The monitors of the development count held resources and check that events
  come after the events they need.
\<close>

definition keeps ::
    "('p \<Rightarrow> syscall \<times> answer \<Rightarrow> 'p) \<Rightarrow> ('p \<Rightarrow> 'p \<Rightarrow> bool) \<Rightarrow> 'a sys \<Rightarrow> 'p \<Rightarrow> 'p \<Rightarrow> 'p \<Rightarrow> bool" where
  "keeps step le m A E B \<longleftrightarrow>
     (\<forall>l. \<exists>r new. m l = (r, l @ new) \<and> le (foldl step A new) (case r of Inl _ \<Rightarrow> E | Inr _ \<Rightarrow> B))"

definition clears ::
    "('p \<Rightarrow> syscall \<times> answer \<Rightarrow> 'p) \<Rightarrow> ('p \<Rightarrow> 'p \<Rightarrow> bool) \<Rightarrow> (log \<Rightarrow> log) \<Rightarrow> 'p \<Rightarrow> 'p \<Rightarrow> bool" where
  "clears step le f A B \<longleftrightarrow> (\<forall>l. \<exists>new. f l = l @ new \<and> le (foldl step A new) B)"

text \<open>A computation that makes one call and decides by its answer.\<close>

definition one_call :: "'a sys \<Rightarrow> os \<Rightarrow> syscall \<Rightarrow> bool" where
  "one_call m os c \<longleftrightarrow> (\<forall>l. snd (m l) = l @ [(c, os l c)])"

lemma one_call_ops:
  "one_call (must os err c) os c" "one_call (create_worker_dir os dir) os (CreateDir dir)"
  "one_call (ensure_running os) os IsCancelled"
  "one_call (await_openvpn os path t) os (AwaitOpenvpn path t)" "one_call (await_ready os c) os c"
  by (simp_all add: one_call_def must_def create_worker_dir_def ensure_running_def await_openvpn_def
      await_ready_def call_def split: answer.split)

locale event_logic =
  fixes step :: "'p \<Rightarrow> syscall \<times> answer \<Rightarrow> 'p" and le :: "'p \<Rightarrow> 'p \<Rightarrow> bool"
  assumes le_refl: "le p p"
    and le_trans: "le p q \<Longrightarrow> le q r \<Longrightarrow> le p r"
    and step_mono: "le p q \<Longrightarrow> le (step p ev) (step q ev)"
begin

lemma run_mono: "le p q \<Longrightarrow> le (foldl step p l) (foldl step q l)"
  by (induction l arbitrary: p q) (auto intro: step_mono)

lemma keepsI:
  "(\<And>l. \<exists>r new. m l = (r, l @ new) \<and> le (foldl step A new) (case r of Inl _ \<Rightarrow> E | Inr _ \<Rightarrow> B))
   \<Longrightarrow> keeps step le m A E B"
  by (simp add: keeps_def)

lemma keepsE:
  assumes "keeps step le m A E B"
  obtains r new where "m l = (r, l @ new)" "le (foldl step A new) (case r of Inl _ \<Rightarrow> E | Inr _ \<Rightarrow> B)"
  using assms unfolding keeps_def by blast

lemma keeps_then:
  assumes "keeps step le m A E B" and "\<And>x. keeps step le (f x) B E C"
  shows "keeps step le (io_then m f) A E C"
proof (rule keepsI)
  fix l
  obtain r new where m: "m l = (r, l @ new)" "le (foldl step A new) (case r of Inl _ \<Rightarrow> E | Inr _ \<Rightarrow> B)"
    using assms(1) by (rule keepsE)
  show "\<exists>r new. io_then m f l = (r, l @ new) \<and> le (foldl step A new) (case r of Inl _ \<Rightarrow> E | Inr _ \<Rightarrow> C)"
  proof (cases r)
    case (Inl e)
    with m show ?thesis by (auto simp: io_then_def)
  next
    case (Inr x)
    obtain r' new' where f: "f x (l @ new) = (r', (l @ new) @ new')"
      "le (foldl step B new') (case r' of Inl _ \<Rightarrow> E | Inr _ \<Rightarrow> C)"
      using assms(2) by (rule keepsE)
    have "le (foldl step (foldl step A new) new') (foldl step B new')" using m Inr by (simp add: run_mono)
    with m Inr f show ?thesis
      by (auto simp: io_then_def intro!: exI [of _ "new @ new'"] intro: le_trans)
  qed
qed

lemma keeps_on_error:
  assumes "keeps step le m A F B" and "clears step le cleanup F E"
  shows "keeps step le (on_error m cleanup) A E B"
proof (rule keepsI)
  fix l
  obtain r new where m: "m l = (r, l @ new)" "le (foldl step A new) (case r of Inl _ \<Rightarrow> F | Inr _ \<Rightarrow> B)"
    using assms(1) by (rule keepsE)
  obtain new' where c: "cleanup (l @ new) = (l @ new) @ new'" "le (foldl step F new') E"
    using assms(2) unfolding clears_def by blast
  show "\<exists>r new. on_error m cleanup l = (r, l @ new) \<and> le (foldl step A new) (case r of Inl _ \<Rightarrow> E | Inr _ \<Rightarrow> B)"
  proof (cases r)
    case (Inl e)
    have "le (foldl step (foldl step A new) new') (foldl step F new')" using m Inl by (simp add: run_mono)
    with m Inl c show ?thesis
      by (auto simp: on_error_def intro!: exI [of _ "new @ new'"] intro: le_trans)
  qed (use m in \<open>auto simp: on_error_def\<close>)
qed

lemma keeps_more: "keeps step le m A' E B \<Longrightarrow> le A A' \<Longrightarrow> keeps step le m A E B"
  unfolding keeps_def using run_mono le_trans by meson

lemma keeps_weaken:
  assumes "keeps step le m A E B" and "le E E'" "le B B'"
  shows "keeps step le m A E' B'"
proof (rule keepsI)
  fix l
  obtain r new where m: "m l = (r, l @ new)" "le (foldl step A new) (case r of Inl _ \<Rightarrow> E | Inr _ \<Rightarrow> B)"
    using assms(1) by (rule keepsE)
  then show "\<exists>r new. m l = (r, l @ new) \<and> le (foldl step A new) (case r of Inl _ \<Rightarrow> E' | Inr _ \<Rightarrow> B')"
    using assms(2,3) by (cases r) (auto intro: le_trans)
qed

lemma keeps_return: "le A B \<Longrightarrow> keeps step le (io_return x) A E B"
  by (simp add: keeps_def)

lemma keeps_fail: "le A E \<Longrightarrow> keeps step le (io_fail e) A E B"
  by (simp add: keeps_def)

lemma keeps_lift: "le A E \<Longrightarrow> le A B \<Longrightarrow> keeps step le (io_lift r) A E B"
  by (simp add: keeps_def split: sum.split)

lemma keeps_lift_then:
  "le A E \<Longrightarrow> (\<And>x. r = Inr x \<Longrightarrow> keeps step le (f x) A E B) \<Longrightarrow> keeps step le (io_then (io_lift r) f) A E B"
  by (cases r) (auto simp: keeps_def io_then_def)

lemma keeps_one_call:
  assumes "one_call m os c"
    and "\<And>l. le (step A (c, os l c)) (case fst (m l) of Inl _ \<Rightarrow> E | Inr _ \<Rightarrow> B)"
  shows "keeps step le m A E B"
proof (rule keepsI)
  fix l
  show "\<exists>r new. m l = (r, l @ new) \<and> le (foldl step A new) (case r of Inl _ \<Rightarrow> E | Inr _ \<Rightarrow> B)"
    using assms unfolding one_call_def
    by (intro exI [of _ "fst (m l)"] exI [of _ "[(c, os l c)]"]) (auto simp: prod_eq_iff)
qed

lemma keeps_must:
  "(\<And>a. a \<noteq> Done \<Longrightarrow> le (step A (c, a)) E) \<Longrightarrow> le (step A (c, Done)) B \<Longrightarrow> keeps step le (must os err c) A E B"
  by (rule keeps_one_call [OF one_call_ops(1)]) (auto simp: must_def call_def)

lemma keeps_call:
  assumes "one_call m os c" and "\<And>a. le (step A (c, a)) E" "\<And>a. le (step A (c, a)) B"
  shows "keeps step le m A E B"
  by (rule keeps_one_call [OF assms(1)]) (use assms(2,3) in \<open>auto split: sum.split\<close>)

lemma keeps_must_all:
  assumes "\<And>c a. c \<in> set cs \<Longrightarrow> le (step A (c, a)) A" "le A E" "le A B"
  shows "keeps step le (must_all os err cs) A E B"
  using assms(1)
proof (induction cs)
  case (Cons c cs)
  have "keeps step le (must os err c) A E A"
    by (rule keeps_must) (use Cons.prems [of c] assms(2) in \<open>auto intro: le_trans\<close>)
  then show ?case using Cons by (auto intro!: keeps_then)
qed (simp add: keeps_return assms)

lemma clears_call: "(\<And>a. le (step A (c, a)) B) \<Longrightarrow> clears step le (attempt_call os c) A B"
  by (simp add: clears_def attempt_call_def call_def)

lemma clears_comp:
  assumes "clears step le f A B" "clears step le g B C"
  shows "clears step le (\<lambda>l. g (f l)) A C"
  unfolding clears_def
proof
  fix l
  obtain n1 where n1: "f l = l @ n1" "le (foldl step A n1) B" using assms(1) unfolding clears_def by blast
  obtain n2 where n2: "g (l @ n1) = (l @ n1) @ n2" "le (foldl step B n2) C"
    using assms(2) unfolding clears_def by blast
  have "le (foldl step (foldl step A n1) n2) (foldl step B n2)" using n1 by (simp add: run_mono)
  with n1 n2 show "\<exists>new. g (f l) = l @ new \<and> le (foldl step A new) C"
    by (intro exI [of _ "n1 @ n2"]) (auto intro: le_trans)
qed

end

end
