(* ===== verification/Netd_System_Laws.thy ===== *)
theory Netd_System_Laws
  imports Event_Logic
begin

text \<open>
  What the helper's system effects guarantee: a failed start attempts to release everything it
  acquired, OpenVPN runs only behind the firewall and with a profile that passed the sanitizer,
  and the requests of the control plane are answered by the manager's operations.  The rules of
  \<open>keeps\<close> and \<open>clears\<close> pull an assertion about held resources through the sequencing
  combinators, one rule per combinator.
\<close>

section \<open>Resources held after a log of system calls\<close>

datatype resource = Directory string | Namespace string | Veth string | Process child | Monitor

fun acquired :: "syscall \<times> answer \<Rightarrow> resource set" where
  "acquired (CreateDir d, a) = (if a = Done then {Directory d} else {})"
| "acquired (Run p args, a) =
     (if p = ''ip'' \<and> 3 \<le> length args \<and> take 2 args = [''netns'', ''add''] then {Namespace (args ! 2)}
      else if p = ''ip'' \<and> 3 \<le> length args \<and> take 2 args = [''link'', ''add''] then {Veth (args ! 2)}
      else {})"
| "acquired (Spawn c p args, a) = (if a = Done then {Process c} else {})"
| "acquired (StartMonitor, a) = {Monitor}"
| "acquired _ = {}"

text \<open>
  A release is an attempt: a removal command that was issued, whatever it answered, or a check
  that found nothing to remove.  Creating a namespace or an interface counts as an acquisition
  even when the command reports an error.
\<close>

fun released :: "syscall \<times> answer \<Rightarrow> resource set" where
  "released (RemoveDirAll d, a) = {r. \<exists>p. r = Directory p \<and> (p = d \<or> starts_with (d @ ''/'') p)}"
| "released (Kill c, a) = {Process c}"
| "released (AbortMonitor, a) = {Monitor}"
| "released (Run p args, a) =
     (if p = ''ip'' \<and> length args = 3 \<and> take 2 args = [''netns'', ''delete''] then {Namespace (args ! 2)}
      else if p = ''ip'' \<and> length args = 3 \<and> take 2 args = [''link'', ''delete''] then {Veth (args ! 2)}
      else {})"
| "released (Status p args, a) =
     (if a \<noteq> Done \<and> p = ''ip'' \<and> length args = 4 \<and> take 3 args = [''link'', ''show'', ''dev'']
      then {Veth (args ! 3)} else {})"
| "released (Metadata path, a) =
     (if a \<noteq> Done then {r. \<exists>ns. r = Namespace ns \<and> path = path_join ''/run/netns'' ns} else {})"
| "released _ = {}"

definition after_event :: "resource set \<Rightarrow> syscall \<times> answer \<Rightarrow> resource set" where
  "after_event R ev = (R - released ev) \<union> acquired ev"

definition held :: "resource set \<Rightarrow> log \<Rightarrow> resource set" where
  "held R l = foldl after_event R l"

lemma held_simps [simp]: "held R [] = R" "held R (ev # l) = held (after_event R ev) l"
  "held R (l @ k) = held (held R l) k"
  by (simp_all add: held_def)

interpretation resources: event_logic after_event "(\<subseteq>)"
  by unfold_locales (auto simp: after_event_def)

lemma held_mono: "R \<subseteq> S \<Longrightarrow> held R l \<subseteq> held S l"
  unfolding held_def by (rule resources.run_mono)

lemma held_frame: "held (R \<union> A) l \<subseteq> R \<union> held A l"
proof (induction l arbitrary: A)
  case (Cons ev l)
  have "after_event (R \<union> A) ev \<subseteq> R \<union> after_event A ev" by (auto simp: after_event_def)
  then show ?case using held_mono Cons.IH [of "after_event A ev"] by (metis held_simps(2) subset_trans)
qed simp

abbreviation leaves :: "'a sys \<Rightarrow> resource set \<Rightarrow> resource set \<Rightarrow> resource set \<Rightarrow> bool" where
  "leaves m A E B \<equiv> keeps after_event (\<subseteq>) m A E B"

abbreviation frees :: "(log \<Rightarrow> log) \<Rightarrow> resource set \<Rightarrow> resource set \<Rightarrow> bool" where
  "frees f A B \<equiv> clears after_event (\<subseteq>) f A B"

lemma leaves_same: "one_call m os c \<Longrightarrow> (\<And>a. acquired (c, a) = {}) \<Longrightarrow> leaves m A A A"
  by (rule resources.keeps_call) (auto simp: after_event_def)

lemma leaves_commands: "(\<And>c a. c \<in> set cs \<Longrightarrow> acquired (c, a) \<subseteq> A) \<Longrightarrow> leaves (must_all os err cs) A A A"
  by (rule resources.keeps_must_all) (auto simp: after_event_def)

section \<open>Clean-up\<close>

definition worker_files :: "string \<Rightarrow> resource set" where
  "worker_files dir = {Directory dir, Directory (path_join dir ''openvpn''), Directory (path_join dir ''ipc'')}"

definition worker_net :: "network_allocation \<Rightarrow> resource set" where
  "worker_net a = {Namespace (na_namespace a), Veth (na_host_veth a)}"

definition worker_vpn :: "network_allocation \<Rightarrow> string \<Rightarrow> resource set" where
  "worker_vpn a dir = worker_files dir \<union> worker_net a \<union> {Process OpenvpnChild}"

definition worker_all :: "network_allocation \<Rightarrow> string \<Rightarrow> resource set" where
  "worker_all a dir = worker_vpn a dir \<union> {Monitor, Process SocksChild}"

lemma starts_with_append [simp]: "starts_with p (p @ s)"
  by (simp add: starts_with_def)

lemma clears_files: "frees (cleanup_directory os dir) (worker_files dir) {}"
  unfolding cleanup_directory_def
  by (rule resources.clears_call) (auto simp: after_event_def worker_files_def path_join_def starts_with_def)

lemma clears_net: "frees (cleanup_worker_network os a) (X \<union> worker_net a) X"
  unfolding clears_def cleanup_worker_network_def
  by (auto simp: call_def attempt_call_def after_event_def worker_net_def Let_def)

lemma clears_child: "frees (stop_child os c) (X \<union> {Process c}) X"
  unfolding stop_child_def by (rule resources.clears_call) (auto simp: after_event_def)

lemma clears_monitor: "frees (attempt_call os AbortMonitor) (X \<union> {Monitor}) X"
  by (rule resources.clears_call) (auto simp: after_event_def)

lemma clears_net_files:
  "frees (\<lambda>l. cleanup_directory os dir (cleanup_worker_network os a l)) (worker_files dir \<union> worker_net a) {}"
  by (rule resources.clears_comp [OF clears_net clears_files])

lemma clears_vpn:
  "frees (\<lambda>l. cleanup_directory os dir (cleanup_worker_network os a (stop_child os OpenvpnChild l)))
     (worker_vpn a dir) {}"
  unfolding worker_vpn_def
  by (rule resources.clears_comp [OF clears_child clears_net_files])

lemma clears_all: "frees (stop_process os a dir) (worker_all a dir) {}"
proof -
  have eq: "worker_all a dir = (worker_vpn a dir \<union> {Process SocksChild}) \<union> {Monitor}"
    by (auto simp: worker_all_def)
  show ?thesis unfolding stop_process_def eq
    by (rule resources.clears_comp [OF resources.clears_comp [OF clears_monitor clears_child] clears_vpn])
qed

lemma clears_vpn_monitor:
  "frees (\<lambda>l. cleanup_directory os dir (cleanup_worker_network os a (stop_child os OpenvpnChild
     (attempt_call os AbortMonitor l)))) (worker_vpn a dir \<union> {Monitor}) {}"
  by (rule resources.clears_comp [OF clears_monitor clears_vpn])

section \<open>Every step of a start\<close>

lemma keeps_running: "leaves (ensure_running os) A A A"
  by (rule leaves_same [OF one_call_ops(3)]) (simp add: after_event_def)

lemma keeps_await: "leaves (await_openvpn os path t) A A A" "leaves (await_ready os (AwaitRoutes ns)) A A A"
  "leaves (await_ready os (AwaitSocket path)) A A A"
  by (rule leaves_same [OF one_call_ops(4)], simp add: after_event_def)
     (rule leaves_same [OF one_call_ops(5)], simp add: after_event_def)+

lemma keeps_file_setup: "leaves (file_setup os env dir profile) {Directory dir} (worker_files dir) (worker_files dir)"
proof -
  have "leaves (must_all os err (directory_commands env dir)) (worker_files dir) (worker_files dir) (worker_files dir)" for err
    by (rule leaves_commands) (auto simp: directory_commands_def worker_files_def split: if_splits)
  moreover have w: "leaves (write_private os path contents u g) (worker_files dir) (worker_files dir) (worker_files dir)"
    for path contents u g
    unfolding write_private_def by (rule leaves_commands) auto
  moreover have "leaves (write_credentials os env dir) (worker_files dir) (worker_files dir) (worker_files dir)"
    unfolding write_credentials_def by (auto simp: w resources.keeps_return resources.keeps_fail split: option.split)
  ultimately have "leaves (file_setup os env dir profile) (worker_files dir) (worker_files dir) (worker_files dir)"
    unfolding file_setup_def by (intro resources.keeps_then)
  then show ?thesis by (rule resources.keeps_more) (simp add: worker_files_def)
qed

lemma keeps_prepare_network:
  "leaves (prepare_worker_network os env a) X (X \<union> worker_net a) (X \<union> worker_net a)"
proof -
  let ?N = "X \<union> worker_net a"
  have "leaves (must_all os Network (link_commands a)) ?N ?N ?N"
    by (rule leaves_commands) (auto simp: link_commands_def worker_net_def split: if_splits)
  moreover have "leaves (run_namespace_setup os env (na_namespace a)) ?N ?N ?N"
    unfolding run_namespace_setup_def
    by (auto simp: resources.keeps_return resources.keeps_fail namespace_setup_def after_event_def intro!: resources.keeps_must split: option.split)
  moreover have "leaves (must_all os Network (namespace_commands a (se_upstream env))) ?N ?N ?N"
    by (rule leaves_commands) (auto simp: namespace_commands_def in_namespace_def worker_guard_def split: if_splits)
  ultimately have "leaves (prepare_worker_network os env a) ?N ?N ?N"
    unfolding prepare_worker_network_def by (intro resources.keeps_then)
  then show ?thesis by (rule resources.keeps_more) simp
qed

lemma keeps_spawn_openvpn:
  "leaves (spawn_openvpn os env ns path) X X (X \<union> {Process OpenvpnChild})"
  unfolding spawn_openvpn_def openvpn_command_def by (rule resources.keeps_must) (auto simp: after_event_def)

lemma keeps_spawn_socks:
  "leaves (spawn_worker_socks os env ns path) X X (X \<union> {Process SocksChild})"
  unfolding spawn_worker_socks_def socks_command_def
  by (auto simp: resources.keeps_return resources.keeps_fail after_event_def intro!: resources.keeps_must split: option.split)

lemma keeps_bring_up_openvpn:
  "leaves (bring_up_openvpn os env a dir t) (worker_files dir) {} (worker_vpn a dir)"
  unfolding bring_up_openvpn_def Let_def worker_vpn_def
  by (rule resources.keeps_then [OF resources.keeps_on_error [OF keeps_running clears_files]],
      rule resources.keeps_then [OF resources.keeps_on_error [OF keeps_prepare_network clears_net_files]],
      rule resources.keeps_then [OF resources.keeps_on_error [OF keeps_running clears_net_files]],
      rule resources.keeps_then [OF resources.keeps_on_error [OF keeps_spawn_openvpn clears_net_files]],
      rule resources.keeps_then [OF resources.keeps_on_error [OF keeps_await(1) clears_vpn [unfolded worker_vpn_def]]],
      rule resources.keeps_on_error [OF keeps_await(2) clears_vpn [unfolded worker_vpn_def]])

lemma keeps_bring_up_socks:
  "leaves (bring_up_socks os env a dir) (worker_vpn a dir) {} (worker_all a dir)"
proof -
  let ?M = "worker_vpn a dir \<union> {Monitor}"
  have all: "worker_all a dir = ?M \<union> {Process SocksChild}" by (auto simp: worker_all_def)
  have "leaves (\<lambda>l. (Inr (), attempt_call os StartMonitor l)) (worker_vpn a dir) {} ?M"
    by (rule resources.keepsI) (auto simp: attempt_call_def call_def after_event_def)
  moreover have "leaves (on_error (spawn_worker_socks os env (na_namespace a) (socket_path dir))
      (\<lambda>l. cleanup_directory os dir (cleanup_worker_network os a (stop_child os OpenvpnChild
        (attempt_call os AbortMonitor l))))) ?M {} (worker_all a dir)"
    unfolding all by (rule resources.keeps_on_error [OF keeps_spawn_socks clears_vpn_monitor])
  moreover have "leaves (on_error (await_ready os (AwaitSocket (socket_path dir))) (stop_process os a dir))
      (worker_all a dir) {} (worker_all a dir)"
    "leaves (on_error (ensure_running os) (stop_process os a dir)) (worker_all a dir) {} (worker_all a dir)"
    by (rule resources.keeps_on_error [OF keeps_await(3) clears_all], rule resources.keeps_on_error [OF keeps_running clears_all])
  ultimately show ?thesis
    unfolding bring_up_socks_def Let_def by (blast intro: resources.keeps_then)
qed

lemma keeps_create_dir: "leaves (create_worker_dir os dir) {} {} {Directory dir}"
  by (rule resources.keeps_one_call [OF one_call_ops(2)])
     (auto simp: create_worker_dir_def call_def after_event_def split: answer.split)

lemma keeps_start:
  "leaves (start os env blake3 reserved allocated inserted i remote conf t) {} {}
     (case allocated of Inl _ \<Rightarrow> {} | Inr a \<Rightarrow> worker_all a (worker_dir env i))"
proof -
  let ?d = "worker_dir env i" and ?B = "case allocated of Inl _ \<Rightarrow> {} | Inr a \<Rightarrow> worker_all a (worker_dir env i)"
  have "leaves (io_then (create_worker_dir os ?d) (\<lambda>_.
      io_then (on_error (file_setup os env ?d profile) (cleanup_directory os ?d)) (\<lambda>_.
      io_then (bring_up_openvpn os env a ?d t) (\<lambda>_.
      io_then (bring_up_socks os env a ?d) (\<lambda>_.
      io_then (on_error (io_lift inserted) (stop_process os a ?d)) (\<lambda>_.
      io_return (socket_path ?d))))))) {} {} (worker_all a ?d)" for profile a
    by (rule resources.keeps_then [OF keeps_create_dir],
        rule resources.keeps_then [OF resources.keeps_on_error [OF keeps_file_setup clears_files]],
        rule resources.keeps_then [OF keeps_bring_up_openvpn], rule resources.keeps_then [OF keeps_bring_up_socks],
        rule resources.keeps_then [OF resources.keeps_on_error [OF resources.keeps_lift [OF subset_refl subset_refl] clears_all]])
       (simp add: resources.keeps_return resources.keeps_fail)
  then show ?thesis
    unfolding start_def Let_def
    by (intro resources.keeps_then [OF keeps_running] resources.keeps_lift_then) simp_all
qed

text \<open>
  C17. A failed start leaves nothing behind.  For every behaviour of the operating system and every
  outcome of the reservation, the allocation and the final insertion: when starting a worker
  fails, at whatever step, then for each directory, network namespace, interface, child process
  and monitor task it acquired, a release was attempted after the acquisition; and when it
  succeeds, stopping the worker releases all it acquired.
\<close>

theorem start_releases:
  "\<exists>r new. start os env blake3 reserved allocated inserted i remote conf t l = (r, l @ new)
     \<and> (case r of
          Inl e \<Rightarrow> held R new \<subseteq> R
        | Inr socket \<Rightarrow> \<exists>a stopped. allocated = Inr a
            \<and> stop_process os a (worker_dir env i) (l @ new) = l @ new @ stopped \<and> held R (new @ stopped) \<subseteq> R)"
proof -
  obtain r new where m: "start os env blake3 reserved allocated inserted i remote conf t l = (r, l @ new)"
    "held {} new \<subseteq> (case r of Inl _ \<Rightarrow> {} | Inr _ \<Rightarrow>
       (case allocated of Inl _ \<Rightarrow> {} | Inr a \<Rightarrow> worker_all a (worker_dir env i)))"
    using keeps_start [of os env blake3 reserved allocated inserted i remote conf t] unfolding keeps_def held_def by blast
  show ?thesis
  proof (cases r)
    case (Inl e)
    with m held_frame [of R "{}" new] show ?thesis by (auto intro!: exI [of _ r] exI [of _ new])
  next
    case (Inr socket)
    with m(1) obtain a where a: "allocated = Inr a"
      by (cases allocated) (auto simp: start_def Let_def result_simps)
    obtain stopped where e: "stop_process os a (worker_dir env i) (l @ new) = (l @ new) @ stopped"
      "held (worker_all a (worker_dir env i)) stopped \<subseteq> {}"
      using clears_all unfolding clears_def held_def by blast
    have "held (held R new) stopped \<subseteq> held (R \<union> held {} new) stopped"
      using held_frame [of R "{}" new] by (intro held_mono) simp
    also have "\<dots> \<subseteq> R \<union> held (held {} new) stopped" by (rule held_frame)
    also have "\<dots> \<subseteq> R" using e(2) held_mono [of "held {} new" "worker_all a (worker_dir env i)" stopped] m(2) a Inr by auto
    finally show ?thesis using m(1) e(1) a Inr by (auto intro!: exI [of _ r] exI [of _ new] exI [of _ a])
  qed
qed

section \<open>The order of effects\<close>

text \<open>
  What the calls made so far establish, and what a spawned child needs to have been established:
  a second monitor, whose state is whether every child had what it needs, and the facts so far.
\<close>

datatype fact = ProfileWritten | GuardActive | TunnelConnected | RoutesReady

definition profile_file :: "start_env \<Rightarrow> string \<Rightarrow> sanitized_openvpn \<Rightarrow> syscall" where
  "profile_file env dir profile =
     WriteAll (profile_path dir) (as_bytes (build_runtime_profile (so_rendered profile) (se_upstream env)
       (auth_path env dir) (management_path dir)))"

fun awaited :: "network_allocation \<Rightarrow> string \<Rightarrow> syscall \<times> answer \<Rightarrow> fact set" where
  "awaited a dir (AwaitOpenvpn path t, Management_seen attempts late written events) =
     (if path = management_path dir \<and> wait_for_openvpn attempts late written events = Inr ()
      then {TunnelConnected} else {})"
| "awaited a dir (AwaitRoutes ns, Polls polls late) =
     (if ns = na_namespace a \<and> wait_ready polls late then {RoutesReady} else {})"
| "awaited a dir _ = {}"

definition establishes ::
    "start_env \<Rightarrow> network_allocation \<Rightarrow> string \<Rightarrow> sanitized_openvpn \<Rightarrow> syscall \<times> answer \<Rightarrow> fact set" where
  "establishes env a dir profile ev =
     (if ev = (worker_guard a (se_upstream env), Done) then {GuardActive} else {})
     \<union> (if ev = (profile_file env dir profile, Done) then {ProfileWritten} else {})
     \<union> awaited a dir ev"

fun spawn_needs :: "syscall \<Rightarrow> fact set" where
  "spawn_needs (Spawn OpenvpnChild p args) = {ProfileWritten, GuardActive}"
| "spawn_needs (Spawn SocksChild p args) = {ProfileWritten, GuardActive, TunnelConnected, RoutesReady}"
| "spawn_needs _ = {}"

definition note_event ::
    "(syscall \<times> answer \<Rightarrow> fact set) \<Rightarrow> bool \<times> fact set \<Rightarrow> syscall \<times> answer \<Rightarrow> bool \<times> fact set" where
  "note_event gives p ev = (fst p \<and> spawn_needs (fst ev) \<subseteq> snd p, snd p \<union> gives ev)"

definition promises :: "bool \<times> fact set \<Rightarrow> bool \<times> fact set \<Rightarrow> bool" where
  "promises p q \<longleftrightarrow> (fst q \<longrightarrow> fst p) \<and> snd q \<subseteq> snd p"

interpretation ordering: event_logic "note_event gives" promises for gives
  by unfold_locales (auto simp: promises_def note_event_def)

lemma note_events:
  "foldl (note_event gives) p l = (fst p \<and> (\<forall>before c ans after. l = before @ (c, ans) # after \<longrightarrow>
     spawn_needs c \<subseteq> snd p \<union> (\<Union>ev \<in> set before. gives ev)), snd p \<union> (\<Union>ev \<in> set l. gives ev))"
proof (induction l arbitrary: p)
  case (Cons ev l)
  have "(\<forall>before c ans after. ev # l = before @ (c, ans) # after \<longrightarrow>
      spawn_needs c \<subseteq> snd p \<union> (\<Union>ev \<in> set before. gives ev)) \<longleftrightarrow>
    spawn_needs (fst ev) \<subseteq> snd p \<and> (\<forall>before c ans after. l = before @ (c, ans) # after \<longrightarrow>
      spawn_needs c \<subseteq> snd p \<union> gives ev \<union> (\<Union>ev \<in> set before. gives ev))" (is "?l \<longleftrightarrow> ?r")
  proof
    assume l: ?l
    have "spawn_needs (fst ev) \<subseteq> snd p" using l [rule_format, of "[]" "fst ev" "snd ev" l] by simp
    moreover have "spawn_needs c \<subseteq> snd p \<union> gives ev \<union> (\<Union>ev \<in> set before. gives ev)"
      if "l = before @ (c, ans) # after" for before c ans after
      using l [rule_format, of "ev # before" c ans after] that by auto
    ultimately show ?r by blast
  next
    assume r: ?r
    show ?l
    proof (intro allI impI)
      fix before c ans after assume eq: "ev # l = before @ (c, ans) # after"
      show "spawn_needs c \<subseteq> snd p \<union> (\<Union>ev \<in> set before. gives ev)"
      proof (cases before)
        case Nil
        then show ?thesis using r eq by auto
      next
        case (Cons x xs)
        then have "x = ev" "l = xs @ (c, ans) # after" using eq by auto
        with r Cons show ?thesis by (auto simp: Un_assoc)
      qed
    qed
  qed
  then show ?case using Cons.IH [of "note_event gives p ev"] by (auto simp: note_event_def)
qed simp

abbreviation obeys ::
    "(syscall \<times> answer \<Rightarrow> fact set) \<Rightarrow> 'a sys \<Rightarrow> fact set \<Rightarrow> fact set \<Rightarrow> bool" where
  "obeys gives m S T \<equiv> keeps (note_event gives) promises m (True, S) (True, {}) (True, T)"

abbreviation tidy :: "(syscall \<times> answer \<Rightarrow> fact set) \<Rightarrow> (log \<Rightarrow> log) \<Rightarrow> bool" where
  "tidy gives f \<equiv> clears (note_event gives) promises f (True, {}) (True, {})"

lemma obeys_call: "one_call m os c \<Longrightarrow> spawn_needs c \<subseteq> S \<Longrightarrow> obeys gives m S S"
  by (rule ordering.keeps_call) (auto simp: promises_def note_event_def)

lemma obeys_must: "spawn_needs c \<subseteq> S \<Longrightarrow> obeys gives (must os err c) S (S \<union> gives (c, Done))"
  by (rule ordering.keeps_must) (auto simp: promises_def note_event_def)

lemma obeys_commands:
  "(\<And>c. c \<in> set cs \<Longrightarrow> spawn_needs c = {}) \<Longrightarrow>
   obeys gives (must_all os err cs) S (S \<union> (\<Union>c \<in> set cs. gives (c, Done)))"
proof (induction cs arbitrary: S)
  case (Cons c cs)
  then have "obeys gives (must_all os err (c # cs)) S (S \<union> gives (c, Done) \<union> (\<Union>c \<in> set cs. gives (c, Done)))"
    unfolding must_all.simps by (intro ordering.keeps_then [OF obeys_must]) auto
  then show ?case by (simp add: Un_assoc)
qed (simp add: ordering.keeps_return ordering.le_refl)

lemma obeys_less: "obeys gives m S T \<Longrightarrow> T' \<subseteq> T \<Longrightarrow> obeys gives m S T'"
  by (rule ordering.keeps_weaken) (auto simp: promises_def)

lemma obeys_guarded: "obeys gives m S T \<Longrightarrow> tidy gives cleanup \<Longrightarrow> obeys gives (on_error m cleanup) S T"
  by (rule ordering.keeps_on_error)

lemma tidy_call: "spawn_needs c = {} \<Longrightarrow> tidy gives (attempt_call os c)"
  by (rule ordering.clears_call) (auto simp: promises_def note_event_def)

lemma tidy_comp: "tidy gives f \<Longrightarrow> tidy gives g \<Longrightarrow> tidy gives (\<lambda>l. g (f l))"
  by (rule ordering.clears_comp)

lemma tidy_net: "tidy gives (cleanup_worker_network os a)"
  unfolding clears_def cleanup_worker_network_def
  by (auto simp: call_def attempt_call_def note_event_def promises_def Let_def)

lemma tidy_steps:
  "tidy gives (cleanup_directory os dir)"
  "tidy gives (\<lambda>l. cleanup_directory os dir (cleanup_worker_network os a l))"
  "tidy gives (\<lambda>l. cleanup_directory os dir (cleanup_worker_network os a (stop_child os OpenvpnChild l)))"
  "tidy gives (\<lambda>l. cleanup_directory os dir (cleanup_worker_network os a (stop_child os OpenvpnChild
     (attempt_call os AbortMonitor l))))"
  "tidy gives (stop_process os a dir)"
proof -
  have calls: "tidy gives (stop_child os c)" "tidy gives (attempt_call os AbortMonitor)" for c
    by (simp_all add: stop_child_def tidy_call)
  show files: "tidy gives (cleanup_directory os dir)" by (simp add: cleanup_directory_def tidy_call)
  show net: "tidy gives (\<lambda>l. cleanup_directory os dir (cleanup_worker_network os a l))"
    by (rule tidy_comp [OF tidy_net files])
  show vpn: "tidy gives (\<lambda>l. cleanup_directory os dir (cleanup_worker_network os a (stop_child os OpenvpnChild l)))"
    by (rule tidy_comp [OF calls(1) net])
  show "tidy gives (\<lambda>l. cleanup_directory os dir (cleanup_worker_network os a (stop_child os OpenvpnChild
     (attempt_call os AbortMonitor l))))" by (rule tidy_comp [OF calls(2) vpn])
  show "tidy gives (stop_process os a dir)" unfolding stop_process_def
    by (rule tidy_comp [OF tidy_comp [OF calls(2) calls(1)] vpn])
qed

lemma obeys_running: "obeys gives (ensure_running os) S S"
  by (rule obeys_call [OF one_call_ops(3)]) simp

lemma obeys_file_setup:
  "obeys (establishes env a dir profile) (file_setup os env dir profile) S (S \<union> {ProfileWritten})"
proof -
  let ?G = "establishes env a dir profile"
  have w: "obeys ?G (write_private os path contents u g) S (S \<union> ?G (WriteAll path contents, Done))" for path contents u g S
    unfolding write_private_def by (rule obeys_less [OF obeys_commands]) auto
  then have "obeys ?G (write_credentials os env dir) S S" for S
    unfolding write_credentials_def
    by (auto intro: obeys_less [OF w] simp: ordering.keeps_return ordering.keeps_fail promises_def split: option.split)
  moreover have "obeys ?G (must_all os err (directory_commands env dir)) S S" for err
    by (rule obeys_less [OF obeys_commands]) (auto simp: directory_commands_def)
  moreover have "ProfileWritten \<in> ?G (profile_file env dir profile, Done)" by (simp add: establishes_def)
  ultimately show ?thesis
    unfolding file_setup_def
    by (intro ordering.keeps_then [of _ _ _ _ "(True, S)"] obeys_less [OF w]) (auto simp: profile_file_def)
qed

lemma obeys_prepare_network:
  "obeys (establishes env a dir profile) (prepare_worker_network os env a) S (S \<union> {GuardActive})"
proof -
  let ?G = "establishes env a dir profile"
  have "obeys ?G (must_all os err (link_commands a)) S S" for err
    by (rule obeys_less [OF obeys_commands]) (auto simp: link_commands_def)
  moreover have "obeys ?G (run_namespace_setup os env (na_namespace a)) S S"
    unfolding run_namespace_setup_def
    by (auto simp: ordering.keeps_fail promises_def namespace_setup_def intro!: obeys_call [OF one_call_ops(1)] split: option.split)
  moreover have "obeys ?G (must_all os err (namespace_commands a (se_upstream env))) S (S \<union> {GuardActive})" for err
    by (rule obeys_less [OF obeys_commands])
       (auto simp: namespace_commands_def in_namespace_def worker_guard_def establishes_def)
  ultimately show ?thesis unfolding prepare_worker_network_def by (intro ordering.keeps_then [of _ _ _ _ "(True, S)"])
qed

lemma obeys_await_openvpn:
  "obeys (establishes env a dir profile) (await_openvpn os (management_path dir) t) S (S \<union> {TunnelConnected})"
  by (rule ordering.keeps_one_call [OF one_call_ops(4)])
     (auto simp: await_openvpn_def call_def promises_def note_event_def establishes_def split: answer.split sum.split)

lemma obeys_await_routes:
  "obeys (establishes env a dir profile) (await_ready os (AwaitRoutes (na_namespace a))) S (S \<union> {RoutesReady})"
  by (rule ordering.keeps_one_call [OF one_call_ops(5)])
     (auto simp: await_ready_def call_def promises_def note_event_def establishes_def split: answer.split sum.split)

lemmas obeys_awaits = obeys_await_openvpn obeys_await_routes

lemma obeys_bring_up_openvpn:
  "obeys (establishes env a dir profile) (bring_up_openvpn os env a dir t) {ProfileWritten}
     {ProfileWritten, GuardActive, TunnelConnected, RoutesReady}"
proof -
  let ?G = "establishes env a dir profile" and ?P = "{ProfileWritten} \<union> {GuardActive}"
  have sp: "obeys ?G (spawn_openvpn os env ns path) ?P ?P" for ns path
    unfolding spawn_openvpn_def openvpn_command_def by (rule obeys_call [OF one_call_ops(1)]) simp
  have "obeys ?G (bring_up_openvpn os env a dir t) {ProfileWritten} (?P \<union> {TunnelConnected} \<union> {RoutesReady})"
    unfolding bring_up_openvpn_def Let_def
    by (rule ordering.keeps_then [OF obeys_guarded [OF obeys_running tidy_steps(1)]],
        rule ordering.keeps_then [OF obeys_guarded [OF obeys_prepare_network tidy_steps(2)]],
        rule ordering.keeps_then [OF obeys_guarded [OF obeys_running tidy_steps(2)]],
        rule ordering.keeps_then [OF obeys_guarded [OF sp tidy_steps(2)]],
        rule ordering.keeps_then [OF obeys_guarded [OF obeys_awaits(1) tidy_steps(3)]],
        rule obeys_guarded [OF obeys_awaits(2) tidy_steps(3)])
  then show ?thesis by (rule obeys_less) auto
qed

lemma obeys_bring_up_socks:
  assumes "spawn_needs (Spawn SocksChild p args) \<subseteq> S"
  shows "obeys gives (bring_up_socks os env a dir) S S"
proof -
  have sp: "obeys gives (spawn_worker_socks os env ns path) S S" for ns path
    unfolding spawn_worker_socks_def socks_command_def using assms
    by (auto simp: ordering.keeps_fail promises_def intro!: obeys_call [OF one_call_ops(1)] split: option.split)
  have mon: "obeys gives (\<lambda>l. (Inr (), attempt_call os StartMonitor l)) S S"
    by (rule ordering.keepsI) (auto simp: attempt_call_def call_def note_event_def promises_def)
  have sock: "obeys gives (await_ready os (AwaitSocket path)) S S" for path
    by (rule obeys_call [OF one_call_ops(5)]) simp
  show ?thesis unfolding bring_up_socks_def Let_def
    by (rule ordering.keeps_then [OF mon], rule ordering.keeps_then [OF obeys_guarded [OF sp tidy_steps(4)]],
        rule ordering.keeps_then [OF obeys_guarded [OF sock tidy_steps(5)]],
        rule obeys_guarded [OF obeys_running tidy_steps(5)])
qed

lemma obeys_start:
  assumes "check_profile blake3 remote conf = Inr profile"
  shows "obeys (establishes env a (worker_dir env i) profile)
    (start os env blake3 reserved (Inr a) inserted i remote conf t) {} {}"
proof -
  let ?d = "worker_dir env i" and ?G = "establishes env a (worker_dir env i) profile"
  have dir: "obeys ?G (create_worker_dir os ?d) {} {}" by (rule obeys_call [OF one_call_ops(2)]) simp
  have socks: "obeys ?G (bring_up_socks os env a ?d) {ProfileWritten, GuardActive, TunnelConnected, RoutesReady} {}"
    by (rule obeys_less [OF obeys_bring_up_socks]) simp_all
  have ins: "obeys ?G (on_error (io_lift inserted) (stop_process os a ?d)) {} {}"
    by (rule obeys_guarded [OF ordering.keeps_lift tidy_steps(5)]) (simp_all add: promises_def)
  have "obeys ?G (io_then (create_worker_dir os ?d) (\<lambda>_.
      io_then (on_error (file_setup os env ?d profile) (cleanup_directory os ?d)) (\<lambda>_.
      io_then (bring_up_openvpn os env a ?d t) (\<lambda>_.
      io_then (bring_up_socks os env a ?d) (\<lambda>_.
      io_then (on_error (io_lift inserted) (stop_process os a ?d)) (\<lambda>_.
      io_return (socket_path ?d))))))) {} {}"
    by (rule ordering.keeps_then [OF dir],
        rule ordering.keeps_then [OF obeys_less [OF obeys_guarded [OF obeys_file_setup tidy_steps(1)], of "{ProfileWritten}"]],
        simp, rule ordering.keeps_then [OF obeys_bring_up_openvpn], rule ordering.keeps_then [OF socks],
        rule ordering.keeps_then [OF ins], rule ordering.keeps_return, rule ordering.le_refl)
  then show ?thesis
    unfolding start_def Let_def using assms
    by (intro ordering.keeps_then [OF obeys_running] ordering.keeps_lift_then) (simp_all add: promises_def)
qed

lemma awaited_fact:
  "TunnelConnected \<in> awaited a dir ev \<Longrightarrow> \<exists>t attempts late written events.
     ev = (AwaitOpenvpn (management_path dir) t, Management_seen attempts late written events)
     \<and> wait_for_openvpn attempts late written events = Inr ()"
  "RoutesReady \<in> awaited a dir ev \<Longrightarrow> \<exists>polls late.
     ev = (AwaitRoutes (na_namespace a), Polls polls late) \<and> wait_ready polls late"
  "GuardActive \<notin> awaited a dir ev" "ProfileWritten \<notin> awaited a dir ev"
  by (cases "(a, dir, ev)" rule: awaited.cases, auto split: if_splits)+

lemma establishes_fact:
  "GuardActive \<in> establishes env a dir profile ev \<Longrightarrow> ev = (worker_guard a (se_upstream env), Done)"
  "ProfileWritten \<in> establishes env a dir profile ev \<Longrightarrow> ev = (profile_file env dir profile, Done)"
  "TunnelConnected \<in> establishes env a dir profile ev \<Longrightarrow> TunnelConnected \<in> awaited a dir ev"
  "RoutesReady \<in> establishes env a dir profile ev \<Longrightarrow> RoutesReady \<in> awaited a dir ev"
  using awaited_fact(3,4) [of a dir ev] by (auto simp: establishes_def split: if_splits)

lemma start_needs_profile:
  assumes "start os env blake3 reserved allocated inserted i remote conf t l = (r, l @ before @ (Spawn c p args, ans) # after)"
  shows "\<exists>profile. check_profile blake3 remote conf = Inr profile"
proof (cases "check_profile blake3 remote conf")
  case (Inl e)
  obtain x where x: "ensure_running os l = (x, l @ [(IsCancelled, os l IsCancelled)])"
    by (simp add: ensure_running_def call_def)
  have "snd (start os env blake3 reserved allocated inserted i remote conf t l) = l @ [(IsCancelled, os l IsCancelled)]"
    by (cases x; cases reserved) (simp_all add: start_def Let_def io_then_def x Inl)
  then show ?thesis using assms by (cases before) auto
qed simp

text \<open>
  C16. No child runs unprotected.  In every run of \<open>start\<close>, whatever the system answers, before
  OpenVPN or the SOCKS worker is spawned the profile has passed the sanitizer against the expected
  remote, OpenVPN's configuration file was written from it, and the namespace's firewall was
  installed successfully; before the SOCKS worker is spawned OpenVPN has also reported a
  successful connection and the tunnel routes were seen.
\<close>

theorem start_order:
  assumes "start os env blake3 reserved (Inr a) inserted i remote conf t []
      = (r, before @ (Spawn c program args, ans) # after)"
  shows "(worker_guard a (se_upstream env), Done) \<in> set before
    \<and> (\<exists>profile. check_profile blake3 remote conf = Inr profile
         \<and> (profile_file env (worker_dir env i) profile, Done) \<in> set before)
    \<and> (c = SocksChild \<longrightarrow>
         (\<exists>t attempts late written events.
            (AwaitOpenvpn (management_path (worker_dir env i)) t, Management_seen attempts late written events) \<in> set before
            \<and> wait_for_openvpn attempts late written events = Inr ())
         \<and> (\<exists>polls late. (AwaitRoutes (na_namespace a), Polls polls late) \<in> set before \<and> wait_ready polls late))"
proof -
  obtain profile where p: "check_profile blake3 remote conf = Inr profile"
    using start_needs_profile [of os env blake3 reserved "Inr a" inserted i remote conf t "[]" r before] assms
    by (metis append_Nil)
  let ?G = "establishes env a (worker_dir env i) profile"
  have "promises (foldl (note_event ?G) (True, {}) (before @ (Spawn c program args, ans) # after)) (True, {})"
    using obeys_start [OF p, of env a i os reserved inserted t, unfolded keeps_def, rule_format, of "[]"] assms
    by (auto split: sum.splits)
  then have needs: "spawn_needs (Spawn c program args) \<subseteq> (\<Union>ev \<in> set before. ?G ev)"
    unfolding note_events promises_def by auto
  have "GuardActive \<in> (\<Union>ev \<in> set before. ?G ev)" "ProfileWritten \<in> (\<Union>ev \<in> set before. ?G ev)"
    using needs by (cases c; auto)+
  then have 1: "(worker_guard a (se_upstream env), Done) \<in> set before"
    "(profile_file env (worker_dir env i) profile, Done) \<in> set before"
    by (auto dest: establishes_fact)
  show ?thesis
  proof (intro conjI impI)
    assume "c = SocksChild"
    then have "TunnelConnected \<in> (\<Union>ev \<in> set before. ?G ev)" "RoutesReady \<in> (\<Union>ev \<in> set before. ?G ev)"
      using needs by auto
    then show "\<exists>t attempts late written events.
        (AwaitOpenvpn (management_path (worker_dir env i)) t, Management_seen attempts late written events) \<in> set before
        \<and> wait_for_openvpn attempts late written events = Inr ()"
      "\<exists>polls late. (AwaitRoutes (na_namespace a), Polls polls late) \<in> set before \<and> wait_ready polls late"
      by (auto dest!: establishes_fact(3,4) awaited_fact(1,2)) blast+
  qed (use 1 p in auto)
qed

text \<open>A system that answers every call, with OpenVPN connected at the first attempt.\<close>

fun ready_os :: os where
  "ready_os l IsCancelled = Unsuccessful"
| "ready_os l (AwaitOpenvpn path t) =
     Management_seen [] \<lparr>at_cancelled = False, at_exited = Some False, at_connected = True, at_woken = False\<rparr> True
       [Line ''>STATE:1,CONNECTED,SUCCESS,10.0.0.2'']"
| "ready_os l (AwaitRoutes ns) = Polls [] \<lparr>po_exited = False, po_ready = True, po_cancelled = False, po_woken = False\<rparr>"
| "ready_os l (AwaitSocket path) = Polls [] \<lparr>po_exited = False, po_ready = True, po_cancelled = False, po_woken = False\<rparr>"
| "ready_os l _ = Done"

definition sample_start_env :: start_env where
  "sample_start_env =
     \<lparr>se_runtime_dir = ''/run/v/workers'',
      se_upstream = \<lparr>ru_address = \<lparr>sock_ip = Ipv4Addr 10 0 0 2, sock_port = 1080\<rparr>, ru_username = None, ru_password = None\<rparr>,
      se_uid = 10001, se_gid = 10001, se_openvpn_uid = 10002, se_exe = Some ''/v''\<rparr>"

definition sample_network :: network_allocation where
  "sample_network =
     \<lparr>na_index = 1, na_namespace = ''v2s-0001'', na_host_veth = ''v2h0001'', na_worker_veth = ''v2w0001'',
      na_host_ip = Ipv4Addr 10 231 0 5, na_worker_ip = Ipv4Addr 10 231 0 6\<rparr>"

lemma sample_checked:
  "check_profile id sample_remote (sample_profile [''A'']) = Inr (sample_sanitized id [''A''])"
proof -
  have "is_public_ipv4 (Ipv4Addr 1 2 3 4)" by code_simp
  then show ?thesis
    using sanitize_sample(1) [OF sample_ca_ok, of id]
    by (simp add: check_profile_def sample_remote_def sample_sanitized_def)
qed

lemma ready_must_all:
  "(\<And>c l. c \<in> set cs \<Longrightarrow> ready_os l c = Done) \<Longrightarrow>
   must_all ready_os err cs l = (Inr (), l @ map (\<lambda>c. (c, Done)) cs)"
  by (induction cs arbitrary: l) (simp_all add: io_then_def must_def call_def)

lemma ready_file_setup:
  "ru_username (se_upstream env) = None \<Longrightarrow> \<exists>new. file_setup ready_os env dir profile l = (Inr (), l @ new)"
proof -
  have "c \<in> set (directory_commands env dir) \<Longrightarrow> ready_os l c = Done" for c l
    by (auto simp: directory_commands_def)
  moreover have "write_private ready_os path contents u g l =
      (Inr (), l @ map (\<lambda>c. (c, Done)) [CreateNew path (octal 4 0 0), WriteAll path contents, Chown path u g])"
    for path contents u g l
    unfolding write_private_def by (rule ready_must_all) auto
  moreover assume "ru_username (se_upstream env) = None"
  ultimately show ?thesis
    by (simp add: file_setup_def write_credentials_def auth_path_def io_then_def ready_must_all)
qed

lemma ready_bring_up_openvpn:
  "se_exe env = Some exe \<Longrightarrow> \<exists>new. bring_up_openvpn ready_os env a dir t l = (Inr (), l @ new)"
proof -
  have line: "wait_connected [Line ''>STATE:1,CONNECTED,SUCCESS,10.0.0.2''] = Inr ()" by code_simp
  have cmds: "c \<in> set (link_commands a) \<Longrightarrow> ready_os l c = Done"
    "c \<in> set (namespace_commands a u) \<Longrightarrow> ready_os l c = Done" for c l u
    by (auto simp: link_commands_def namespace_commands_def in_namespace_def worker_guard_def)
  assume "se_exe env = Some exe"
  then show ?thesis
    by (auto simp: bring_up_openvpn_def Let_def io_then_def on_error_def ensure_running_def call_def
        prepare_worker_network_def run_namespace_setup_def namespace_setup_def ready_must_all cmds must_def
        spawn_openvpn_def openvpn_command_def await_openvpn_def wait_for_openvpn_def check_attempt_def line await_ready_def
        simp del: wait_connected.simps)
qed

lemma ready_bring_up_socks:
  "se_exe env = Some exe \<Longrightarrow> \<exists>after. bring_up_socks ready_os env a dir l =
     (Inr (), l @ (StartMonitor, Done) # (socks_command env exe (na_namespace a) (socket_path dir), Done) # after)"
  by (simp add: bring_up_socks_def Let_def io_then_def on_error_def ensure_running_def call_def attempt_call_def
      spawn_worker_socks_def socks_command_def must_def await_ready_def)

lemma ready_start:
  "\<exists>before after. start ready_os sample_start_env id (Inr ()) (Inr sample_network) (Inr ()) (WorkerId 1) sample_remote
     (sample_profile [''A'']) 1000 []
   = (Inr (socket_path (worker_dir sample_start_env (WorkerId 1))),
      before @ (socks_command sample_start_env ''/v'' ''v2s-0001''
        (socket_path (worker_dir sample_start_env (WorkerId 1))), Done) # after)"
proof -
  let ?e = sample_start_env and ?d = "worker_dir sample_start_env (WorkerId 1)"
  have e: "ru_username (se_upstream ?e) = None" "se_exe ?e = Some ''/v''" "na_namespace sample_network = ''v2s-0001''"
    by (simp_all add: sample_start_env_def sample_network_def)
  let ?l1 = "[(IsCancelled, Unsuccessful), (CreateDir ?d, Done)]"
  obtain n2 where n2: "file_setup ready_os ?e ?d (sample_sanitized id [''A'']) ?l1 = (Inr (), ?l1 @ n2)"
    using ready_file_setup [OF e(1)] by blast
  obtain n3 where n3: "bring_up_openvpn ready_os ?e sample_network ?d 1000 (?l1 @ n2) = (Inr (), (?l1 @ n2) @ n3)"
    using ready_bring_up_openvpn [OF e(2)] by blast
  obtain n4 where n4: "bring_up_socks ready_os ?e sample_network ?d ((?l1 @ n2) @ n3) = (Inr (), ((?l1 @ n2) @ n3) @
      (StartMonitor, Done) # (socks_command ?e ''/v'' ''v2s-0001'' (socket_path ?d), Done) # n4)"
    using ready_bring_up_socks [OF e(2)] e(3) by metis
  have "start ready_os ?e id (Inr ()) (Inr sample_network) (Inr ()) (WorkerId 1) sample_remote (sample_profile [''A'']) 1000 []
    = (Inr (socket_path ?d), (((?l1 @ n2) @ n3) @ [(StartMonitor, Done)])
        @ (socks_command ?e ''/v'' ''v2s-0001'' (socket_path ?d), Done) # n4)"
    using n2 n3 n4
    by (simp add: start_def Let_def io_then_def ensure_running_def call_def sample_checked create_worker_dir_def on_error_def)
  then show ?thesis by blast
qed

theorem start_order_witness:
  "\<exists>before after. start ready_os sample_start_env id (Inr ()) (Inr sample_network) (Inr ()) (WorkerId 1) sample_remote
     (sample_profile [''A'']) 1000 []
   = (Inr (socket_path (worker_dir sample_start_env (WorkerId 1))),
      before @ (socks_command sample_start_env ''/v'' ''v2s-0001''
        (socket_path (worker_dir sample_start_env (WorkerId 1))), Done) # after)
   \<and> (worker_guard sample_network (se_upstream sample_start_env), Done) \<in> set before"
proof -
  obtain before after where s: "start ready_os sample_start_env id (Inr ()) (Inr sample_network) (Inr ()) (WorkerId 1)
      sample_remote (sample_profile [''A'']) 1000 []
    = (Inr (socket_path (worker_dir sample_start_env (WorkerId 1))),
      before @ (socks_command sample_start_env ''/v'' ''v2s-0001''
        (socket_path (worker_dir sample_start_env (WorkerId 1))), Done) # after)"
    using ready_start by blast
  from start_order [OF s [unfolded socks_command_def]] s show ?thesis by blast
qed

section \<open>The configuration OpenVPN reads\<close>

definition plain_line :: "string \<Rightarrow> bool" where
  "plain_line l \<longleftrightarrow> nl \<notin> set l \<and> (l = [] \<or> last l \<noteq> cr)"

lemma plain_chars_line: "list_all plain_char l \<Longrightarrow> plain_line l"
proof -
  assume "list_all plain_char l"
  then have pc: "c \<in> set l \<Longrightarrow> plain_char c" for c by (simp add: list_all_iff)
  show ?thesis using pc [of nl] pc [of "last l"] plain_char_not_cr last_in_set [of l] unfolding plain_line_def by metis
qed

lemma plain_line_append: "plain_line a \<Longrightarrow> plain_line b \<Longrightarrow> b \<noteq> [] \<Longrightarrow> plain_line (a @ b)"
  by (auto simp: plain_line_def)

text \<open>To the lines of the sanitized profile the helper adds these four, and no others.\<close>

lemma runtime_profile_lines:
  assumes "list_all plain_line ls" and "plain_line mgmt" and "\<And>path. auth = Some path \<Longrightarrow> plain_line path \<and> path \<noteq> []"
  shows "lines (build_runtime_profile (unlines ls) upstream auth mgmt) = ls @
    [''socks-proxy '' @ show_ipv4 (sock_ip (ru_address upstream)) @ '' '' @ show_nat (unat (sock_port (ru_address upstream)))
       @ (case auth of None \<Rightarrow> [] | Some path \<Rightarrow> '' '' @ path),
     ''management '' @ mgmt @ '' unix'', ''management-hold'', ''management-query-passwords'']"
    (is "_ = ls @ ?extra")
proof -
  have "plain_line (''socks-proxy '' @ show_ipv4 x @ '' '' @ show_nat n
      @ (case auth of None \<Rightarrow> [] | Some path \<Rightarrow> '' '' @ path))" for x n
  proof -
    have "plain_line (show_ipv4 x)" "plain_line (show_nat n)" "plain_line ''socks-proxy ''" "plain_line '' ''"
      using plain_show [THEN plain_chars_line] by (simp_all add: plain_line_def)
    then show ?thesis using assms(3)
      by (cases auth) (auto intro!: plain_line_append simp del: append_Cons append_Nil simp: append_Cons [symmetric] plain_line_def)
  qed
  moreover have "plain_line (''management '' @ mgmt @ '' unix'')" using assms(2) by (simp add: plain_line_def)
  ultimately have "list_all plain_line (ls @ ?extra)" using assms(1) by (simp add: plain_line_def)
  then have "lines (unlines (ls @ ?extra)) = ls @ ?extra" unfolding plain_line_def by (rule lines_unlines)
  then show ?thesis by (simp add: build_runtime_profile_def)
qed

section \<open>Readiness\<close>

text \<open>The first decisive line decides; without one the deadline does.\<close>

lemma wait_connected_Inr:
  "wait_connected events = Inr () \<Longrightarrow>
   \<exists>before line after. events = before @ Line line # after \<and> contains '',CONNECTED,SUCCESS,'' line
     \<and> (\<forall>e \<in> set before. \<exists>l. e = Line l \<and> l \<noteq> [] \<and> \<not> starts_with ''>FATAL:'' l \<and> \<not> contains '',EXITING,'' l)"
proof (induction events rule: wait_connected.induct)
  case (5 line events)
  show ?case
  proof (cases "contains '',CONNECTED,SUCCESS,'' line")
    case True
    then show ?thesis by (intro exI [of _ "[]"] exI [of _ line] exI [of _ events]) simp
  next
    case False
    with 5 obtain before l after where "events = before @ Line l # after" "contains '',CONNECTED,SUCCESS,'' l"
      "\<forall>e \<in> set before. \<exists>l. e = Line l \<and> l \<noteq> [] \<and> \<not> starts_with ''>FATAL:'' l \<and> \<not> contains '',EXITING,'' l"
      by (auto split: if_splits)
    with False "5.prems" show ?thesis
      by (intro exI [of _ "Line line # before"] exI [of _ l] exI [of _ after]) (auto split: if_splits)
  qed
qed simp_all

lemma monitor_management_closed: "\<not> monitor_management (events @ None # rest) ready"
  by (induction events ready rule: monitor_management.induct) simp_all

lemma wait_ready_polled: "wait_ready polls late \<Longrightarrow> \<exists>p \<in> set polls \<union> {late}. po_ready p \<and> \<not> po_exited p"
  by (induction polls) auto

definition output_route :: "string list list \<Rightarrow> string \<Rightarrow> bool" where
  "output_route rows destination =
     list_ex (\<lambda>cols. cols \<noteq> [] \<and> hd cols = destination \<and> (''dev'', ''tun0'') \<in> set (zip cols (drop 1 cols))) rows"

lemma scan_output_routes:
  "foldl scan_output_route (w, l, u) rows =
     (w \<or> output_route rows ''default'', l \<or> output_route rows ''0.0.0.0/1'', u \<or> output_route rows ''128.0.0.0/1'')"
proof (induction rows arbitrary: w l u)
  case (Cons cols rows)
  show ?case by (cases cols) (auto simp: Cons.IH output_route_def list_ex_iff)
qed (simp add: output_route_def)

lemma route_output_covers:
  "route_output_covers_public_ipv4 routes \<longleftrightarrow>
     (let rows = map split_ascii_whitespace (lines routes)
      in output_route rows ''default'' \<or> output_route rows ''0.0.0.0/1'' \<and> output_route rows ''128.0.0.0/1'')"
  by (simp add: route_output_covers_public_ipv4_def scan_output_routes Let_def)

section \<open>Requests and responses\<close>

text \<open>
  C36. Client and helper agree.  When the JSON texts of a request and of the manager's response are
  read back as they were written and fit into frames, then the bytes the client writes make the
  helper perform exactly the requested operation, once, with the timeout clamped, and the client
  classifies the helper's answer as the operation's outcome: a started worker's socket or the
  manager's error code, a stop, or the readiness of the worker.
\<close>

theorem client_helper_agree:
  assumes req: "to_req q = Some qb" "from_req qb = Some q" "frame_ok qb"
    and resp: "handle_request m q s = (p, s')" "to_resp p = Some pb" "from_resp pb = Some p" "frame_ok pb"
  shows "write_frame to_req q (stream_of []) = (Inr (), (stream_of [])\<lparr>c_out := frame_bytes qb\<rparr>)
    \<and> serve_client from_req to_resp m (stream_of (frame_bytes qb)) s
        = (Inr (), (stream_of [])\<lparr>c_out := frame_bytes pb\<rparr>, s')
    \<and> client_request to_req from_resp (Some (stream_of (frame_bytes pb))) q = Inr p
    \<and> (case q of
         Ping \<Rightarrow> expect_pong p = Inr (mo_upstream m) \<and> s' = s
       | StartWorker i node remote conf t \<Rightarrow>
           (case mo_start m i node remote conf (clamp_timeout t) s of
              (Inr socket, s1) \<Rightarrow> expect_started p = Inr socket \<and> s' = s1
            | (Inl e, s1) \<Rightarrow> expect_started p = Inl (Rejected (error_code e) (mo_message m e)) \<and> s' = s1)
       | StopWorker i \<Rightarrow>
           (case mo_stop m i s of
              (Inr _, s1) \<Rightarrow> expect_stopped p = Inr () \<and> s' = s1
            | (Inl e, s1) \<Rightarrow> expect_stopped p = Inl (Rejected (error_code e) (mo_message m e)) \<and> s' = s1)
       | WorkerStatusRequest i \<Rightarrow> expect_status p = Inr (fst (mo_ready m i s)) \<and> s' = snd (mo_ready m i s))"
proof (intro conjI)
  show "write_frame to_req q (stream_of []) = (Inr (), (stream_of [])\<lparr>c_out := frame_bytes qb\<rparr>)"
    using write_frame_run [of to_req q qb "stream_of []"] req(1,3) by (simp add: stream_of_def)
  show "serve_client from_req to_resp m (stream_of (frame_bytes qb)) s
      = (Inr (), (stream_of [])\<lparr>c_out := frame_bytes pb\<rparr>, s')"
    using read_frame_run [OF req(3), of "stream_of (frame_bytes qb)" "[]" from_req] req(2) resp(1)
      write_frame_run [of to_resp p pb "stream_of []"] resp(2,4)
    by (simp add: serve_client_def stream_of_def)
  show "client_request to_req from_resp (Some (stream_of (frame_bytes pb))) q = Inr p"
    using write_frame_run [of to_req q qb "stream_of (frame_bytes pb)"] req(1,3) resp(3)
      read_frame_run [OF resp(4), of "(stream_of (frame_bytes pb))\<lparr>c_out := frame_bytes qb\<rparr>" "[]" from_resp]
    by (simp add: client_request_def io_then_def stream_of_def)
qed (use resp(1) in \<open>cases q; auto simp: error_response_def split: prod.splits sum.splits\<close>)

definition sample_manager :: "nat manager_ops" where
  "sample_manager =
     \<lparr>mo_upstream = \<lparr>sock_ip = Ipv4Addr 10 0 0 2, sock_port = 1080\<rparr>,
      mo_start = (\<lambda>i node remote conf t n. (Inl Capacity, n + t)), mo_stop = (\<lambda>i n. (Inr (), n)),
      mo_ready = (\<lambda>i n. (True, n)), mo_message = (\<lambda>e. ''full'')\<rparr>"

theorem client_helper_agree_witness:
  "serve_client (\<lambda>_. Some (StartWorker (WorkerId 1) (NodeId ''n'') sample_remote ''c'' 5)) (\<lambda>_. Some [2]) sample_manager
     (stream_of (frame_bytes [1])) 0 = (Inr (), (stream_of [])\<lparr>c_out := frame_bytes [2]\<rparr>, 1000)"
proof -
  let ?q = "StartWorker (WorkerId 1) (NodeId ''n'') sample_remote ''c'' 5"
  have ok: "frame_ok [1]" "frame_ok [2]" by (simp_all add: frame_ok_def MAX_FRAME_BYTES_def)
  have h: "handle_request sample_manager ?q 0 = (ErrorResponse ''capacityExhausted'' ''full'', 1000)"
    by (simp add: sample_manager_def error_response_def clamp_timeout_def)
  from client_helper_agree [of "\<lambda>_. Some [1]" ?q "[1]" "\<lambda>_. Some ?q" sample_manager 0 _ 1000 "\<lambda>_. Some [2]" "[2]"
      "\<lambda>_. Some (ErrorResponse ''capacityExhausted'' ''full'')", OF _ _ ok(1) h _ _ ok(2)]
  show ?thesis by simp
qed

section \<open>Set-up\<close>

lemma must_Inr [result_simps]: "must os err c l = (Inr u, l') \<longleftrightarrow> os l c = Done \<and> l' = l @ [(c, Done)]"
  by (auto simp: must_def call_def)

text \<open>The helper listens only behind the root firewall.\<close>

lemma netd_setup_guarded:
  assumes "netd_setup os linux message resolved runtime_dir netd_socket gid web_port socks_port l = (Inr upstream, l')"
  shows "\<exists>before after. l' = before @ (Bind netd_socket, Done) # after
    \<and> (RunInput ''nft'' [''-f'', ''-''] (root_guard_script upstream web_port socks_port), Done) \<in> set before"
proof -
  obtain l1 l2 l3 where g: "prepare_root_network os upstream web_port socks_port l1 = (Inr (), l2)"
    and r: "remove_stale_socket os netd_socket l2 = (Inr (), l3)"
    and b: "must_all os (\<lambda>_. RuntimeFailed) [Chown netd_socket 0 gid, SetMode netd_socket (octal 6 6 0)]
        (l3 @ [(Bind netd_socket, Done)]) = (Inr (), l')"
    using assms by (auto simp: netd_setup_def Let_def result_simps split: if_splits)
  have "(RunInput ''nft'' [''-f'', ''-''] (root_guard_script upstream web_port socks_port), Done) \<in> set l2"
    using g by (auto simp: prepare_root_network_def result_simps)
  then have "(RunInput ''nft'' [''-f'', ''-''] (root_guard_script upstream web_port socks_port), Done) \<in> set l3"
    using r by (auto simp: remove_stale_socket_def call_def split: if_splits)
  moreover have "\<exists>after. l' = l3 @ (Bind netd_socket, Done) # after" using b by (auto simp: result_simps)
  ultimately show ?thesis by blast
qed

lemma frees_frame: "frees f A B \<Longrightarrow> frees f (R \<union> A) (R \<union> B)"
  unfolding clears_def
proof
  fix l
  assume "\<forall>l. \<exists>new. f l = l @ new \<and> foldl after_event A new \<subseteq> B"
  then obtain new where "f l = l @ new" "held A new \<subseteq> B" unfolding held_def by blast
  with held_frame [of R A new] show "\<exists>new. f l = l @ new \<and> foldl after_event (R \<union> A) new \<subseteq> R \<union> B"
    unfolding held_def by blast
qed

lemma netd_shutdown_frees:
  "\<exists>new. netd_shutdown os workers netd_socket l = l @ new
     \<and> held (R \<union> (\<Union>(a, dir) \<in> set workers. worker_all a dir)) new \<subseteq> R"
proof -
  let ?stop = "\<lambda>l (a, dir). stop_process os a dir l"
  have "frees (\<lambda>l. foldl ?stop l workers) (R \<union> (\<Union>(a, dir) \<in> set workers. worker_all a dir)) R" for R
  proof (induction workers arbitrary: R)
    case (Cons w ws)
    obtain a dir where w: "w = (a, dir)" by (cases w)
    let ?rest = "R \<union> (\<Union>(a, dir) \<in> set ws. worker_all a dir)"
    have "frees (stop_process os a dir) (?rest \<union> worker_all a dir) ?rest"
      using frees_frame [OF clears_all [of os a dir], of ?rest] by simp
    from resources.clears_comp [OF this Cons.IH] show ?case by (simp add: w Un_commute Un_left_commute Un_assoc)
  qed (simp add: clears_def)
  then obtain n where n: "foldl ?stop l workers = l @ n" "held (R \<union> (\<Union>(a, dir) \<in> set workers. worker_all a dir)) n \<subseteq> R"
    unfolding clears_def held_def by blast
  then show ?thesis
    by (auto simp: netd_shutdown_def call_def attempt_call_def Let_def after_event_def)
qed

end
