(* ===== verification/Netd_Server.thy ===== *)
theory Netd_Server
  imports Netd_System
begin

text \<open>
  The accept loop of the privileged helper, \<open>run_netd\<close> of \<open>src/src/netd/system.rs\<close>, with its
  client tasks: at most 32 permits, a \<open>JoinSet\<close> of tasks that run or wait to be joined, and the
  end of the process, which breaks the loop on cancellation, joins every task and then stops all
  workers.  A client task goes through the atomic sections of \<open>Netd_Workers\<close>; what happens to it
  between two sections (reading the request, the waits of a start) is not visible to others.
  The theory shows that the server runs the worker manager of \<open>Netd_Workers\<close>, and that the
  shutdown ends.
\<close>

section \<open>State\<close>

datatype client = Reading | Cleared worker_id | Starting worker_id | Stopping u16 | Replying | Ended

datatype server_phase = Accepting | Draining | Returned "netd_server_error + unit"

record netd_server =
  sv_phase :: server_phase
  sv_cancelled :: bool
  sv_permits :: nat
  sv_clients :: "client list"
  sv_manager :: netd_state

definition server_new :: "nat \<Rightarrow> netd_server" where
  "server_new max_parallel_tests =
     \<lparr>sv_phase = Accepting, sv_cancelled = False, sv_permits = MAX_CLIENTS, sv_clients = [],
      sv_manager = manager_new max_parallel_tests\<rparr>"

section \<open>A client task\<close>

text \<open>
  \<open>serve_client\<close>: the request is read and decoded; a start first asks \<open>ensure_running\<close>; the
  reservation and, unless it was handed to the worker table, the lease are dropped when \<open>start\<close>
  returns; the reply is written last.
\<close>

inductive client_step :: "bool \<Rightarrow> client \<times> netd_state \<Rightarrow> client \<times> netd_state \<Rightarrow> bool"
  for cancelled :: bool where
  bad_request: "client_step cancelled (Reading, m) (Ended, m)"
| answered_at_once: "client_step cancelled (Reading, m) (Replying, m)"
| start_running: "\<not> cancelled \<Longrightarrow> client_step cancelled (Reading, m) (Cleared i, m)"
| start_reserved: "reserve_insert i m = Inr m' \<Longrightarrow> client_step cancelled (Cleared i, m) (Starting i, m')"
| start_duplicate: "reserve_insert i m = Inl e \<Longrightarrow> client_step cancelled (Cleared i, m) (Replying, m)"
| start_counted: "map_of (nd_tasks m) i = Some Inserted \<Longrightarrow> reserve_count i m = Inr m'
    \<Longrightarrow> client_step cancelled (Starting i, m) (Starting i, m')"
| start_admitted: "map_of (nd_tasks m) i = Some (Counted r) \<Longrightarrow> reserve_admit i r m = Inr m'
    \<Longrightarrow> client_step cancelled (Starting i, m) (Starting i, m')"
| start_allocated: "map_of (nd_tasks m) i = Some Admitted \<Longrightarrow> start_allocate i m = (Inr a, m')
    \<Longrightarrow> client_step cancelled (Starting i, m) (Starting i, m')"
| start_unallocated: "map_of (nd_tasks m) i = Some Admitted \<Longrightarrow> start_allocate i m = (Inl e, m')
    \<Longrightarrow> client_step cancelled (Starting i, m) (Replying, start_abandon i m')"
| start_inserted: "map_of (nd_tasks m) i = Some (Holding index) \<Longrightarrow> start_commit i index m = Inr m'
    \<Longrightarrow> client_step cancelled (Starting i, m) (Starting i, m')"
| start_returned: "client_step cancelled (Starting i, m) (Replying, start_abandon i m)"
| stop_removed: "map_of (nd_workers m) i = Some index \<Longrightarrow> stop_remove i m = Inr m'
    \<Longrightarrow> client_step cancelled (Reading, m) (Stopping index, m')"
| stop_returned: "client_step cancelled (Stopping index, m) (Replying, stop_finish index m)"
| replied: "client_step cancelled (Replying, m) (Ended, m)"

section \<open>The loop\<close>

definition accept_client :: "netd_server \<Rightarrow> netd_server" where
  "accept_client s =
     (if sv_permits s = 0 then s
      else s\<lparr>sv_permits := sv_permits s - 1, sv_clients := sv_clients s @ [Reading]\<rparr>)"

text \<open>The permit lives as long as the task; the finished task stays in the set until it is joined.\<close>

definition advance :: "client list \<Rightarrow> client \<times> netd_state \<Rightarrow> client list \<Rightarrow> netd_server \<Rightarrow> netd_server" where
  "advance before cm after s =
     s\<lparr>sv_clients := before @ fst cm # after, sv_manager := snd cm,
       sv_permits := sv_permits s + (if fst cm = Ended then 1 else 0)\<rparr>"

definition finish_server :: "netd_server \<Rightarrow> netd_server" where
  "finish_server s = s\<lparr>sv_phase := Returned (Inr ()), sv_manager := stop_all (sv_manager s)\<rparr>"

inductive server_step :: "netd_server \<Rightarrow> netd_server \<Rightarrow> bool" where
  sv_cancel: "sv_phase s = Accepting \<Longrightarrow> \<not> sv_cancelled s \<Longrightarrow> server_step s (s\<lparr>sv_cancelled := True\<rparr>)"
| sv_accept: "sv_phase s = Accepting \<Longrightarrow> server_step s (accept_client s)"
| sv_accept_failed: "sv_phase s = Accepting \<Longrightarrow> server_step s (s\<lparr>sv_phase := Returned (Inl AcceptFailed)\<rparr>)"
| sv_break: "sv_phase s = Accepting \<Longrightarrow> sv_cancelled s \<Longrightarrow> server_step s (s\<lparr>sv_phase := Draining\<rparr>)"
| sv_client: "sv_phase s \<in> {Accepting, Draining} \<Longrightarrow> sv_clients s = before @ c # after
    \<Longrightarrow> client_step (sv_cancelled s) (c, sv_manager s) cm \<Longrightarrow> server_step s (advance before cm after s)"
| sv_join: "sv_phase s \<in> {Accepting, Draining} \<Longrightarrow> sv_clients s = before @ Ended # after
    \<Longrightarrow> server_step s (s\<lparr>sv_clients := before @ after\<rparr>)"
| sv_finish: "sv_phase s = Draining \<Longrightarrow> sv_clients s = [] \<Longrightarrow> server_step s (finish_server s)"

section \<open>Invariant\<close>

fun starting_id :: "client \<Rightarrow> worker_id option" where
  "starting_id (Starting i) = Some i"
| "starting_id _ = None"

fun stopping_index :: "client \<Rightarrow> u16 option" where
  "stopping_index (Stopping index) = Some index"
| "stopping_index _ = None"

text \<open>
  The reservations are those of the client tasks inside \<open>start\<close>, the leases being returned those
  of the tasks inside \<open>stop\<close>, and a permit is missing for every task that has not ended.
\<close>

definition clients_ok :: "client list \<Rightarrow> netd_state \<Rightarrow> bool" where
  "clients_ok cs m \<longleftrightarrow>
     mset (List.map_filter starting_id cs) = mset (map fst (nd_tasks m))
     \<and> mset (List.map_filter stopping_index cs) = mset (nd_stopping m)"

definition server_ok :: "netd_server \<Rightarrow> bool" where
  "server_ok s \<longleftrightarrow>
     sv_permits s + length (filter (\<lambda>c. c \<noteq> Ended) (sv_clients s)) = MAX_CLIENTS
     \<and> (sv_phase s = Draining \<longrightarrow> sv_cancelled s)
     \<and> (sv_phase s \<in> {Accepting, Draining} \<longrightarrow> clients_ok (sv_clients s) (sv_manager s))
     \<and> (sv_phase s = Returned (Inr ()) \<longrightarrow>
          nd_workers (sv_manager s) = [] \<and> nd_tasks (sv_manager s) = [] \<and> nd_stopping (sv_manager s) = [])
     \<and> reachable (\<lambda>m. \<exists>n. m = manager_new n) netd_step (sv_manager s)"

lemma slots_of_clients:
  assumes "clients_ok cs m"
  shows "length (nd_tasks m) + length (nd_stopping m) + length (filter (\<lambda>c. c \<in> {Reading, Replying} \<or> (\<exists>i. c = Cleared i)) cs)
    = length (filter (\<lambda>c. c \<noteq> Ended) cs)"
proof -
  have "length (List.map_filter starting_id cs) + length (List.map_filter stopping_index cs)
      + length (filter (\<lambda>c. c \<in> {Reading, Replying} \<or> (\<exists>i. c = Cleared i)) cs) = length (filter (\<lambda>c. c \<noteq> Ended) cs)"
  proof (induction cs)
    case (Cons c cs)
    then show ?case by (cases c) (simp_all add: List.map_filter_simps)
  qed (simp add: List.map_filter_simps)
  moreover have "length (List.map_filter starting_id cs) = length (nd_tasks m)"
    "length (List.map_filter stopping_index cs) = length (nd_stopping m)"
    using assms mset_eq_length [of "List.map_filter starting_id cs" "map fst (nd_tasks m)"]
      mset_eq_length [of "List.map_filter stopping_index cs" "nd_stopping m"] by (simp_all add: clients_ok_def)
  ultimately show ?thesis by (simp only:)
qed

lemma waiting_client_slot:
  assumes "clients_ok (before @ c # after) m" "c = Reading \<or> (\<exists>i. c = Cleared i)"
    and "length (filter (\<lambda>c. c \<noteq> Ended) (before @ c # after)) \<le> MAX_CLIENTS"
  shows "client_slot m"
  using slots_of_clients [OF assms(1)] assms(2,3) by (auto simp: client_slot_def)


section \<open>The server runs the worker manager\<close>

lemma keys_delete:
  assumes "distinct (map fst al)" "map_of al i = Some v"
  shows "mset (map fst al) = add_mset i (mset (map fst (AList.delete i al)))"
  using assms by (rule alist_split) auto

lemma keys_update:
  "map_of al i = Some v \<Longrightarrow> image_mset fst (mset (AList.update i w al)) = image_mset fst (mset al)"
  "i \<notin> fst ` set al \<Longrightarrow> image_mset fst (mset (AList.update i w al)) = add_mset i (image_mset fst (mset al))"
  using update_keys [of i w al] by (auto simp flip: mset_map simp: map_of_eq_None_iff [symmetric])

lemma tasks_abandon [simp]:
  "nd_tasks (start_abandon i m) = AList.delete i (nd_tasks m)" "nd_stopping (start_abandon i m) = nd_stopping m"
  by (auto simp: start_abandon_def drop_reservation_def release_lease_def split: option.splits task.splits)

lemma allocate_tasks:
  "start_allocate i m = (Inl e, m') \<Longrightarrow> nd_tasks m' = nd_tasks m \<and> nd_stopping m' = nd_stopping m"
  "start_allocate i m = (Inr a, m') \<Longrightarrow> nd_tasks m' = AList.update i (Holding (na_index a)) (nd_tasks m) \<and> nd_stopping m' = nd_stopping m"
  by (auto simp: start_allocate_def allocate_network_def take_index_def set_task_def split: prod.splits sum.splits if_splits)

lemma starting_has_task:
  assumes "clients_ok (before @ Starting i # after) m"
  obtains t where "map_of (nd_tasks m) i = Some t"
proof -
  have "set (List.map_filter starting_id (before @ Starting i # after)) = set (map fst (nd_tasks m))"
    using assms unfolding clients_ok_def by (blast dest: mset_eq_setD)
  then have "i \<in> fst ` set (nd_tasks m)" by (auto simp: List.map_filter_simps)
  then show ?thesis using that by (metis map_of_eq_None_iff not_None_eq)
qed

lemma client_step_clients:
  assumes "client_step k (c, m) (c', m')" and "clients_ok (before @ c # after) m" and "distinct (map fst (nd_tasks m))"
  shows "clients_ok (before @ c' # after) m'"
  using assms(1)
proof cases
  case (start_returned i)
  then obtain t where "map_of (nd_tasks m) i = Some t" using assms(2) starting_has_task by blast
  from keys_delete [OF assms(3) this] assms(2) start_returned show ?thesis
    by (simp add: clients_ok_def List.map_filter_simps)
next
  case (start_unallocated i e m1)
  from keys_delete [OF assms(3) start_unallocated(4)] assms(2) allocate_tasks(1) [OF start_unallocated(5)] start_unallocated(1-3)
  show ?thesis by (simp add: clients_ok_def List.map_filter_simps)
next
  case (stop_returned index)
  with assms(2) have "mset (nd_stopping m) = add_mset index (mset (List.map_filter stopping_index (before @ after)))"
    by (simp add: clients_ok_def List.map_filter_simps)
  with stop_returned assms(2) show ?thesis
    by (simp add: clients_ok_def List.map_filter_simps stop_finish_def release_lease_def)
qed (use assms(2) allocate_tasks(2) in
    \<open>auto simp: clients_ok_def List.map_filter_simps netd_sections keys_update map_of_eq_None_iff split: if_splits\<close>)

lemma client_step_manager:
  assumes "client_step k (c, m) (c', m')" and "clients_ok (before @ c # after) m"
    and "length (filter (\<lambda>c. c \<noteq> Ended) (before @ c # after)) \<le> MAX_CLIENTS"
    and r: "reachable I netd_step m"
  shows "reachable I netd_step m'"
  using assms(1)
proof cases
  case (start_returned i)
  then obtain t where "map_of (nd_tasks m) i = Some t" using assms(2) starting_has_task by blast
  from reach_step [OF r step_abandon [OF this]] show ?thesis using start_returned by simp
next
  case (start_unallocated i e m1)
  have "map_of (nd_tasks m1) i = Some Admitted" using allocate_tasks(1) [OF start_unallocated(5)] start_unallocated(4) by simp
  from reach_step [OF reach_step [OF r step_allocate_failed [OF start_unallocated(4,5)]] step_abandon [OF this]]
  show ?thesis using start_unallocated by simp
next
  case (stop_returned index)
  have "set (List.map_filter stopping_index (before @ c # after)) = set (nd_stopping m)"
    using assms(2) unfolding clients_ok_def by (blast dest: mset_eq_setD)
  then have "index \<in> set (nd_stopping m)" using stop_returned by (auto simp: List.map_filter_simps)
  from reach_step [OF r step_finish [OF this]] show ?thesis using stop_returned by simp
qed (use r waiting_client_slot [OF assms(2) _ assms(3)] in \<open>blast intro: reach_step netd_step.intros\<close>)+


lemma manager_tasks_distinct:
  "reachable (\<lambda>m. \<exists>n. m = manager_new n) netd_step m \<Longrightarrow> distinct (map fst (nd_tasks m))"
  using manager.reachable_inv by (simp add: netd_ok_def)

lemma advance_ok:
  assumes "server_ok s" "sv_phase s \<in> {Accepting, Draining}" "sv_clients s = before @ c # after"
    and "client_step (sv_cancelled s) (c, sv_manager s) cm"
  shows "server_ok (advance before cm after s)"
proof -
  obtain c' m' where cm: "cm = (c', m')" by (cases cm)
  have ok: "clients_ok (before @ c # after) (sv_manager s)"
    and n: "sv_permits s + length (filter (\<lambda>c. c \<noteq> Ended) (before @ c # after)) = MAX_CLIENTS"
    and r: "reachable (\<lambda>m. \<exists>n. m = manager_new n) netd_step (sv_manager s)"
    using assms(1-3) by (auto simp: server_ok_def)
  have step: "client_step (sv_cancelled s) (c, sv_manager s) (c', m')" using assms(4) cm by simp
  have "c \<noteq> Ended" using step by cases auto
  moreover have "clients_ok (before @ c' # after) m'"
    by (rule client_step_clients [OF step ok manager_tasks_distinct [OF r]])
  moreover have "reachable (\<lambda>m. \<exists>n. m = manager_new n) netd_step m'"
    by (rule client_step_manager [OF step ok _ r]) (use n in simp)
  ultimately show ?thesis using assms(1,2) n cm by (auto simp: server_ok_def advance_def)
qed

lemma finish_server_ok:
  assumes "server_ok s" "sv_phase s = Draining" "sv_clients s = []"
  shows "server_ok (finish_server s)"
proof -
  have "nd_tasks (sv_manager s) = []" "nd_stopping (sv_manager s) = []"
    using assms by (auto simp: server_ok_def clients_ok_def List.map_filter_simps)
  moreover from this have "netd_step (sv_manager s) (stop_all (sv_manager s))" by (rule step_stop_all)
  ultimately show ?thesis
    using assms by (auto simp: server_ok_def finish_server_def stop_all_def [of "sv_manager s"] intro: reach_step)
qed

lemma server_step_ok: "server_ok s \<Longrightarrow> server_step s s' \<Longrightarrow> server_ok s'"
proof (erule server_step.cases, goal_cases)
  case (5 s before c after cm)
  then show ?case using advance_ok by blast
next
  case (7 s)
  then show ?case using finish_server_ok by blast
qed (auto simp: server_ok_def accept_client_def clients_ok_def List.map_filter_simps)

section \<open>The shutdown ends\<close>

text \<open>The number of sections a task may still run, and the steps left until the server returns.\<close>

fun task_rank :: "task \<Rightarrow> nat" where
  "task_rank Inserted = 5"
| "task_rank (Counted _) = 4"
| "task_rank Admitted = 3"
| "task_rank (Holding _) = 2"
| "task_rank Committed = 1"

fun client_rank :: "netd_state \<Rightarrow> client \<Rightarrow> nat" where
  "client_rank m Reading = 9"
| "client_rank m (Cleared _) = 8"
| "client_rank m (Starting i) = 2 + (case map_of (nd_tasks m) i of None \<Rightarrow> 0 | Some t \<Rightarrow> task_rank t)"
| "client_rank m (Stopping _) = 2"
| "client_rank m Replying = 1"
| "client_rank m Ended = 0"

definition server_weight :: "netd_server \<Rightarrow> nat" where
  "server_weight s =
     (\<Sum>c\<leftarrow>sv_clients s. Suc (client_rank (sv_manager s) c)) + (if sv_phase s = Draining then 1 else 0)"

lemma client_step_rank:
  "client_step k (c, m) (c', m') \<Longrightarrow> client_rank m' c' < client_rank m c"
  by (erule client_step.cases)
     (auto simp: netd_sections update_conv' dest!: allocate_tasks(2) split: if_splits option.splits)

lemma client_step_others:
  "client_step k (c, m) (c', m') \<Longrightarrow> starting_id c \<noteq> Some j \<Longrightarrow> starting_id c' \<noteq> Some j
   \<Longrightarrow> map_of (nd_tasks m') j = map_of (nd_tasks m) j"
  by (erule client_step.cases)
     (auto simp: netd_sections update_conv' delete_conv' dest!: allocate_tasks split: if_splits option.splits task.splits)


lemma others_rank:
  assumes "distinct (List.map_filter starting_id (before @ c # after))"
    and "distinct (List.map_filter starting_id (before @ c' # after))"
    and "client_step k (c, m) (c', m')" and "d \<in> set before \<union> set after"
  shows "client_rank m' d = client_rank m d"
proof (cases d)
  case (Starting j)
  have mem: "Starting j \<in> set xs \<Longrightarrow> j \<in> set (List.map_filter starting_id xs)" for xs
    by (force simp: List.map_filter_def)
  have "starting_id e \<noteq> Some j" if "distinct (List.map_filter starting_id (before @ e # after))" for e
    using that assms(4) Starting mem [of before] mem [of after] by (auto simp: List.map_filter_simps)
  then show ?thesis using client_step_others [OF assms(3)] assms(1,2) Starting by simp
qed simp_all

lemma draining_weight:
  assumes "server_ok s" "sv_phase s = Draining" "server_step s s'"
  shows "server_weight s' < server_weight s \<and> (sv_phase s' = Draining \<or> sv_phase s' = Returned (Inr ()))"
  using assms(3)
proof cases
  case (sv_client before c after cm)
  obtain c' m' where cm: "cm = (c', m')" by (cases cm)
  have ids: "distinct (List.map_filter starting_id (sv_clients t))" if "server_ok t" "sv_phase t = Draining" for t
    using that manager_tasks_distinct [of "sv_manager t"] mset_eq_imp_distinct_iff
    unfolding server_ok_def clients_ok_def by blast
  have "server_ok s'" "sv_phase s' = Draining" "sv_clients s' = before @ c' # after"
    using server_step_ok [OF assms(1,3)] sv_client(1) assms(2) cm by (simp_all add: advance_def)
  then have d: "distinct (List.map_filter starting_id (before @ c' # after))"
    "distinct (List.map_filter starting_id (before @ c # after))"
    using ids [of s'] ids [of s] assms(1,2) sv_client(3) by simp_all
  have step: "client_step (sv_cancelled s) (c, sv_manager s) (c', m')" using sv_client(4) cm by simp
  have "(\<Sum>d\<leftarrow>ds. Suc (client_rank m' d)) = (\<Sum>d\<leftarrow>ds. Suc (client_rank (sv_manager s) d))"
    if "set ds \<subseteq> set before \<union> set after" for ds
    using that others_rank [OF d(2,1) step] by (intro arg_cong [of _ _ sum_list] map_cong) auto
  then show ?thesis using client_step_rank [OF step] sv_client(1,3) cm assms(2)
    by (simp add: server_weight_def advance_def)
qed (use assms(2) in \<open>simp_all add: server_weight_def finish_server_def\<close>)

lemma draining_progress:
  assumes "server_ok s" "sv_phase s = Draining"
  shows "\<exists>s'. server_step s s'"
proof (cases "sv_clients s")
  case Nil
  then show ?thesis using assms(2) sv_finish by blast
next
  case (Cons c cs)
  show ?thesis
  proof (cases "c = Ended")
    case True
    then show ?thesis using assms(2) Cons sv_join [of s "[]" cs] by auto
  next
    case False
    then obtain cm where "client_step (sv_cancelled s) (c, sv_manager s) cm"
      by (cases c; cases "reserve_insert (case c of Cleared i \<Rightarrow> i) (sv_manager s)") (auto intro: client_step.intros)
    then show ?thesis using assms(2) Cons sv_client [of s "[]" c cs cm] by auto
  qed
qed

interpretation server: terminating_phase "\<lambda>s. \<exists>n. s = server_new n" server_step server_ok
  "\<lambda>s. sv_phase s = Draining" "\<lambda>s. sv_phase s = Returned (Inr ())" server_weight
proof
  show "server_ok s" if "\<exists>n. s = server_new n" for s
    using that by (auto simp: server_ok_def server_new_def clients_ok_def manager_new_def List.map_filter_simps
        intro!: reach_init)
  show "\<not> server_step s s'" if "sv_phase s = Returned (Inr ())" for s s'
    using that by (auto elim: server_step.cases)
qed (use server_step_ok draining_weight draining_progress in blast)+


section \<open>Properties of the helper's server\<close>

text \<open>A server whose only client has finished a request when the process is told to stop.\<close>

definition stopping_server :: netd_server where
  "stopping_server =
     (server_new 4)\<lparr>sv_cancelled := True, sv_phase := Draining, sv_permits := 31, sv_clients := [Replying]\<rparr>"

lemma stopping_server_reachable: "reachable (\<lambda>s. \<exists>n. s = server_new n) server_step stopping_server"
proof -
  let ?a = "accept_client (server_new 4)"
  let ?b = "advance [] (Replying, manager_new 4) [] ?a"
  have a: "reachable (\<lambda>s. \<exists>n. s = server_new n) server_step ?a"
    by (rule reach_step [OF reach_init]) (auto simp: server_new_def intro: sv_accept)
  have b: "reachable (\<lambda>s. \<exists>n. s = server_new n) server_step ?b"
    by (rule reach_step [OF a sv_client [of _ "[]" Reading]])
       (auto simp: server_new_def accept_client_def MAX_CLIENTS_def intro: client_step.intros)
  have c: "reachable (\<lambda>s. \<exists>n. s = server_new n) server_step (?b\<lparr>sv_cancelled := True\<rparr>)"
    by (rule reach_step [OF b sv_cancel]) (simp_all add: server_new_def accept_client_def advance_def MAX_CLIENTS_def)
  have d: "reachable (\<lambda>s. \<exists>n. s = server_new n) server_step (?b\<lparr>sv_cancelled := True, sv_phase := Draining\<rparr>)"
    by (rule reach_step [OF c sv_break]) (simp_all add: server_new_def accept_client_def advance_def MAX_CLIENTS_def)
  have "?b\<lparr>sv_cancelled := True, sv_phase := Draining\<rparr> = stopping_server"
    by (simp add: stopping_server_def server_new_def accept_client_def advance_def MAX_CLIENTS_def)
  with d show ?thesis by simp
qed

lemma client_rank_bound: "client_rank m c \<le> 9"
proof (cases c)
  case (Starting i)
  have "task_rank t \<le> 7" for t by (cases t) simp_all
  then show ?thesis using Starting by (simp split: option.split)
qed simp_all

lemma server_weight_bound: "server_weight s \<le> 10 * length (sv_clients s) + 1"
proof -
  have sum: "(\<Sum>c\<leftarrow>cs. Suc (client_rank m c)) \<le> 10 * length cs" for m cs
  proof (induction cs)
    case (Cons c cs)
    then show ?case using client_rank_bound [of m c] by simp
  qed simp
  show ?thesis using sum [of "sv_manager s" "sv_clients s"] by (simp add: server_weight_def)
qed

lemma lease_ok_all:
  assumes "lease_ok n ls"
  shows "unat ` set ls = {1..<unat n}"
proof (rule card_subset_eq)
  have "card (unat ` set ls) = card (set ls)" by (rule card_image) (auto simp: inj_on_def word_unat_eq_iff)
  then show "card (unat ` set ls) = card {1..<unat n}"
    using assms by (auto simp: lease_ok_def distinct_card)
qed (use assms in \<open>auto simp: lease_ok_def list_all_iff Suc_le_eq\<close>)

text \<open>
  C14.  The helper's shutdown ends, with everything released.  Once the accept loop is broken, no run
  of the server is infinite, whatever the client tasks do: a run has at most as many steps as
  \<open>server_weight\<close>, ten for each client task and one for the end.  A run that cannot
  go on has returned without an error, and then no worker is left, no start or stop is in
  progress, and every network index that was ever handed out is back on the free list.
\<close>

theorem shutdown_ends:
  assumes "reachable (\<lambda>s. \<exists>n. s = server_new n) server_step s" and "sv_phase s = Draining"
  shows "(\<forall>n s'. (server_step ^^ n) s s' \<longrightarrow> n \<le> 10 * length (sv_clients s) + 1)
    \<and> (\<forall>s'. server_step\<^sup>*\<^sup>* s s' \<and> (\<nexists>u. server_step s' u) \<longrightarrow>
         sv_phase s' = Returned (Inr ()) \<and> nd_workers (sv_manager s') = [] \<and> nd_tasks (sv_manager s') = []
         \<and> nd_stopping (sv_manager s') = [] \<and> distinct (nd_free (sv_manager s'))
         \<and> unat ` set (nd_free (sv_manager s')) = {1..<unat (nd_next (sv_manager s'))})"
proof (intro conjI allI impI, goal_cases)
  case (1 n s')
  have "server_ok s" using assms(1) by (rule server.reachable_inv)
  then show ?case using server.run_bounded [OF 1 _ assms(2)] server_weight_bound [of s] by simp
next
  have ok: "server_ok s" using assms(1) by (rule server.reachable_inv)
  case (2 s')
  then show "sv_phase s' = Returned (Inr ())" using server.stuck_finished [OF ok assms(2)] by blast
  moreover have "server_ok s'" using server.steps_inv [OF _ ok] 2 by blast
  ultimately have "nd_workers (sv_manager s') = []" "nd_tasks (sv_manager s') = []" "nd_stopping (sv_manager s') = []"
    and m: "netd_ok (sv_manager s')"
    using manager.reachable_inv by (auto simp: server_ok_def)
  then show "nd_workers (sv_manager s') = []" "nd_tasks (sv_manager s') = []" "nd_stopping (sv_manager s') = []"
    "distinct (nd_free (sv_manager s'))" "unat ` set (nd_free (sv_manager s')) = {1..<unat (nd_next (sv_manager s'))}"
    using lease_ok_all [of "nd_next (sv_manager s')" "nd_free (sv_manager s')"]
    by (simp_all add: netd_ok_def leases_def lease_ok_def List.map_filter_simps)
qed

theorem shutdown_ends_witness:
  "sv_phase stopping_server = Draining \<and> (\<nexists>s'. (server_step ^^ 12) stopping_server s')"
proof -
  have "sv_phase stopping_server = Draining" "sv_clients stopping_server = [Replying]"
    by (simp_all add: stopping_server_def)
  with shutdown_ends [OF stopping_server_reachable] show ?thesis by fastforce
qed

text \<open>
  C15.  The server runs the worker manager.  Whatever clients connect and whatever they send, the
  manager is always in a state that its own interleavings (\<open>netd_step\<close>, with the bound of 32
  clients built in) can reach; at most 32 client tasks are unfinished, and while the server runs
  the reservations are exactly those of the tasks inside \<open>start\<close> and the leases being returned
  exactly those of the tasks inside \<open>stop\<close>.
\<close>

theorem server_runs_manager:
  assumes "reachable (\<lambda>s. \<exists>n. s = server_new n) server_step s"
  shows "reachable (\<lambda>m. \<exists>n. m = manager_new n) netd_step (sv_manager s)
    \<and> length (filter (\<lambda>c. c \<noteq> Ended) (sv_clients s)) \<le> MAX_CLIENTS
    \<and> (sv_phase s \<in> {Accepting, Draining} \<longrightarrow> clients_ok (sv_clients s) (sv_manager s))"
  using server.reachable_inv [OF assms] by (auto simp: server_ok_def)

theorem server_runs_manager_witness: "clients_ok [Replying] (sv_manager stopping_server)"
  using server_runs_manager [OF stopping_server_reachable] by (simp add: stopping_server_def)

end
