(* ===== verification/Firewall.thy ===== *)
theory Firewall
  imports Netd_System
begin

text \<open>
  What the firewall scripts of \<open>src/src/netd/system.rs\<close> let through.  The scripts are text for
  the \<open>nft\<close> program; this theory gives the rules they are written from, proves that the text is
  exactly the rendering of those rules, and derives from the rules which packets can leave a
  worker's namespace and which the host forwards.  How \<open>nft\<close> and the kernel treat a loaded script
  is an argument; \<open>filters_as_documented\<close> states what is relied on: a packet that reaches a hook
  gets the verdict of the first rule it matches, else the policy of the chain.
\<close>

section \<open>Rules\<close>

datatype match_expr =
    IifName string
  | OifName string
  | IpSaddr ipv4addr
  | IpDaddr ipv4addr
  | TcpSport u16
  | TcpDport "u16 list"
  | Tracked

datatype verdict = Accept | Drop

type_synonym rule = "match_expr list \<times> verdict"

datatype chain = Filter string "rule list" | Masquerade

definition quote :: "string \<Rightarrow> string" where
  "quote s = [CHR 0x22] @ s @ [CHR 0x22]"

fun render_ports :: "u16 list \<Rightarrow> string" where
  "render_ports [p] = show_nat (unat p)"
| "render_ports (p # ps) = show_nat (unat p) @ '', '' @ render_ports ps"
| "render_ports [] = []"

fun render_match :: "match_expr \<Rightarrow> string" where
  "render_match (IifName n) = ''iifname '' @ quote n @ '' ''"
| "render_match (OifName n) = ''oifname '' @ quote n @ '' ''"
| "render_match (IpSaddr a) = ''ip saddr '' @ show_ipv4 a @ '' ''"
| "render_match (IpDaddr a) = ''ip daddr '' @ show_ipv4 a @ '' ''"
| "render_match (TcpSport p) = ''tcp sport '' @ show_nat (unat p) @ '' ''"
| "render_match (TcpDport [p]) = ''tcp dport '' @ show_nat (unat p) @ '' ''"
| "render_match (TcpDport ps) = ''tcp dport { '' @ render_ports ps @ '' } ''"
| "render_match Tracked = ''ct state established,related ''"

fun render_verdict :: "verdict \<Rightarrow> string" where
  "render_verdict Accept = ''accept''"
| "render_verdict Drop = ''drop''"

definition render_rule :: "rule \<Rightarrow> string" where
  "render_rule r = ''        '' @ concat (map render_match (fst r)) @ render_verdict (snd r)"

fun render_chain :: "chain \<Rightarrow> string list" where
  "render_chain (Filter hook rules) =
     [''    chain '' @ hook @ '' {'', ''        type filter hook '' @ hook @ '' priority filter; policy drop;'']
     @ map render_rule rules @ [''    }'']"
| "render_chain Masquerade =
     [''    chain postrouting {'', ''        type nat hook postrouting priority srcnat; policy accept;'',
      ''        ip saddr 10.231.0.0/16 masquerade'', ''    }'']"

definition render_table :: "string \<Rightarrow> chain list \<Rightarrow> string" where
  "render_table name table =
     unlines ([[], ''table inet '' @ name @ '' {''] @ concat (map render_chain table) @ [''}''])"

section \<open>The two tables\<close>

definition root_guard :: "resolved_upstream \<Rightarrow> u16 \<Rightarrow> u16 \<Rightarrow> chain list" where
  "root_guard upstream web_port socks_port =
     (let ip = sock_ip (ru_address upstream); port = sock_port (ru_address upstream)
      in [Filter ''input''
            [([IifName ''lo''], Accept), ([IifName ''v2h*''], Drop), ([Tracked], Accept),
             ([TcpDport [web_port, socks_port]], Accept)],
          Filter ''output''
            [([OifName ''lo''], Accept), ([Tracked], Accept), ([IpDaddr ip, TcpDport [port]], Accept)],
          Filter ''forward''
            [([IifName ''v2h*'', IpDaddr ip, TcpDport [port]], Accept),
             ([OifName ''v2h*'', IpSaddr ip, TcpSport port, Tracked], Accept)],
          Masquerade])"

definition worker_table :: "string \<Rightarrow> resolved_upstream \<Rightarrow> chain list" where
  "worker_table worker_veth upstream =
     (let ip = sock_ip (ru_address upstream); port = sock_port (ru_address upstream)
      in [Filter ''input''
            [([IifName ''lo''], Accept), ([IifName worker_veth, IpSaddr ip, TcpSport port, Tracked], Accept),
             ([IifName ''tun0'', Tracked], Accept)],
          Filter ''output''
            [([OifName ''lo''], Accept), ([OifName worker_veth, IpDaddr ip, TcpDport [port]], Accept),
             ([OifName ''tun0''], Accept)]])"

lemma root_guard_rendered:
  "root_guard_script upstream web_port socks_port =
   render_table ''vpngate2socks_root'' (root_guard upstream web_port socks_port)"
  by (simp add: root_guard_script_def render_table_def root_guard_def Let_def render_rule_def quote_def)

lemma worker_guard_rendered:
  "worker_guard_script worker_veth upstream =
   render_table ''vpngate2socks_guard'' (worker_table worker_veth upstream)"
  by (simp add: worker_guard_script_def render_table_def worker_table_def Let_def render_rule_def quote_def)

section \<open>Packets\<close>

record packet =
  pk_iif :: string
  pk_oif :: string
  pk_ipv4 :: "(ipv4addr \<times> ipv4addr) option"
  pk_tcp :: "(u16 \<times> u16) option"
  pk_tracked :: bool

text \<open>An interface name in a rule that ends in a star stands for every name it is a prefix of.\<close>

definition name_matches :: "string \<Rightarrow> string \<Rightarrow> bool" where
  "name_matches pattern name =
     (if pattern \<noteq> [] \<and> last pattern = CHR ''*'' then starts_with (butlast pattern) name else name = pattern)"

fun matches :: "packet \<Rightarrow> match_expr \<Rightarrow> bool" where
  "matches p (IifName n) = name_matches n (pk_iif p)"
| "matches p (OifName n) = name_matches n (pk_oif p)"
| "matches p (IpSaddr a) = is_some_and (\<lambda>h. fst h = a) (pk_ipv4 p)"
| "matches p (IpDaddr a) = is_some_and (\<lambda>h. snd h = a) (pk_ipv4 p)"
| "matches p (TcpSport q) = is_some_and (\<lambda>h. fst h = q) (pk_tcp p)"
| "matches p (TcpDport qs) = is_some_and (\<lambda>h. snd h \<in> set qs) (pk_tcp p)"
| "matches p Tracked = pk_tracked p"

definition filter_accepts :: "rule list \<Rightarrow> packet \<Rightarrow> bool" where
  "filter_accepts rules p =
     (case find (\<lambda>r. list_all (matches p) (fst r)) rules of None \<Rightarrow> False | Some r \<Rightarrow> snd r = Accept)"

text \<open>
  \<open>nft script hook p\<close>: whether \<open>p\<close> passes the hook once the script has been loaded.
\<close>

definition filters_as_documented :: "(string \<Rightarrow> string \<Rightarrow> packet \<Rightarrow> bool) \<Rightarrow> string \<Rightarrow> chain list \<Rightarrow> bool" where
  "filters_as_documented nft name table \<longleftrightarrow>
     list_all (\<lambda>c. case c of
         Filter hook rules \<Rightarrow> nft (render_table name table) hook = filter_accepts rules
       | Masquerade \<Rightarrow> True) table"

definition to_endpoint :: "socket_addr_v4 \<Rightarrow> packet \<Rightarrow> bool" where
  "to_endpoint a p \<longleftrightarrow>
     is_some_and (\<lambda>h. snd h = sock_ip a) (pk_ipv4 p) \<and> is_some_and (\<lambda>h. snd h = sock_port a) (pk_tcp p)"

definition from_endpoint :: "socket_addr_v4 \<Rightarrow> packet \<Rightarrow> bool" where
  "from_endpoint a p \<longleftrightarrow>
     is_some_and (\<lambda>h. fst h = sock_ip a) (pk_ipv4 p) \<and> is_some_and (\<lambda>h. fst h = sock_port a) (pk_tcp p)"

section \<open>What passes\<close>

lemma filter_accepts_simps [simp]:
  "\<not> filter_accepts [] p"
  "filter_accepts ((ms, v) # rules) p \<longleftrightarrow>
     (if list_all (matches p) ms then v = Accept else filter_accepts rules p)"
  by (simp_all add: filter_accepts_def)

lemma name_matches_star [simp]: "name_matches ''v2h*'' n = starts_with ''v2h'' n"
  by (simp add: name_matches_def)

lemma name_matches_plain [simp]: "n \<noteq> [] \<Longrightarrow> last n \<noteq> CHR ''*'' \<Longrightarrow> name_matches n m \<longleftrightarrow> m = n"
  by (simp add: name_matches_def)

lemma hex_digit_plain: "n < 16 \<Longrightarrow> hex_digit n \<noteq> CHR ''*''"
proof -
  have "list_all (\<lambda>n. hex_digit n \<noteq> CHR ''*'') [0..<16]" by code_simp
  then show "n < 16 \<Longrightarrow> hex_digit n \<noteq> CHR ''*''" by (simp add: list_all_iff)
qed

lemma network_interfaces:
  assumes "network_of_index i = Inr a"
  shows "name_matches (na_worker_veth a) n \<longleftrightarrow> n = na_worker_veth a" "starts_with ''v2h'' (na_host_veth a)"
    "na_host_veth a \<noteq> ''lo''"
  using network_of_index_names [OF assms] hex_digit_plain
  by (simp_all add: name_matches_def hex4_def starts_with_def)

text \<open>
  C4.  The guards leave no way around the tunnel.  For every worker network the helper can
  allocate and whatever the upstream proxy is, with the two scripts loaded: inside the worker's
  namespace a packet leaves exactly if it goes to loopback, into the tunnel, or on the worker's own
  link over TCP to the upstream's address and port, and one comes in exactly if it is from
  loopback or belongs to a known connection of the tunnel or of the upstream; the host forwards
  exactly what workers send to the upstream and the answers to that; the host itself opens
  connections only to the upstream, and nothing a worker sends to the host is let in.
\<close>

theorem guards_no_leak:
  assumes "network_of_index i = Inr a"
    and "filters_as_documented nft ''vpngate2socks_guard'' (worker_table (na_worker_veth a) upstream)"
    and "filters_as_documented nft ''vpngate2socks_root'' (root_guard upstream web_port socks_port)"
  shows "(nft (worker_guard_script (na_worker_veth a) upstream) ''output'' p \<longleftrightarrow>
       pk_oif p = ''lo'' \<or> pk_oif p = ''tun0'' \<or> pk_oif p = na_worker_veth a \<and> to_endpoint (ru_address upstream) p)
    \<and> (nft (worker_guard_script (na_worker_veth a) upstream) ''input'' p \<longleftrightarrow>
       pk_iif p = ''lo'' \<or> pk_tracked p \<and> (pk_iif p = ''tun0''
         \<or> pk_iif p = na_worker_veth a \<and> from_endpoint (ru_address upstream) p))
    \<and> (nft (root_guard_script upstream web_port socks_port) ''forward'' p \<longleftrightarrow>
       starts_with ''v2h'' (pk_iif p) \<and> to_endpoint (ru_address upstream) p
       \<or> starts_with ''v2h'' (pk_oif p) \<and> pk_tracked p \<and> from_endpoint (ru_address upstream) p)
    \<and> (nft (root_guard_script upstream web_port socks_port) ''output'' p \<longleftrightarrow>
       pk_oif p = ''lo'' \<or> pk_tracked p \<or> to_endpoint (ru_address upstream) p)
    \<and> (pk_iif p = na_host_veth a \<longrightarrow> \<not> nft (root_guard_script upstream web_port socks_port) ''input'' p)"
proof -
  have worker: "nft (worker_guard_script (na_worker_veth a) upstream) ''output'' = filter_accepts
      [([OifName ''lo''], Accept), ([OifName (na_worker_veth a), IpDaddr (sock_ip (ru_address upstream)),
        TcpDport [sock_port (ru_address upstream)]], Accept), ([OifName ''tun0''], Accept)]"
    "nft (worker_guard_script (na_worker_veth a) upstream) ''input'' = filter_accepts
      [([IifName ''lo''], Accept), ([IifName (na_worker_veth a), IpSaddr (sock_ip (ru_address upstream)),
        TcpSport (sock_port (ru_address upstream)), Tracked], Accept), ([IifName ''tun0'', Tracked], Accept)]"
    using assms(2) unfolding worker_guard_rendered by (simp_all add: filters_as_documented_def worker_table_def Let_def)
  have root: "list_all (\<lambda>c. case c of
      Filter hook rules \<Rightarrow> nft (root_guard_script upstream web_port socks_port) hook = filter_accepts rules
    | Masquerade \<Rightarrow> True) (root_guard upstream web_port socks_port)"
    using assms(3) unfolding root_guard_rendered filters_as_documented_def .
  then show ?thesis
    using network_interfaces [OF assms(1)] unfolding worker
    by (auto simp: root_guard_def Let_def to_endpoint_def from_endpoint_def)
qed

text \<open>A kernel that behaves as documented on the two scripts of one worker.\<close>

fun hook_rules :: "string \<Rightarrow> chain list \<Rightarrow> rule list" where
  "hook_rules hook (Filter h rules # table) = (if h = hook then rules else hook_rules hook table)"
| "hook_rules hook (Masquerade # table) = hook_rules hook table"
| "hook_rules hook [] = []"

definition sample_upstream :: resolved_upstream where
  "sample_upstream =
     \<lparr>ru_address = \<lparr>sock_ip = Ipv4Addr 9 9 9 9, sock_port = 1080\<rparr>, ru_username = None, ru_password = None\<rparr>"

definition sample_nft :: "string \<Rightarrow> string \<Rightarrow> packet \<Rightarrow> bool" where
  "sample_nft script hook =
     filter_accepts (hook_rules hook
       (if script = render_table ''vpngate2socks_guard'' (worker_table ''v2w0001'' sample_upstream)
        then worker_table ''v2w0001'' sample_upstream else root_guard sample_upstream 8080 1080))"

definition sample_packet :: "string \<Rightarrow> ipv4addr \<Rightarrow> packet" where
  "sample_packet oif ip =
     \<lparr>pk_iif = [], pk_oif = oif, pk_ipv4 = Some (Ipv4Addr 10 231 0 6, ip), pk_tcp = Some (40000, 1080), pk_tracked = False\<rparr>"

theorem guards_no_leak_witness:
  "sample_nft (worker_guard_script ''v2w0001'' sample_upstream) ''output'' (sample_packet ''v2w0001'' (Ipv4Addr 9 9 9 9))
   \<and> \<not> sample_nft (worker_guard_script ''v2w0001'' sample_upstream) ''output'' (sample_packet ''v2w0001'' (Ipv4Addr 8 8 8 8))
   \<and> \<not> sample_nft (root_guard_script sample_upstream 8080 1080) ''forward'' (sample_packet ''eth0'' (Ipv4Addr 8 8 8 8))"
proof -
  have "hex4 1 = ''0001''" by code_simp
  then obtain a where a: "network_of_index 1 = Inr a" "na_worker_veth a = ''v2w0001''"
    by (simp add: network_of_index_def Let_def)
  have w: "filters_as_documented sample_nft ''vpngate2socks_guard'' (worker_table (na_worker_veth a) sample_upstream)"
    by (simp add: filters_as_documented_def sample_nft_def a(2) worker_table_def Let_def)
  have "render_table ''vpngate2socks_root'' (root_guard sample_upstream 8080 1080)
      \<noteq> render_table ''vpngate2socks_guard'' (worker_table ''v2w0001'' sample_upstream)"
    by (simp add: render_table_def)
  then have r: "filters_as_documented sample_nft ''vpngate2socks_root'' (root_guard sample_upstream 8080 1080)"
    by (simp add: filters_as_documented_def sample_nft_def root_guard_def Let_def)
  show ?thesis
    using guards_no_leak [OF a(1) w r, of "sample_packet ''v2w0001'' (Ipv4Addr 9 9 9 9)"]
      guards_no_leak [OF a(1) w r, of "sample_packet ''v2w0001'' (Ipv4Addr 8 8 8 8)"]
      guards_no_leak [OF a(1) w r, of "sample_packet ''eth0'' (Ipv4Addr 8 8 8 8)"]
    by (simp add: a(2) sample_packet_def to_endpoint_def from_endpoint_def sample_upstream_def starts_with_def)
qed

end
