(* ===== verification/Quality.thy ===== *)
theory Quality
  imports Domain_Nodes
begin

text \<open>
  The IPPure client of \<open>src/src/quality.rs\<close>: the JSON parser (\<open>serde_json\<close>) and the HTTP
  exchange are arguments; the size limit of the body and the extraction and validation of the
  fields are modelled.
\<close>

section \<open>JSON values\<close>

text \<open>A number is what \<open>Value::as_f64\<close> gives for it; an object is its members.\<close>

datatype json =
    JNull
  | JBool bool
  | JNumber f64
  | JString string
  | JArray "json list"
  | JObject "(string \<times> json) list"

fun json_get :: "json \<Rightarrow> string \<Rightarrow> json option" where
  "json_get (JObject members) name = map_of members name"
| "json_get _ name = None"

fun is_object :: "json \<Rightarrow> bool" where
  "is_object (JObject _) = True"
| "is_object _ = False"

fun as_f64 :: "json \<Rightarrow> f64 option" where
  "as_f64 (JNumber x) = Some x"
| "as_f64 _ = None"

fun as_bool :: "json \<Rightarrow> bool option" where
  "as_bool (JBool b) = Some b"
| "as_bool _ = None"

fun json_as_str :: "json \<Rightarrow> string option" where
  "json_as_str (JString s) = Some s"
| "json_as_str _ = None"

section \<open>Operations\<close>

datatype ip_pure_error =
    Bridge
  | PureClient
  | PureRequest
  | PureHttp nat
  | PureBodyTooLarge
  | Json
  | InvalidField string

fun json_field :: "json \<Rightarrow> string list \<Rightarrow> json option" where
  "json_field object [] = None"
| "json_field object (name # names) =
     (case json_get object name of Some v \<Rightarrow> Some v | None \<Rightarrow> json_field object names)"

definition data_object :: "json \<Rightarrow> json" where
  "data_object root =
     (case option_filter is_object (json_get root ''data'') of Some v \<Rightarrow> v | None \<Rightarrow> root)"

definition parse_exit_ip :: "json \<Rightarrow> ip_pure_error + ipv4addr option" where
  "parse_exit_ip object =
     (case Option.bind (json_field object [''ip'', ''query'', ''address'']) json_as_str of
        None \<Rightarrow> Inr None
      | Some value \<Rightarrow>
          (case parse_ipv4 value of Some ip \<Rightarrow> Inr (Some ip) | None \<Rightarrow> Inl (InvalidField ''ip'')))"

definition parse_ippure :: "(bytes \<Rightarrow> json option) \<Rightarrow> bytes \<Rightarrow> ip_pure_error + ip_pure_result" where
  "parse_ippure from_slice input =
     and_then (ok_or Json (from_slice input)) (\<lambda>root.
     let object = data_object root in
     and_then (ok_or (InvalidField ''fraudScore'')
       (option_filter valid_fraud_score
         (Option.bind (json_field object [''fraudScore'', ''fraud_score'']) as_f64))) (\<lambda>fraud_score.
     and_then (ok_or (InvalidField ''isResidential'')
       (Option.bind (json_field object [''isResidential'', ''is_residential'']) as_bool)) (\<lambda>is_residential.
     and_then (ok_or (InvalidField ''isBroadcast'')
       (Option.bind (json_field object [''isBroadcast'', ''is_broadcast'']) as_bool)) (\<lambda>is_broadcast.
     and_then (parse_exit_ip object) (\<lambda>exit_ip.
     Inr \<lparr>ip_fraud_score = fraud_score, ip_is_residential = is_residential,
          ip_is_broadcast = is_broadcast, ip_exit_ip = exit_ip\<rparr>)))))"

definition MAX_IPPURE_BODY_BYTES :: nat where
  "MAX_IPPURE_BODY_BYTES = 64 * 1024"

fun read_ippure_body :: "bytes \<Rightarrow> (unit + bytes) list \<Rightarrow> ip_pure_error + bytes" where
  "read_ippure_body body [] = Inr body"
| "read_ippure_body body (chunk # chunks) =
     and_then (map_err (\<lambda>_. PureRequest) chunk) (\<lambda>chunk.
       if MAX_IPPURE_BODY_BYTES < saturating_add (length body) (length chunk) then Inl PureBodyTooLarge
       else read_ippure_body (body @ chunk) chunks)"

definition fetch_ippure ::
    "(bytes \<Rightarrow> json option) \<Rightarrow> ip_pure_error + (nat \<times> (unit + bytes) list) \<Rightarrow> ip_pure_error + ip_pure_result" where
  "fetch_ippure from_slice response =
     and_then response (\<lambda>(status, chunks).
     and_then (ensure (200 \<le> status \<and> status < 300) (PureHttp status)) (\<lambda>_.
     and_then (read_ippure_body [] chunks) (\<lambda>body.
     parse_ippure from_slice body)))"

section \<open>Laws\<close>

lemma read_ippure_body_limit:
  "read_ippure_body body chunks = Inr b \<Longrightarrow> length body \<le> MAX_IPPURE_BODY_BYTES \<Longrightarrow>
   length b \<le> MAX_IPPURE_BODY_BYTES"
  by (induction body chunks rule: read_ippure_body.induct)
     (auto simp: result_simps saturating_add_def usize_max_def MAX_IPPURE_BODY_BYTES_def split: if_splits)

lemma parse_ippure_score:
  "parse_ippure from_slice input = Inr r \<Longrightarrow> valid_fraud_score (ip_fraud_score r)"
  by (auto simp: parse_ippure_def result_simps Let_def option_filter_eq_Some)

lemma f64_constants:
  "f64_magnitude f64_zero = 0" "\<not> f64_negative f64_zero"
  "f64_magnitude f64_hundred = 0x4059000000000000" "\<not> f64_negative f64_hundred"
  by (simp_all add: f64_magnitude_def f64_negative_def f64_zero_def f64_hundred_def)

lemma valid_score_range:
  assumes "valid_fraud_score x"
  shows "\<not> f64_is_nan x" and "f64_magnitude x = 0 \<or> \<not> f64_negative x \<and> f64_magnitude x \<le> 0x4059000000000000"
  using assms
  by (auto simp: valid_fraud_score_def f64_le_def f64_constants f64_key_def split: if_splits)

section \<open>Properties\<close>

text \<open>
  A result fetched from IPPure was parsed from a body within the size limit and has a
  finite fraud score between 0 and 100.
\<close>

lemma fetch_ippure_valid:
  assumes "fetch_ippure from_slice (Inr (status, chunks)) = Inr r"
  shows "200 \<le> status \<and> status < 300 \<and> valid_fraud_score (ip_fraud_score r)
    \<and> (\<exists>body. length body \<le> MAX_IPPURE_BODY_BYTES \<and> parse_ippure from_slice body = Inr r)"
proof -
  from assms obtain body where b: "read_ippure_body [] chunks = Inr body" "parse_ippure from_slice body = Inr r"
    and s: "200 \<le> status" "status < 300"
    by (auto simp: fetch_ippure_def result_simps)
  have "length body \<le> MAX_IPPURE_BODY_BYTES" using read_ippure_body_limit [OF b(1)] by simp
  with b s parse_ippure_score [OF b(2)] show ?thesis by blast
qed

definition sample_json :: json where
  "sample_json = JObject [(''data'', JObject [(''fraudScore'', JNumber 0), (''isResidential'', JBool True),
     (''isBroadcast'', JBool False)])]"

definition sample_result :: ip_pure_result where
  "sample_result = \<lparr>ip_fraud_score = 0, ip_is_residential = True, ip_is_broadcast = False, ip_exit_ip = None\<rparr>"

lemma fetch_ippure_sample:
  "fetch_ippure (\<lambda>_. Some sample_json) (Inr (200, [Inr [1, 2]])) = Inr sample_result"
  by (simp add: fetch_ippure_def parse_ippure_def sample_json_def sample_result_def data_object_def
      parse_exit_ip_def valid_fraud_score_def f64_is_finite_def f64_magnitude_def f64_le_def f64_zero_def
      f64_hundred_def f64_key_def f64_negative_def f64_is_nan_def MAX_IPPURE_BODY_BYTES_def
      saturating_add_def usize_max_def)

end
