(* ===== verification/Socks_Dns.thy ===== *)
theory Socks_Dns
  imports Domain
begin

text \<open>
  The DNS client and the route table check of the worker in \<open>src/src/socks.rs\<close>.  Slice
  indexing is explicit: \<open>byte_at\<close> is \<open>message[i]\<close> and yields the error \<open>Panic\<close> out of range,
  so that the absence of panics is a theorem; \<open>get_byte\<close> is \<open>slice::get\<close>.
\<close>

section \<open>Errors and slices\<close>

datatype io_error = InvalidData | InvalidInput | TimedOut | NotFound | OtherIo | Panic

definition byte_at :: "bytes \<Rightarrow> nat \<Rightarrow> io_error + u8" where
  "byte_at message i = (if i < length message then Inr (message ! i) else Inl Panic)"

definition get_byte :: "bytes \<Rightarrow> nat \<Rightarrow> u8 option" where
  "get_byte message i = (if i < length message then Some (message ! i) else None)"

definition be16_at :: "bytes \<Rightarrow> nat \<Rightarrow> io_error + u16" where
  "be16_at message i =
     and_then (byte_at message i) (\<lambda>a. and_then (byte_at message (i + 1)) (\<lambda>b.
     Inr (u16_from_be_bytes a b)))"

definition checked_end :: "bytes \<Rightarrow> nat \<Rightarrow> nat \<Rightarrow> io_error + nat" where
  "checked_end message offset n =
     (if offset + n \<le> usize_max \<and> offset + n \<le> length message then Inr (offset + n) else Inl InvalidData)"

section \<open>Queries\<close>

fun encode_labels :: "string list \<Rightarrow> io_error + bytes" where
  "encode_labels [] = Inr []"
| "encode_labels (label # labels) =
     (if 255 < length label then Inl InvalidInput
      else if length label = 0 \<or> 63 < length label then Inl InvalidInput
      else and_then (encode_labels labels) (\<lambda>rest.
        Inr (of_nat (length label) # as_bytes label @ rest)))"

definition encode_dns_query :: "string \<Rightarrow> u16 \<Rightarrow> io_error + bytes" where
  "encode_dns_query domain query_id =
     and_then (encode_labels (split_on (CHR ''.'') domain)) (\<lambda>labels.
       Inr (u16_to_be_bytes query_id @ u16_to_be_bytes 0x0100 @ u16_to_be_bytes 1
         @ replicate 6 0 @ labels @ [0] @ u16_to_be_bytes 1 @ u16_to_be_bytes 1))"

section \<open>Responses\<close>

definition dns_response_is_truncated :: "bytes \<Rightarrow> u16 \<Rightarrow> bool" where
  "dns_response_is_truncated response query_id \<longleftrightarrow>
     4 \<le> length response \<and> take 2 response = u16_to_be_bytes query_id
     \<and> (response ! 2) AND 0x02 \<noteq> 0"

text \<open>The \<open>for _ in 0..128\<close> loop of \<open>skip_dns_name\<close>; the first argument counts down from 128.\<close>

fun skip_dns_labels :: "nat \<Rightarrow> bytes \<Rightarrow> nat \<Rightarrow> io_error + nat" where
  "skip_dns_labels 0 message offset = Inl InvalidData"
| "skip_dns_labels (Suc n) message offset =
     and_then (ok_or InvalidData (get_byte message offset)) (\<lambda>len.
       if len AND 0xc0 = 0xc0 then
         and_then (ok_or InvalidData (get_byte message (offset + 1))) (\<lambda>low.
           let pointer = unat (u16_from_be_bytes (len AND 0x3f) low)
           in if length message \<le> pointer then Inl InvalidData else Inr (offset + 2))
       else if len AND 0xc0 \<noteq> 0 \<or> 63 < len then Inl InvalidData
       else if len = 0 then Inr (offset + 1)
       else and_then (checked_end message (offset + 1) (unat len)) (skip_dns_labels n message))"

definition skip_dns_name :: "bytes \<Rightarrow> nat \<Rightarrow> io_error + nat" where
  "skip_dns_name message offset = skip_dns_labels 128 message offset"

fun skip_questions :: "nat \<Rightarrow> bytes \<Rightarrow> nat \<Rightarrow> io_error + nat" where
  "skip_questions 0 response offset = Inr offset"
| "skip_questions (Suc n) response offset =
     and_then (skip_dns_name response offset) (\<lambda>offset.
     and_then (checked_end response offset 4) (\<lambda>offset.
     skip_questions n response offset))"

definition read_address :: "bytes \<Rightarrow> nat \<Rightarrow> io_error + ipv4addr" where
  "read_address response i =
     and_then (byte_at response i) (\<lambda>a. and_then (byte_at response (i + 1)) (\<lambda>b.
     and_then (byte_at response (i + 2)) (\<lambda>c. and_then (byte_at response (i + 3)) (\<lambda>d.
     Inr (Ipv4Addr a b c d)))))"

text \<open>One answer record: the offset behind it and its address if it is an A record.\<close>

definition read_answer :: "bytes \<Rightarrow> nat \<Rightarrow> io_error + (nat \<times> ipv4addr option)" where
  "read_answer response offset =
     and_then (skip_dns_name response offset) (\<lambda>offset.
     and_then (checked_end response offset 10) (\<lambda>header_end.
     and_then (be16_at response offset) (\<lambda>record_type.
     and_then (be16_at response (offset + 2)) (\<lambda>cls.
     and_then (be16_at response (offset + 8)) (\<lambda>data_length.
     and_then (checked_end response header_end (unat data_length)) (\<lambda>data_end.
     if record_type = 1 \<and> cls = 1 \<and> data_length = 4
     then and_then (read_address response header_end) (\<lambda>ip. Inr (data_end, Some ip))
     else Inr (data_end, None)))))))"

fun read_answers :: "nat \<Rightarrow> bytes \<Rightarrow> nat \<Rightarrow> ipv4addr list \<Rightarrow> io_error + ipv4addr list" where
  "read_answers 0 response offset addresses = Inr addresses"
| "read_answers (Suc n) response offset addresses =
     and_then (read_answer response offset) (\<lambda>(data_end, found).
     read_answers n response data_end
       (addresses @ (case found of Some ip \<Rightarrow> [ip] | None \<Rightarrow> [])))"

definition parse_dns_a_response :: "bytes \<Rightarrow> u16 \<Rightarrow> io_error + ipv4addr list" where
  "parse_dns_a_response response query_id =
     (if length response < 12 \<or> take 2 response \<noteq> u16_to_be_bytes query_id then Inl InvalidData
      else
        and_then (be16_at response 2) (\<lambda>flags.
        if flags AND 0x8000 = 0 \<or> flags AND 0x000f \<noteq> 0 then Inl InvalidData
        else
          and_then (be16_at response 4) (\<lambda>question_count.
          and_then (be16_at response 6) (\<lambda>answer_count.
          if 8 < unat question_count \<or> 128 < unat answer_count then Inl InvalidData
          else
            and_then (skip_questions (unat question_count) response 12) (\<lambda>offset.
            and_then (read_answers (unat answer_count) response offset []) (\<lambda>addresses.
            if addresses = [] then Inl NotFound else Inr addresses))))))"

text \<open>
  \<open>query_dns_a\<close> over an exchange: the datagram received (or an I/O error) and, when it is
  truncated, the bytes of the TCP connection.  \<open>query_dns_a_tcp\<close> reads a length prefix and
  refuses empty and oversized messages.
\<close>

definition MAX_DNS_MESSAGE_BYTES :: nat where "MAX_DNS_MESSAGE_BYTES = 4096"

definition query_dns_a_tcp :: "io_error + bytes \<Rightarrow> u16 \<Rightarrow> io_error + ipv4addr list" where
  "query_dns_a_tcp tcp query_id =
     and_then tcp (\<lambda>stream.
       case stream of
         a # b # rest \<Rightarrow>
           let response_length = unat (u16_from_be_bytes a b)
           in if response_length = 0 \<or> MAX_DNS_MESSAGE_BYTES < response_length then Inl InvalidData
              else if length rest < response_length then Inl OtherIo
              else parse_dns_a_response (take response_length rest) query_id
       | _ \<Rightarrow> Inl OtherIo)"

definition query_dns_a ::
    "(bytes \<Rightarrow> io_error + bytes) \<Rightarrow> (bytes \<Rightarrow> io_error + bytes) \<Rightarrow> u16 \<Rightarrow> string \<Rightarrow> io_error + ipv4addr list" where
  "query_dns_a udp tcp query_id domain =
     and_then (encode_dns_query domain query_id) (\<lambda>query.
     and_then (udp query) (\<lambda>datagram.
       let response = take MAX_DNS_MESSAGE_BYTES datagram
       in if dns_response_is_truncated response query_id then query_dns_a_tcp (tcp query) query_id
          else parse_dns_a_response response query_id))"

section \<open>The tunnel routes\<close>

fun scan_route :: "bool \<times> bool \<times> bool \<Rightarrow> string list \<Rightarrow> bool \<times> bool \<times> bool" where
  "scan_route (whole, lower_half, upper_half) cols =
     (if cols = [] \<or> hd cols \<noteq> ''tun0'' \<or> length cols < 8 then (whole, lower_half, upper_half)
      else if cols ! 1 = ''00000000'' \<and> cols ! 7 = ''00000000'' then (True, lower_half, upper_half)
      else if cols ! 1 = ''00000000'' \<and> cols ! 7 = ''00000080'' then (whole, True, upper_half)
      else if cols ! 1 = ''00000080'' \<and> cols ! 7 = ''00000080'' then (whole, lower_half, True)
      else (whole, lower_half, upper_half))"

definition proc_route_table_covers_public_ipv4 :: "string \<Rightarrow> bool" where
  "proc_route_table_covers_public_ipv4 routes =
     (case foldl scan_route (False, False, False) (map split_ascii_whitespace (drop 1 (lines routes))) of
        (whole, lower_half, upper_half) \<Rightarrow> whole \<or> lower_half \<and> upper_half)"

section \<open>Laws: no index is out of range\<close>

lemma byte_at_ok: "i < length m \<Longrightarrow> byte_at m i = Inr (m ! i)"
  by (simp add: byte_at_def)

lemma be16_at_ok: "i + 1 < length m \<Longrightarrow> be16_at m i = Inr (u16_from_be_bytes (m ! i) (m ! (i + 1)))"
  by (simp add: be16_at_def byte_at_ok)

lemma checked_end_Inr [result_simps]:
  "checked_end m offset n = Inr e \<longleftrightarrow> e = offset + n \<and> offset + n \<le> length m \<and> offset + n \<le> usize_max"
  by (auto simp: checked_end_def)

lemma skip_dns_labels_no_panic: "skip_dns_labels n m offset \<noteq> Inl Panic"
  by (induction n m offset rule: skip_dns_labels.induct)
     (auto simp: result_simps Let_def checked_end_def split: if_splits)

lemma skip_questions_no_panic: "skip_questions n m offset \<noteq> Inl Panic"
  by (induction n m offset rule: skip_questions.induct)
     (auto simp: result_simps skip_dns_name_def checked_end_def skip_dns_labels_no_panic split: if_splits)

lemma read_answer_no_panic: "read_answer m offset \<noteq> Inl Panic"
proof (cases "skip_dns_name m offset")
  case (Inl e)
  then show ?thesis using skip_dns_labels_no_panic [of 128 m offset]
    by (auto simp: read_answer_def skip_dns_name_def)
next
  case (Inr k)
  show ?thesis
  proof (cases "k + 10 \<le> length m")
    case True
    then show ?thesis
      using Inr by (auto simp: read_answer_def be16_at_ok result_simps checked_end_def read_address_def
          byte_at_def split: if_splits)
  qed (use Inr in \<open>simp add: read_answer_def checked_end_def\<close>)
qed

lemma read_answers_no_panic: "read_answers n m offset addresses \<noteq> Inl Panic"
  by (induction n m offset addresses rule: read_answers.induct)
     (auto simp: result_simps read_answer_no_panic)

section \<open>Laws: answers to a query\<close>

text \<open>The message of a name server that answers a query with A records, as RFC 1035 lays it out.\<close>

definition dns_answer :: "ipv4addr \<Rightarrow> bytes" where
  "dns_answer ip = [0xC0, 0x0C, 0, 1, 0, 1, 0, 0, 0, 60, 0, 4] @ ipv4_octets ip"

definition dns_reply :: "bytes \<Rightarrow> ipv4addr list \<Rightarrow> bytes" where
  "dns_reply query ips =
     take 2 query @ [0x81, 0x80, 0, 1] @ u16_to_be_bytes (of_nat (length ips)) @ replicate 4 0
     @ drop 12 query @ concat (map dns_answer ips)"

lemma label_length_bits: "k < 64 \<Longrightarrow> (of_nat k :: u8) AND 0xc0 = 0"
proof (rule bit_word_eqI)
  fix n
  assume k: "k < 64" and "n < LENGTH(8)"
  have "\<not> bit k n" if "6 \<le> n"
  proof -
    have "take_bit 6 k = k" using k by (simp add: take_bit_nat_eq_self)
    with that show ?thesis by (metis bit_take_bit_iff not_le)
  qed
  moreover have "\<not> bit (0xc0 :: u8) n" if "n < 6"
    using that by (auto simp: less_Suc_eq numeral_eq_Suc)
  ultimately show "bit ((of_nat k :: u8) AND 0xc0) n = bit (0 :: u8) n"
    by (cases "n < 6") (auto simp: bit_simps)
qed

lemma unat_of_nat_u8 [simp]: "k < 256 \<Longrightarrow> unat (of_nat k :: u8) = k"
  by (simp add: unsigned_of_nat take_bit_nat_eq_self)

lemma skip_encoded_labels:
  assumes "encode_labels labels = Inr enc" and "length labels < n"
    and "length (pre @ enc @ 0 # rest) \<le> usize_max"
  shows "skip_dns_labels n (pre @ enc @ 0 # rest) (length pre) = Inr (length pre + length enc + 1)"
  using assms
proof (induction labels arbitrary: n pre enc)
  case Nil
  then show ?case by (cases n) (auto simp: get_byte_def)
next
  case (Cons label labels)
  from Cons.prems(1) obtain enc' where enc': "encode_labels labels = Inr enc'"
    and enc: "enc = of_nat (length label) # as_bytes label @ enc'"
    and len: "0 < length label" "length label < 64"
    by (auto simp: result_simps split: if_splits)
  obtain k where n: "n = Suc k" "length labels < k" using Cons.prems(2) by (cases n) auto
  let ?pre = "pre @ of_nat (length label) # as_bytes label"
  have "(of_nat (length label) :: u8) AND 0xc0 = 0" using len by (simp add: label_length_bits)
  moreover have "(of_nat (length label) :: u8) \<noteq> 0" "\<not> 63 < (of_nat (length label) :: u8)"
    using len by (simp_all add: word_less_nat_alt word_unat_eq_iff)
  moreover have "skip_dns_labels k (?pre @ enc' @ 0 # rest) (length ?pre) = Inr (length ?pre + length enc' + 1)"
    by (rule Cons.IH [OF enc' n(2)]) (use Cons.prems(3) enc in simp)
  ultimately show ?case
    using len Cons.prems(3) by (simp add: n(1) enc get_byte_def checked_end_def)
qed

lemma skip_pointer:
  assumes "get_byte m i = Some h" "h AND 0xc0 = 0xc0" "get_byte m (i + 1) = Some l"
    and "unat (u16_from_be_bytes (h AND 0x3f) l) < length m"
  shows "skip_dns_name m i = Inr (i + 2)"
  using assms skip_dns_labels.simps(2) [of 127 m i] by (simp add: skip_dns_name_def)

lemma at_append:
  "byte_at (pre @ xs) (length pre + i) = byte_at xs i"
  "get_byte (pre @ xs) (length pre + i) = get_byte xs i"
  "be16_at (pre @ xs) (length pre + i) = be16_at xs i"
  "read_address (pre @ xs) (length pre + i) = read_address xs i"
proof -
  show b: "byte_at (pre @ xs) (length pre + i) = byte_at xs i" for i by (simp add: byte_at_def)
  show "get_byte (pre @ xs) (length pre + i) = get_byte xs i" by (simp add: get_byte_def)
  show "be16_at (pre @ xs) (length pre + i) = be16_at xs i"
    by (simp add: be16_at_def b add.assoc del: add_Suc_right)
  show "read_address (pre @ xs) (length pre + i) = read_address xs i"
    using b [of i] b [of "i + 1"] b [of "i + 2"] b [of "i + 3"] by (simp add: read_address_def add.assoc)
qed

lemma read_answer_A:
  assumes "skip_dns_name m i = Inr k" and "be16_at m k = Inr 1" and "be16_at m (k + 2) = Inr 1"
    and "be16_at m (k + 8) = Inr 4" and "read_address m (k + 10) = Inr ip"
    and "k + 14 \<le> length m" and "k + 14 \<le> usize_max"
  shows "read_answer m i = Inr (k + 14, Some ip)"
  using assms by (simp add: read_answer_def checked_end_def)

lemma read_dns_answer:
  assumes "length (pre @ dns_answer ip @ rest) \<le> usize_max" and "12 \<le> length pre"
  shows "read_answer (pre @ dns_answer ip @ rest) (length pre) = Inr (length pre + 16, Some ip)"
proof (cases ip)
  case (Ipv4Addr a b c d)
  define xs where "xs = dns_answer ip @ rest"
  have xs: "xs = 0xC0 # 0x0C # 0 # 1 # 0 # 1 # 0 # 0 # 0 # 60 # 0 # 4 # a # b # c # d # rest"
    by (simp add: xs_def dns_answer_def Ipv4Addr)
  have v: "u16_from_be_bytes 0 1 = 1" "u16_from_be_bytes 0 4 = 4"
    "unat (u16_from_be_bytes ((0xC0 :: u8) AND 0x3f) 0x0C) = 12" by code_simp+
  have "get_byte (pre @ xs) (length pre + 0) = Some 0xC0" "get_byte (pre @ xs) (length pre + 1) = Some 0x0C"
    unfolding at_append by (simp_all add: xs get_byte_def)
  then have name: "skip_dns_name (pre @ xs) (length pre) = Inr (length pre + 2)"
    using v(3) assms(2) by (intro skip_pointer [where h = "0xC0" and l = "0x0C"]) (simp_all add: xs)
  have "be16_at xs 2 = Inr 1" "be16_at xs (2 + 2) = Inr 1" "be16_at xs (2 + 8) = Inr 4"
    "read_address xs (2 + 10) = Inr ip"
    by (simp_all add: xs be16_at_def read_address_def byte_at_def v Ipv4Addr)
  then have "be16_at (pre @ xs) (length pre + 2) = Inr 1" "be16_at (pre @ xs) (length pre + 2 + 2) = Inr 1"
    "be16_at (pre @ xs) (length pre + 2 + 8) = Inr 4" "read_address (pre @ xs) (length pre + 2 + 10) = Inr ip"
    by (simp_all only: at_append add.assoc)
  moreover have "length pre + 2 + 14 \<le> length (pre @ xs)" "length pre + 2 + 14 \<le> usize_max"
    using assms unfolding xs_def [symmetric] by (simp_all add: xs)
  ultimately show ?thesis
    unfolding xs_def [symmetric] using read_answer_A [OF name] by (simp add: add.commute)
qed

lemma length_dns_answer [simp]: "length (dns_answer ip) = 16"
  by (cases ip) (simp add: dns_answer_def)

lemma read_dns_answers:
  "length (pre @ concat (map dns_answer ips)) \<le> usize_max \<Longrightarrow> 12 \<le> length pre \<Longrightarrow>
   read_answers (length ips) (pre @ concat (map dns_answer ips)) (length pre) acc = Inr (acc @ ips)"
proof (induction ips arbitrary: pre acc)
  case (Cons ip ips)
  have "read_answers (length ips) ((pre @ dns_answer ip) @ concat (map dns_answer ips)) (length (pre @ dns_answer ip))
      (acc @ [ip]) = Inr ((acc @ [ip]) @ ips)"
    by (rule Cons.IH) (use Cons.prems in simp_all)
  moreover have "read_answer (pre @ dns_answer ip @ concat (map dns_answer ips)) (length pre)
      = Inr (length pre + 16, Some ip)"
    by (rule read_dns_answer) (use Cons.prems in simp_all)
  ultimately show ?case by simp
qed simp

lemma length_concat_dns_answer [simp]: "length (concat (map dns_answer ips)) = 16 * length ips"
  by (induction ips) simp_all

lemma encode_labels_length:
  "encode_labels labels = Inr enc \<Longrightarrow> length enc = sum_list (map length labels) + length labels"
  by (induction labels arbitrary: enc) (auto simp: result_simps split: if_splits)

lemma encode_labels_nonempty: "encode_labels labels = Inr enc \<Longrightarrow> list_all (\<lambda>l. l \<noteq> []) labels"
  by (induction labels arbitrary: enc) (auto simp: result_simps split: if_splits)

lemma split_on_length: "sum_list (map length (split_on d s)) + length (split_on d s) = length s + 1"
proof -
  have "sum_list (map length (split_by p s)) + length (split_by p s) = length s + 1" for p
    by (induction s) (auto split: list.splits)
  then show ?thesis by (simp add: split_on_def)
qed

lemma dns_reply_parsed:
  assumes q: "encode_dns_query domain query_id = Inr query"
    and dom: "length domain \<le> 253" and ips: "ips \<noteq> []" "length ips \<le> 128"
  shows "parse_dns_a_response (dns_reply query ips) query_id = Inr ips"
proof -
  let ?labels = "split_on (CHR ''.'') domain"
  from q obtain enc where enc: "encode_labels ?labels = Inr enc"
    and query: "query = u16_to_be_bytes query_id @ u16_to_be_bytes 0x0100 @ u16_to_be_bytes 1
         @ replicate 6 0 @ enc @ [0] @ u16_to_be_bytes 1 @ u16_to_be_bytes 1"
    by (auto simp: encode_dns_query_def result_simps)
  have "length ls \<le> sum_list (map length ls)" if "list_all (\<lambda>l. l \<noteq> []) ls" for ls :: "string list"
    using that by (induction ls) (auto simp: Suc_le_eq simp flip: length_greater_0_conv)
  then have n: "length ?labels < 128" and len: "length enc \<le> 254"
    using encode_labels_nonempty [OF enc] encode_labels_length [OF enc] split_on_length [of "CHR ''.''" domain] dom
    by fastforce+
  let ?head = "u16_to_be_bytes query_id @ [0x81, 0x80, 0, 1] @ u16_to_be_bytes (of_nat (length ips)) @ replicate 4 0"
  let ?tail = "u16_to_be_bytes 1 @ u16_to_be_bytes 1 @ concat (map dns_answer ips)"
  let ?pre = "?head @ enc @ 0 # u16_to_be_bytes 1 @ u16_to_be_bytes 1"
  have reply: "dns_reply query ips = ?head @ enc @ 0 # ?tail" "dns_reply query ips = ?pre @ concat (map dns_answer ips)"
    by (simp_all add: dns_reply_def query u16_to_be_bytes_def numeral_eq_Suc)
  have total: "length (dns_reply query ips) \<le> usize_max"
    using len ips(2) by (simp add: reply(1) u16_to_be_bytes_def usize_max_def)
  have "skip_dns_name (dns_reply query ips) 12 = Inr (13 + length enc)"
    using skip_encoded_labels [OF enc n, of ?head ?tail] total
    by (simp add: skip_dns_name_def reply(1) u16_to_be_bytes_def)
  then have questions: "skip_questions 1 (dns_reply query ips) 12 = Inr (17 + length enc)"
    using total by (simp add: checked_end_def reply(1) u16_to_be_bytes_def)
  have answers: "read_answers (length ips) (dns_reply query ips) (17 + length enc) [] = Inr ips"
    using read_dns_answers [of ?pre ips "[]"] total by (simp add: reply(2) u16_to_be_bytes_def)
  have "u16_from_be_bytes 0x81 0x80 AND 0x8000 \<noteq> 0" "u16_from_be_bytes 0x81 0x80 AND 0xf = 0"
    "u16_from_be_bytes 0 1 = 1" by code_simp+
  moreover have "be16_at (dns_reply query ips) 2 = Inr (u16_from_be_bytes 0x81 0x80)"
    "be16_at (dns_reply query ips) 4 = Inr (u16_from_be_bytes 0 1)"
    "be16_at (dns_reply query ips) 6 = Inr (of_nat (length ips))"
    "take 2 (dns_reply query ips) = u16_to_be_bytes query_id" "12 \<le> length (dns_reply query ips)"
    by (simp_all add: reply(1) be16_at_def byte_at_def u16_to_be_bytes_def)
  ultimately show ?thesis
    using questions answers ips by (simp add: parse_dns_a_response_def)
qed

definition tun_route :: "string list list \<Rightarrow> string \<Rightarrow> string \<Rightarrow> bool" where
  "tun_route rows destination netmask =
     list_ex (\<lambda>cols. 8 \<le> length cols \<and> cols ! 0 = ''tun0'' \<and> cols ! 1 = destination \<and> cols ! 7 = netmask) rows"

lemma scan_routes:
  "foldl scan_route (w, l, u) rows =
     (w \<or> tun_route rows ''00000000'' ''00000000'', l \<or> tun_route rows ''00000000'' ''00000080'',
      u \<or> tun_route rows ''00000080'' ''00000080'')"
proof (induction rows arbitrary: w l u)
  case (Cons cols rows)
  show ?case
  proof (cases "cols = [] \<or> hd cols \<noteq> ''tun0'' \<or> length cols < 8")
    case True
    then have "\<not> (8 \<le> length cols \<and> cols ! 0 = ''tun0'')" by (cases cols) auto
    with True show ?thesis by (auto simp: Cons.IH tun_route_def)
  next
    case False
    then have "8 \<le> length cols" "cols ! 0 = ''tun0''" by (cases cols; auto)+
    with False show ?thesis by (auto simp: Cons.IH tun_route_def)
  qed
qed (simp add: tun_route_def)

section \<open>Properties of the resolver and the route check\<close>

text \<open>
  C32.  The DNS parser never indexes out of range: on every datagram, however malformed, it
  returns addresses or a proper error, with every slice access within the message.
\<close>

theorem parse_dns_no_panic: "parse_dns_a_response response query_id \<noteq> Inl Panic"
proof (cases "length response < 12")
  case False
  then have "be16_at response 2 \<noteq> Inl Panic" "be16_at response 4 \<noteq> Inl Panic" "be16_at response 6 \<noteq> Inl Panic"
    by (simp_all add: be16_at_ok)
  with False show ?thesis
    using skip_questions_no_panic read_answers_no_panic
    by (auto simp: parse_dns_a_response_def result_simps split: if_splits)
qed (simp add: parse_dns_a_response_def)

text \<open>
  C33.  Query and response fit together: when a query for a domain of at most 253 bytes is
  encoded and the server answers it with A records for some addresses, parsing the answer gives
  exactly these addresses in order.
\<close>

theorem dns_roundtrip:
  assumes "encode_dns_query domain query_id = Inr query" and "length domain \<le> 253"
    and "ips \<noteq> []" and "length ips \<le> 128"
  shows "parse_dns_a_response (dns_reply query ips) query_id = Inr ips"
  using assms by (rule dns_reply_parsed)

theorem dns_roundtrip_witness:
  "\<exists>query. encode_dns_query ''a.b'' 7 = Inr query
    \<and> parse_dns_a_response (dns_reply query [Ipv4Addr 1 2 3 4]) 7 = Inr [Ipv4Addr 1 2 3 4]"
proof -
  have "is_ok (encode_dns_query ''a.b'' 7)" by code_simp
  then obtain query where q: "encode_dns_query ''a.b'' 7 = Inr query" by (auto simp: is_ok_iff)
  from dns_roundtrip [OF q] q show ?thesis by simp
qed

text \<open>
  The tunnel route check holds exactly when \<open>tun0\<close> has a default route or both half-space
  routes in the kernel's table (the header line does not count).
\<close>

lemma route_table_covers:
  "proc_route_table_covers_public_ipv4 routes \<longleftrightarrow>
     (let rows = map split_ascii_whitespace (drop 1 (lines routes))
      in tun_route rows ''00000000'' ''00000000''
         \<or> tun_route rows ''00000000'' ''00000080'' \<and> tun_route rows ''00000080'' ''00000080'')"
  by (simp add: proc_route_table_covers_public_ipv4_def scan_routes Let_def)

end
