(* ===== verification/Socks.thy ===== *)
theory Socks
  imports Socks_Dns Byte_Stream
begin

text \<open>
  The SOCKS5 gateway and worker of \<open>src/src/socks.rs\<close>: method negotiation and RFC 1929
  authentication, requests and replies, target validation and resolution, and the two
  connection handlers with every reply they send.  Streams are \<open>conn\<close> records; running into a
  timeout is a stalled stream.  SHA-256, the DNS exchange, the kernel's route table, the
  outgoing connection and the worker's socket are arguments; \<open>copy_bidirectional\<close>, which
  relays opaque bytes after success, is where a handler returns.
\<close>

section \<open>Constants and data\<close>

definition SOCKS_VERSION :: u8 where "SOCKS_VERSION = 5"
definition AUTH_VERSION :: u8 where "AUTH_VERSION = 1"
definition METHOD_NONE :: u8 where "METHOD_NONE = 0"
definition METHOD_PASSWORD :: u8 where "METHOD_PASSWORD = 2"
definition METHOD_UNACCEPTABLE :: u8 where "METHOD_UNACCEPTABLE = 0xff"
definition COMMAND_CONNECT :: u8 where "COMMAND_CONNECT = 1"
definition ADDRESS_IPV4 :: u8 where "ADDRESS_IPV4 = 1"
definition ADDRESS_DOMAIN :: u8 where "ADDRESS_DOMAIN = 3"
definition ADDRESS_IPV6 :: u8 where "ADDRESS_IPV6 = 4"
definition REPLY_SUCCEEDED :: u8 where "REPLY_SUCCEEDED = 0"
definition REPLY_GENERAL_FAILURE :: u8 where "REPLY_GENERAL_FAILURE = 1"
definition REPLY_NETWORK_UNREACHABLE :: u8 where "REPLY_NETWORK_UNREACHABLE = 3"
definition REPLY_COMMAND_UNSUPPORTED :: u8 where "REPLY_COMMAND_UNSUPPORTED = 7"
definition REPLY_ADDRESS_UNSUPPORTED :: u8 where "REPLY_ADDRESS_UNSUPPORTED = 8"

lemmas socks_constants =
  SOCKS_VERSION_def AUTH_VERSION_def METHOD_NONE_def METHOD_PASSWORD_def METHOD_UNACCEPTABLE_def
  COMMAND_CONNECT_def ADDRESS_IPV4_def ADDRESS_DOMAIN_def ADDRESS_IPV6_def REPLY_SUCCEEDED_def
  REPLY_GENERAL_FAILURE_def REPLY_NETWORK_UNREACHABLE_def REPLY_COMMAND_UNSUPPORTED_def
  REPLY_ADDRESS_UNSUPPORTED_def

datatype socks_error =
    Protocol | CommandUnsupported | Authentication | NotReady | ForbiddenTarget | Io | Timeout

datatype probe_error =
    ProbeUnreachable | ProbeTimeout | ProbeProtocol | ProbeAuthentication

datatype target = TargetIpv4 ipv4addr u16 | TargetDomain string u16

record credentials =
  cr_username :: string
  cr_password :: secret_string

text \<open>The error a failed read or write becomes: \<open>From<io::Error>\<close>, or the elapsed timeout.\<close>

fun socks_io :: "stream_error \<Rightarrow> socks_error" where
  "socks_io StreamStall = Timeout"
| "socks_io StreamEnd = Io"
| "socks_io StreamBroken = Io"

type_synonym 'a socks = "(socks_error, 'a) stream_io"

definition read_bytes :: "nat \<Rightarrow> bytes socks" where
  "read_bytes n = io_err socks_io (read_exact n)"

definition read_u8 :: "u8 socks" where
  "read_u8 = io_then (read_bytes 1) (\<lambda>bs. io_return (hd bs))"

definition read_u16 :: "u16 socks" where
  "read_u16 = io_then (read_bytes 2) (\<lambda>bs. io_return (u16_from_be_bytes (bs ! 0) (bs ! 1)))"

definition send_bytes :: "bytes \<Rightarrow> unit socks" where
  "send_bytes bs = io_err socks_io (write_all bs)"

section \<open>Negotiation\<close>

definition authenticate :: "(bytes \<Rightarrow> bytes) \<Rightarrow> credentials \<Rightarrow> unit socks" where
  "authenticate sha256 credentials =
     io_then read_u8 (\<lambda>version.
     if version \<noteq> AUTH_VERSION then io_fail Authentication
     else
       io_then read_u8 (\<lambda>user_length.
       io_then (read_bytes (unat user_length)) (\<lambda>username.
       io_then read_u8 (\<lambda>password_length.
       io_then (read_bytes (unat password_length)) (\<lambda>password.
       let valid = sha256 username = sha256 (as_bytes (cr_username credentials))
                   \<and> sha256 password = sha256 (as_bytes (expose (cr_password credentials)));
           status = (if valid then 0 else 1)
       in io_then (send_bytes [AUTH_VERSION, status]) (\<lambda>_.
          if status = 0 then io_return () else io_fail Authentication))))))"

definition select_method :: "credentials option \<Rightarrow> bytes \<Rightarrow> u8" where
  "select_method credentials methods =
     (if is_some credentials \<and> List.member methods METHOD_PASSWORD then METHOD_PASSWORD
      else if \<not> is_some credentials \<and> List.member methods METHOD_NONE then METHOD_NONE
      else METHOD_UNACCEPTABLE)"

definition negotiate_method :: "(bytes \<Rightarrow> bytes) \<Rightarrow> credentials option \<Rightarrow> unit socks" where
  "negotiate_method sha256 credentials =
     io_then read_u8 (\<lambda>version.
     io_then read_u8 (\<lambda>method_count.
     if version \<noteq> SOCKS_VERSION \<or> method_count = 0 \<or> 16 < method_count then io_fail Protocol
     else
       io_then (read_bytes (unat method_count)) (\<lambda>methods.
       let selected = select_method credentials methods in
       io_then (send_bytes [SOCKS_VERSION, selected]) (\<lambda>_.
       if selected = METHOD_UNACCEPTABLE then io_fail Authentication
       else if selected = METHOD_PASSWORD then
         (case credentials of
            None \<Rightarrow> io_fail Authentication
          | Some expected \<Rightarrow> authenticate sha256 expected)
       else io_return ()))))"

section \<open>Requests\<close>

definition has_domain_suffix :: "string \<Rightarrow> string \<Rightarrow> bool" where
  "has_domain_suffix domain suffix =
     (case rsplit_once (CHR ''.'') domain of Some (_, candidate) \<Rightarrow> candidate = suffix | None \<Rightarrow> False)"

definition forbidden_domain :: "string \<Rightarrow> bool" where
  "forbidden_domain domain \<longleftrightarrow>
     (let lower = to_ascii_lowercase domain in
      253 < length domain \<or> \<not> is_ascii domain \<or> lower = ''localhost'' \<or> ends_with ''.localhost'' lower
      \<or> has_domain_suffix lower ''local'' \<or> has_domain_suffix lower ''internal''
      \<or> list_ex (\<lambda>label. label = []) (split_on (CHR ''.'') domain))"

fun validate_target :: "target \<Rightarrow> socks_error + unit" where
  "validate_target (TargetIpv4 ip port) =
     (if \<not> is_public_ipv4 ip then Inl ForbiddenTarget
      else if port = 0 then Inl ForbiddenTarget else Inr ())"
| "validate_target (TargetDomain domain port) =
     (if forbidden_domain domain then Inl ForbiddenTarget
      else if port = 0 then Inl ForbiddenTarget else Inr ())"

definition read_address_part :: "u8 \<Rightarrow> target socks" where
  "read_address_part address_type =
     (if address_type = ADDRESS_IPV4 then
        io_then (read_bytes 4) (\<lambda>octets.
        io_then read_u16 (\<lambda>port.
        io_return (TargetIpv4 (Ipv4Addr (octets ! 0) (octets ! 1) (octets ! 2) (octets ! 3)) port)))
      else if address_type = ADDRESS_DOMAIN then
        io_then read_u8 (\<lambda>len.
        if len = 0 then io_fail Protocol
        else
          io_then (read_bytes (unat len)) (\<lambda>raw.
          io_then (io_lift (ok_or Protocol (from_utf8 raw))) (\<lambda>domain.
          io_then read_u16 (\<lambda>port.
          io_return (TargetDomain domain port)))))
      else if address_type = ADDRESS_IPV6 then io_fail ForbiddenTarget
      else io_fail Protocol)"

definition read_request :: "target socks" where
  "read_request =
     io_then read_u8 (\<lambda>version.
     io_then read_u8 (\<lambda>command.
     io_then read_u8 (\<lambda>reserved.
     io_then read_u8 (\<lambda>address_type.
     if version \<noteq> SOCKS_VERSION \<or> reserved \<noteq> 0 then io_fail Protocol
     else if command \<noteq> COMMAND_CONNECT then io_fail CommandUnsupported
     else
       io_then (read_address_part address_type) (\<lambda>target.
       io_then (io_lift (validate_target target)) (\<lambda>_.
       io_return target))))))"

fun encode_request :: "target \<Rightarrow> socks_error + bytes" where
  "encode_request (TargetIpv4 ip port) =
     Inr ([SOCKS_VERSION, COMMAND_CONNECT, 0, ADDRESS_IPV4] @ ipv4_octets ip @ u16_to_be_bytes port)"
| "encode_request (TargetDomain domain port) =
     (if 255 < length domain then Inl Protocol
      else Inr ([SOCKS_VERSION, COMMAND_CONNECT, 0, ADDRESS_DOMAIN, of_nat (length domain)]
        @ as_bytes domain @ u16_to_be_bytes port))"

section \<open>Replies\<close>

definition reply_bytes :: "u8 \<Rightarrow> socket_addr_v4 option \<Rightarrow> bytes" where
  "reply_bytes reply bound =
     [SOCKS_VERSION, reply, 0, ADDRESS_IPV4]
     @ (case bound of
          Some address \<Rightarrow> ipv4_octets (sock_ip address) @ u16_to_be_bytes (sock_port address)
        | None \<Rightarrow> [0, 0, 0, 0, 0, 0])"

definition send_reply :: "u8 \<Rightarrow> socket_addr_v4 option \<Rightarrow> unit socks" where
  "send_reply reply bound = send_bytes (reply_bytes reply bound)"

definition read_reply :: "u8 socks" where
  "read_reply =
     io_then read_u8 (\<lambda>version.
     io_then read_u8 (\<lambda>reply.
     io_then read_u8 (\<lambda>reserved.
     io_then read_u8 (\<lambda>address_type.
     if version \<noteq> SOCKS_VERSION \<or> reserved \<noteq> 0 then io_fail Protocol
     else if address_type = ADDRESS_IPV4 then io_then (read_bytes 6) (\<lambda>_. io_return reply)
     else if address_type = ADDRESS_DOMAIN then
       io_then read_u8 (\<lambda>len.
       io_then (read_bytes (saturating_add (unat len) 2)) (\<lambda>_. io_return reply))
     else if address_type = ADDRESS_IPV6 then io_then (read_bytes 18) (\<lambda>_. io_return reply)
     else io_fail Protocol))))"

section \<open>Resolution\<close>

definition DNS_SERVERS :: "ipv4addr list" where
  "DNS_SERVERS = [Ipv4Addr 1 1 1 1, Ipv4Addr 8 8 8 8]"

text \<open>
  The name servers are asked in turn; \<open>NEXT_DNS_QUERY_ID\<close> is the counter the second component
  returns, incremented with wrap-around for each query.
\<close>

type_synonym exchange = "ipv4addr \<Rightarrow> bytes \<Rightarrow> io_error + bytes"

fun ask_servers ::
    "exchange \<Rightarrow> exchange \<Rightarrow> string \<Rightarrow> ipv4addr list \<Rightarrow> u16 \<Rightarrow> ipv4addr option \<times> u16" where
  "ask_servers udp tcp domain [] query_id = (None, query_id)"
| "ask_servers udp tcp domain (server # servers) query_id =
     (case query_dns_a (udp server) (tcp server) query_id domain of
        Inl _ \<Rightarrow> ask_servers udp tcp domain servers (query_id + 1)
      | Inr addresses \<Rightarrow>
          (case find is_public_ipv4 addresses of
             Some ip \<Rightarrow> (Some ip, query_id + 1)
           | None \<Rightarrow> ask_servers udp tcp domain servers (query_id + 1)))"

fun resolve_public_target ::
    "exchange \<Rightarrow> exchange \<Rightarrow> u16 \<Rightarrow> target \<Rightarrow> socks_error + socket_addr_v4" where
  "resolve_public_target udp tcp query_id (TargetIpv4 ip port) = Inr \<lparr>sock_ip = ip, sock_port = port\<rparr>"
| "resolve_public_target udp tcp query_id (TargetDomain domain port) =
     (case fst (ask_servers udp tcp domain DNS_SERVERS query_id) of
        Some ip \<Rightarrow> Inr \<lparr>sock_ip = ip, sock_port = port\<rparr>
      | None \<Rightarrow> Inl ForbiddenTarget)"

section \<open>The worker\<close>

datatype connect_outcome = ConnectOk "socket_addr_v4 option" | ConnectErr | ConnectTimeout

record worker_env =
  we_require_tun :: bool
  we_routes :: "string option"
  we_udp :: exchange
  we_tcp :: exchange
  we_query_id :: u16
  we_resolve_timeout :: bool
  we_connect :: "socket_addr_v4 \<Rightarrow> connect_outcome"

definition tun_routes_cover_public_ipv4 :: "worker_env \<Rightarrow> bool" where
  "tun_routes_cover_public_ipv4 env =
     (case we_routes env of
        None \<Rightarrow> False
      | Some routes \<Rightarrow> proc_route_table_covers_public_ipv4 routes)"

text \<open>
  The request phase the two handlers share: a refused request is answered with the reply code
  of its error before the error is returned; an elapsed timeout is returned without a reply.
\<close>

definition accept_request :: "target socks" where
  "accept_request c =
     (case read_request c of
        (Inr target, c') \<Rightarrow> (Inr target, c')
      | (Inl Timeout, c') \<Rightarrow> (Inl Timeout, c')
      | (Inl ForbiddenTarget, c') \<Rightarrow>
          io_then (send_reply REPLY_NETWORK_UNREACHABLE None) (\<lambda>_. io_fail ForbiddenTarget) c'
      | (Inl CommandUnsupported, c') \<Rightarrow>
          io_then (send_reply REPLY_COMMAND_UNSUPPORTED None) (\<lambda>_. io_fail CommandUnsupported) c'
      | (Inl e, c') \<Rightarrow> io_then (send_reply REPLY_ADDRESS_UNSUPPORTED None) (\<lambda>_. io_fail e) c')"

definition refuse :: "u8 \<Rightarrow> socks_error \<Rightarrow> 'a socks" where
  "refuse reply e = io_then (send_reply reply None) (\<lambda>_. io_fail e)"

text \<open>
  \<open>handle_worker_connection\<close>.  The result also logs the addresses a TCP connection was
  attempted to; on success it is the address the relay runs to.
\<close>

definition connect_target ::
    "worker_env \<Rightarrow> target \<Rightarrow> conn \<Rightarrow> ((socks_error + socket_addr_v4) \<times> conn) \<times> socket_addr_v4 list" where
  "connect_target env target c =
     (case (if we_resolve_timeout env then Inl Timeout
            else resolve_public_target (we_udp env) (we_tcp env) (we_query_id env) target) of
        Inl e \<Rightarrow> (refuse REPLY_NETWORK_UNREACHABLE e c, [])
      | Inr address \<Rightarrow>
          (case we_connect env address of
             ConnectErr \<Rightarrow> (refuse REPLY_NETWORK_UNREACHABLE Io c, [address])
           | ConnectTimeout \<Rightarrow> (refuse REPLY_NETWORK_UNREACHABLE Timeout c, [address])
           | ConnectOk bound \<Rightarrow>
               (io_then (send_reply REPLY_SUCCEEDED bound) (\<lambda>_. io_return address) c, [address])))"

definition handle_worker_connection ::
    "(bytes \<Rightarrow> bytes) \<Rightarrow> worker_env \<Rightarrow> conn
     \<Rightarrow> ((socks_error + socket_addr_v4) \<times> conn) \<times> socket_addr_v4 list" where
  "handle_worker_connection sha256 env c =
     (case negotiate_method sha256 None c of
        (Inl e, c1) \<Rightarrow> ((Inl e, c1), [])
      | (Inr _, c1) \<Rightarrow>
          (case accept_request c1 of
             (Inl e, c2) \<Rightarrow> ((Inl e, c2), [])
           | (Inr target, c2) \<Rightarrow>
               if we_require_tun env \<and> \<not> tun_routes_cover_public_ipv4 env
               then (refuse REPLY_NETWORK_UNREACHABLE NotReady c2, [])
               else connect_target env target c2))"

section \<open>The gateway\<close>

text \<open>
  \<open>connect_worker\<close> on the stream of the worker's socket (\<open>None\<close>: the socket cannot be opened).
\<close>

definition connect_worker :: "conn option \<Rightarrow> target \<Rightarrow> (socks_error + unit) \<times> conn option" where
  "connect_worker socket target =
     (case socket of
        None \<Rightarrow> (Inl Io, None)
      | Some w \<Rightarrow>
          (case io_then (send_bytes [SOCKS_VERSION, 1, METHOD_NONE]) (\<lambda>_.
                io_then (read_bytes 2) (\<lambda>method_response.
                if method_response \<noteq> [SOCKS_VERSION, METHOD_NONE] then io_fail Protocol
                else
                  io_then (io_lift (encode_request target)) (\<lambda>request.
                  io_then (send_bytes request) (\<lambda>_.
                  io_then read_reply (\<lambda>reply.
                  if reply \<noteq> REPLY_SUCCEEDED then io_fail NotReady else io_return ()))))) w of
             (r, w') \<Rightarrow> (r, Some w')))"

text \<open>
  \<open>handle_gateway_connection\<close>: the result, the client's stream and the worker's stream if one
  was opened.  \<open>active_worker\<close> is the path the watch channel holds.
\<close>

definition handle_gateway_connection ::
    "(bytes \<Rightarrow> bytes) \<Rightarrow> credentials option \<Rightarrow> string option \<Rightarrow> (string \<Rightarrow> conn option) \<Rightarrow> conn
     \<Rightarrow> (socks_error + unit) \<times> conn \<times> conn option" where
  "handle_gateway_connection sha256 credentials active_worker sockets c =
     (case negotiate_method sha256 credentials c of
        (Inl e, c1) \<Rightarrow> (Inl e, c1, None)
      | (Inr _, c1) \<Rightarrow>
          (case accept_request c1 of
             (Inl e, c2) \<Rightarrow> (Inl e, c2, None)
           | (Inr target, c2) \<Rightarrow>
               (case active_worker of
                  None \<Rightarrow> (case refuse REPLY_GENERAL_FAILURE NotReady c2 of (r, c3) \<Rightarrow> (r, c3, None))
                | Some path \<Rightarrow>
                    (case connect_worker (sockets path) target of
                       (Inl e, w) \<Rightarrow> (case refuse REPLY_GENERAL_FAILURE e c2 of (r, c3) \<Rightarrow> (r, c3, w))
                     | (Inr _, w) \<Rightarrow>
                         (case send_reply REPLY_SUCCEEDED None c2 of (r, c3) \<Rightarrow> (r, c3, w))))))"

section \<open>The upstream probe\<close>

fun probe_io :: "stream_error \<Rightarrow> probe_error" where
  "probe_io StreamStall = ProbeTimeout"
| "probe_io StreamEnd = ProbeUnreachable"
| "probe_io StreamBroken = ProbeUnreachable"

definition auth_request :: "string \<Rightarrow> string \<Rightarrow> bytes" where
  "auth_request username password =
     [AUTH_VERSION, of_nat (length username)] @ as_bytes username
     @ [of_nat (length password)] @ as_bytes password"

definition probe_login :: "string option \<Rightarrow> string option \<Rightarrow> (probe_error, unit) stream_io" where
  "probe_login username password =
     (case (username, password) of
        (Some user, Some pass) \<Rightarrow>
          if 255 < length user \<or> 255 < length pass then io_fail ProbeProtocol
          else
            io_then (io_err probe_io (write_all (auth_request user pass))) (\<lambda>_.
            io_then (io_err probe_io (read_exact 2)) (\<lambda>response.
            if response = [AUTH_VERSION, 0] then io_return () else io_fail ProbeAuthentication))
      | _ \<Rightarrow> io_fail ProbeAuthentication)"

definition probe_upstream :: "resolved_upstream \<Rightarrow> conn option \<Rightarrow> (probe_error + unit) \<times> conn option" where
  "probe_upstream endpoint socket =
     (case socket of
        None \<Rightarrow> (Inl ProbeUnreachable, None)
      | Some s \<Rightarrow>
          (case io_then (io_err probe_io (write_all
                  (if is_some (ru_username endpoint) then [SOCKS_VERSION, 2, METHOD_NONE, METHOD_PASSWORD]
                   else [SOCKS_VERSION, 1, METHOD_NONE]))) (\<lambda>_.
                io_then (io_err probe_io (read_exact 2)) (\<lambda>response.
                if response ! 0 \<noteq> SOCKS_VERSION then io_fail ProbeProtocol
                else if response ! 1 = METHOD_NONE then io_return ()
                else if response ! 1 = METHOD_PASSWORD then
                  probe_login (ru_username endpoint) (map_option expose (ru_password endpoint))
                else if response ! 1 = METHOD_UNACCEPTABLE then io_fail ProbeAuthentication
                else io_fail ProbeProtocol)) s of
             (r, s') \<Rightarrow> (r, Some s')))"

end
