(* ===== verification/Socks_Laws.thy ===== *)
theory Socks_Laws
  imports Socks
begin

text \<open>
  What the SOCKS components guarantee: connections are only ever opened to public addresses
  and, where the tunnel is required, only while it carries the default routes; a gateway with
  credentials lets nobody past who did not present them; requests, replies and login messages
  are read back as they were written, so that gateway and worker agree on the target.
\<close>

section \<open>Reading\<close>

lemma read_bytes_run:
  "c_in c = bs @ rest \<Longrightarrow> length bs = n \<Longrightarrow> read_bytes n c = (Inr bs, c\<lparr>c_in := rest\<rparr>)"
  by (auto simp: read_bytes_def io_err_def read_exact_def)

lemma read_u8_run: "c_in c = b # rest \<Longrightarrow> read_u8 c = (Inr b, c\<lparr>c_in := rest\<rparr>)"
  using read_bytes_run [of c "[b]" rest 1] by (simp add: read_u8_def io_then_def)

lemma read_u16_run:
  "c_in c = u16_to_be_bytes w @ rest \<Longrightarrow> read_u16 c = (Inr w, c\<lparr>c_in := rest\<rparr>)"
  using read_bytes_run [of c "u16_to_be_bytes w" rest 2]
  by (simp add: read_u16_def io_then_def u16_to_be_bytes_def)

lemma send_bytes_run: "\<not> c_broken c \<Longrightarrow> send_bytes bs c = (Inr (), c\<lparr>c_out := c_out c @ bs\<rparr>)"
  by (simp add: send_bytes_def io_err_def write_all_def)

lemma read_bytes_Inr [result_simps]:
  "read_bytes n c = (Inr bs, c') \<longleftrightarrow> (\<exists>rest. length bs = n \<and> c_in c = bs @ rest \<and> c' = c\<lparr>c_in := rest\<rparr>)"
  by (simp add: read_bytes_def result_simps)

lemma read_u8_Inr [result_simps]:
  "read_u8 c = (Inr b, c') \<longleftrightarrow> (\<exists>rest. c_in c = b # rest \<and> c' = c\<lparr>c_in := rest\<rparr>)"
  by (auto simp: read_u8_def result_simps length_Suc_conv)

lemma send_bytes_Inr [result_simps]:
  "send_bytes bs c = (Inr u, c') \<longleftrightarrow> \<not> c_broken c \<and> c' = c\<lparr>c_out := c_out c @ bs\<rparr>"
  by (simp add: send_bytes_def result_simps)

section \<open>Requests and replies are read back\<close>

lemma utf8_of_ascii: "is_ascii s \<Longrightarrow> from_utf8 (as_bytes s) = Some s"
  by (simp add: from_utf8_def utf8_valid_ascii)

lemma read_request_run:
  assumes "validate_target t = Inr ()" and "encode_request t = Inr req" and "c_in c = req @ rest"
  shows "read_request c = (Inr t, c\<lparr>c_in := rest\<rparr>)"
proof (cases t)
  case (TargetIpv4 ip port)
  obtain a b d e where ip: "ip = Ipv4Addr a b d e" by (cases ip)
  from assms show ?thesis
    unfolding TargetIpv4 ip
    using read_bytes_run [of "c\<lparr>c_in := a # b # d # e # u16_to_be_bytes port @ rest\<rparr>" "[a, b, d, e]" _ 4]
      read_u16_run [of "c\<lparr>c_in := u16_to_be_bytes port @ rest\<rparr>" port rest]
    by (auto simp: read_request_def read_address_part_def io_then_def read_u8_run socks_constants)
next
  case (TargetDomain domain port)
  have ok: "\<not> forbidden_domain domain" "port \<noteq> 0" using assms(1) TargetDomain by (auto split: if_splits)
  then have len: "length domain \<le> 253" "is_ascii domain" "domain \<noteq> []"
    by (auto simp: forbidden_domain_def Let_def split_on_def)
  have req: "c_in c = [5, 1, 0, 3, of_nat (length domain)] @ as_bytes domain @ u16_to_be_bytes port @ rest"
    using assms len TargetDomain by (auto simp: socks_constants)
  have n: "unat (of_nat (length domain) :: u8) = length domain" using len by simp
  then have nz: "(of_nat (length domain) :: u8) \<noteq> 0" using len by force
  show ?thesis
    unfolding TargetDomain
    using ok n nz req len
      read_bytes_run [of "c\<lparr>c_in := as_bytes domain @ u16_to_be_bytes port @ rest\<rparr>" "as_bytes domain" _ "length domain"]
      read_u16_run [of "c\<lparr>c_in := u16_to_be_bytes port @ rest\<rparr>" port rest]
    by (simp add: read_request_def read_address_part_def io_then_def read_u8_run socks_constants utf8_of_ascii)
qed

lemma encode_request_valid: "validate_target t = Inr () \<Longrightarrow> \<exists>req. encode_request t = Inr req"
  by (cases t) (auto simp: forbidden_domain_def Let_def split: if_splits)

definition request_bytes :: "target \<Rightarrow> bytes" where
  "request_bytes t = (case encode_request t of Inr req \<Rightarrow> req | Inl _ \<Rightarrow> [])"

definition decode_request :: "bytes \<Rightarrow> (target \<times> bytes) option" where
  "decode_request bs =
     (case read_request (stream_of bs) of (Inr t, c) \<Rightarrow> Some (t, c_in c) | _ \<Rightarrow> None)"

interpretation request: stream_codec "\<lambda>t. validate_target t = Inr ()" request_bytes decode_request
proof
  fix t rest
  assume t: "validate_target t = Inr ()"
  then obtain req where "encode_request t = Inr req" using encode_request_valid by blast
  with read_request_run [OF t this, of "stream_of (req @ rest)" rest]
  show "decode_request (request_bytes t @ rest) = Some (t, rest)"
    by (simp add: decode_request_def request_bytes_def stream_of_def)
qed

lemma read_reply_run:
  assumes "c_in c = reply_bytes reply bound @ rest"
  shows "read_reply c = (Inr reply, c\<lparr>c_in := rest\<rparr>)"
proof -
  obtain tail where tail: "reply_bytes reply bound = [5, reply, 0, 1] @ tail" "length tail = 6"
    by (cases bound; cases "sock_ip (the bound)") (auto simp: reply_bytes_def socks_constants u16_to_be_bytes_def)
  show ?thesis
    using assms read_bytes_run [of "c\<lparr>c_in := tail @ rest\<rparr>" tail rest 6]
    by (simp add: read_reply_def io_then_def read_u8_run tail socks_constants)
qed

definition decode_reply :: "bytes \<Rightarrow> ((u8 \<times> socket_addr_v4 option) \<times> bytes) option" where
  "decode_reply bs =
     (case read_reply (stream_of bs) of (Inr r, c) \<Rightarrow> Some ((r, None), c_in c) | _ \<Rightarrow> None)"

interpretation reply: stream_codec "\<lambda>x. snd x = None" "\<lambda>x. reply_bytes (fst x) (snd x)" decode_reply
proof
  fix x :: "u8 \<times> socket_addr_v4 option" and rest
  assume "snd x = None"
  with read_reply_run [of "stream_of (reply_bytes (fst x) (snd x) @ rest)" "fst x" "snd x" rest]
  show "decode_reply (reply_bytes (fst x) (snd x) @ rest) = Some (x, rest)"
    by (cases x) (simp add: decode_reply_def stream_of_def)
qed

section \<open>Targets\<close>

lemma read_request_validated: "read_request c = (Inr t, c') \<Longrightarrow> validate_target t = Inr ()"
  by (auto simp: read_request_def result_simps split: if_splits)

lemma accept_request_Inr: "accept_request c = (Inr t, c') \<longleftrightarrow> read_request c = (Inr t, c')"
  by (auto simp: accept_request_def result_simps split: prod.splits sum.splits socks_error.splits)

lemma ask_servers_public: "fst (ask_servers udp tcp domain servers i) = Some ip \<Longrightarrow> is_public_ipv4 ip"
  by (induction udp tcp domain servers i rule: ask_servers.induct)
     (auto simp: find_Some_iff split: sum.splits option.splits)

lemma resolve_public:
  assumes "validate_target t = Inr ()" and "resolve_public_target udp tcp i t = Inr a"
  shows "is_public_ipv4 (sock_ip a) \<and> sock_port a \<noteq> 0"
  using assms by (cases t) (auto dest: ask_servers_public split: if_splits option.splits)

definition allowed_target :: "worker_env \<Rightarrow> socket_addr_v4 \<Rightarrow> bool" where
  "allowed_target env a \<longleftrightarrow>
     is_public_ipv4 (sock_ip a) \<and> sock_port a \<noteq> 0
     \<and> (we_require_tun env \<longrightarrow> tun_routes_cover_public_ipv4 env)"

lemma connect_target_allowed:
  assumes "validate_target t = Inr ()" and "we_require_tun env \<longrightarrow> tun_routes_cover_public_ipv4 env"
  shows "list_all (allowed_target env) (snd (connect_target env t c))"
  using assms resolve_public [OF assms(1)]
  by (auto simp: connect_target_def allowed_target_def split: sum.splits if_splits connect_outcome.splits)

section \<open>Authentication\<close>

definition login_ok :: "(bytes \<Rightarrow> bytes) \<Rightarrow> credentials \<Rightarrow> bytes \<Rightarrow> bytes \<Rightarrow> bool" where
  "login_ok sha256 expected user pass \<longleftrightarrow>
     sha256 user = sha256 (as_bytes (cr_username expected))
     \<and> sha256 pass = sha256 (as_bytes (expose (cr_password expected)))"

definition login_message :: "bytes \<Rightarrow> bytes \<Rightarrow> bytes" where
  "login_message user pass =
     [1, of_nat (length user)] @ user @ [of_nat (length pass)] @ pass"

lemma authenticate_run:
  assumes "c_in c = login_message user pass @ rest" "length user \<le> 255" "length pass \<le> 255" "\<not> c_broken c"
  shows "authenticate sha256 expected c =
    (if login_ok sha256 expected user pass
     then (Inr (), c\<lparr>c_in := rest, c_out := c_out c @ [1, 0]\<rparr>)
     else (Inl Authentication, c\<lparr>c_in := rest, c_out := c_out c @ [1, 1]\<rparr>))"
  using assms read_bytes_run [of "c\<lparr>c_in := user @ of_nat (length pass) # pass @ rest\<rparr>" user _ "length user"]
    read_bytes_run [of "c\<lparr>c_in := pass @ rest\<rparr>" pass rest "length pass"]
  by (simp add: authenticate_def login_message_def login_ok_def io_then_def read_u8_run socks_constants send_bytes_run)

lemma authenticate_Inr:
  assumes "authenticate sha256 expected c = (Inr u, c')"
  obtains user pass rest where "c_in c = login_message user pass @ rest"
    "length user \<le> 255" "length pass \<le> 255" "login_ok sha256 expected user pass"
proof -
  from assms obtain ul user pl pass rest where
    "c_in c = 1 # ul # user @ pl # pass @ rest" "length user = unat ul" "length pass = unat pl"
    "login_ok sha256 expected user pass"
    by (auto simp: authenticate_def result_simps Let_def socks_constants login_ok_def split: if_splits)
  moreover from this have "of_nat (length user) = ul" "of_nat (length pass) = pl" by simp_all
  ultimately show thesis using that [of user pass rest] by (simp add: login_message_def)
qed

lemma negotiate_password:
  assumes "c_in c = [5, of_nat (length methods)] @ methods @ rest" "0 < length methods" "length methods \<le> 16"
    and "2 \<in> set methods" and "\<not> c_broken c"
  shows "negotiate_method sha256 (Some expected) c =
    authenticate sha256 expected (c\<lparr>c_in := rest, c_out := c_out c @ [5, 2]\<rparr>)"
proof -
  have n: "unat (of_nat (length methods) :: u8) = length methods" using assms(3) by simp
  then have "(of_nat (length methods) :: u8) \<noteq> 0" "\<not> 16 < (of_nat (length methods) :: u8)"
    using assms(2,3) by (force, simp add: word_less_nat_alt)
  with n assms read_bytes_run [of "c\<lparr>c_in := methods @ rest\<rparr>" methods rest "length methods"]
  show ?thesis
    by (simp add: negotiate_method_def io_then_def read_u8_run socks_constants send_bytes_run
        select_method_def is_some_def Let_def)
qed

lemma negotiate_password_Inr:
  assumes "negotiate_method sha256 (Some expected) c = (Inr u, c')"
  obtains methods rest where "c_in c = [5, of_nat (length methods)] @ methods @ rest"
    "0 < length methods" "length methods \<le> 16" "2 \<in> set methods"
    "authenticate sha256 expected (c\<lparr>c_in := rest, c_out := c_out c @ [5, 2]\<rparr>) = (Inr u, c')"
proof -
  from assms obtain n methods rest where r: "c_in c = 5 # n # methods @ rest" "length methods = unat n"
    "n \<noteq> 0" "\<not> 16 < n" "2 \<in> set methods"
    "authenticate sha256 expected (c\<lparr>c_in := rest, c_out := c_out c @ [5, 2]\<rparr>) = (Inr u, c')"
    by (auto simp: negotiate_method_def result_simps Let_def socks_constants select_method_def is_some_def
        split: if_splits)
  moreover have "of_nat (length methods) = n" "0 < length methods" "length methods \<le> 16"
    using r(2-4) by (simp_all add: word_less_nat_alt unat_gt_0)
  ultimately show thesis using that [of methods rest] by simp
qed

section \<open>Gateway and worker\<close>

lemma negotiate_open:
  assumes "c_in c = [5, 1, 0] @ rest" and "\<not> c_broken c"
  shows "negotiate_method sha256 None c = (Inr (), c\<lparr>c_in := rest, c_out := c_out c @ [5, 0]\<rparr>)"
  using assms read_bytes_run [of "c\<lparr>c_in := 0 # rest\<rparr>" "[0]" rest 1]
  by (simp add: negotiate_method_def io_then_def read_u8_run socks_constants send_bytes_run
      select_method_def is_some_def Let_def)

lemma accept_request_run:
  assumes "validate_target t = Inr ()" and "c_in c = request_bytes t @ rest"
  shows "accept_request c = (Inr t, c\<lparr>c_in := rest\<rparr>)"
proof -
  obtain req where "encode_request t = Inr req" using encode_request_valid [OF assms(1)] by blast
  with assms show ?thesis
    using read_request_run [OF assms(1), of req c rest] by (simp add: accept_request_def request_bytes_def)
qed

lemma worker_run:
  assumes t: "validate_target t = Inr ()" and c: "c_in c = [5, 1, 0] @ request_bytes t @ rest" "\<not> c_broken c"
    and env: "we_require_tun env \<longrightarrow> tun_routes_cover_public_ipv4 env" "\<not> we_resolve_timeout env"
      "resolve_public_target (we_udp env) (we_tcp env) (we_query_id env) t = Inr a"
      "we_connect env a = ConnectOk bound"
  shows "handle_worker_connection sha256 env c =
    ((Inr a, c\<lparr>c_in := rest, c_out := c_out c @ [5, 0] @ reply_bytes 0 bound\<rparr>), [a])"
  using negotiate_open [OF c] accept_request_run [OF t, of "c\<lparr>c_in := request_bytes t @ rest, c_out := c_out c @ [5, 0]\<rparr>" rest]
    env c(2)
  by (simp add: handle_worker_connection_def connect_target_def io_then_def send_reply_def send_bytes_run socks_constants)

lemma connect_worker_run:
  assumes "validate_target t = Inr ()" and "c_in w = [5, 0] @ reply_bytes 0 bound @ rest" and "\<not> c_broken w"
  shows "connect_worker (Some w) t =
    (Inr (), Some (w\<lparr>c_in := rest, c_out := c_out w @ [5, 1, 0] @ request_bytes t\<rparr>))"
proof -
  obtain req where "encode_request t = Inr req" using encode_request_valid [OF assms(1)] by blast
  then show ?thesis
    using assms(2,3)
      read_bytes_run [of "w\<lparr>c_out := c_out w @ [5, 1, 0]\<rparr>" "[5, 0]" "reply_bytes 0 bound @ rest" 2]
      read_reply_run [of "w\<lparr>c_in := reply_bytes 0 bound @ rest, c_out := c_out w @ [5, 1, 0] @ req\<rparr>" 0 bound rest]
    by (simp add: connect_worker_def io_then_def send_bytes_run socks_constants request_bytes_def)
qed

lemma connect_worker_Inr:
  assumes "connect_worker socket t = (Inr u, w)"
  obtains w0 w' where "socket = Some w0" "w = Some w'" "c_out w' = c_out w0 @ [5, 1, 0] @ request_bytes t"
proof -
  have reply_out: "c_out c' = c_out c" if "read_reply c = (Inr r, c')" for c c' r
    using that by (auto simp: read_reply_def result_simps split: if_splits)
  show thesis
    using assms that
    by (auto simp: connect_worker_def result_simps socks_constants request_bytes_def
        split: option.splits prod.splits if_splits dest!: reply_out)
qed

section \<open>Properties\<close>

text \<open>
  C5.  The worker opens a TCP connection only to a public IPv4 address and a nonzero port, and
  where the tunnel is required only while \<open>tun0\<close> carries the default routes; whatever bytes the
  client sends and whatever the name servers answer.
\<close>

theorem worker_connects_only_public:
  "list_all (allowed_target env) (snd (handle_worker_connection sha256 env c))"
proof (cases "negotiate_method sha256 None c")
  case (Pair r c1)
  obtain r2 c2 where a: "accept_request c1 = (r2, c2)" by fastforce
  show ?thesis
  proof (cases "r2")
    case (Inr t)
    then have "validate_target t = Inr ()"
      using a accept_request_Inr read_request_validated by blast
    then show ?thesis
      using connect_target_allowed [of t env c2] Pair a Inr
      by (auto simp: handle_worker_connection_def split: sum.splits)
  qed (use Pair a in \<open>auto simp: handle_worker_connection_def split: sum.splits\<close>)
qed

text \<open>
  What a client must have sent to be logged in, byte by byte: a greeting that offers the password
  method, and a login whose user name and password have the digests of the configured ones; \<open>rest\<close>
  is what follows.
\<close>

definition logged_in :: "(bytes \<Rightarrow> bytes) \<Rightarrow> credentials \<Rightarrow> bytes \<Rightarrow> bytes \<Rightarrow> bool" where
  "logged_in sha256 expected sent rest \<longleftrightarrow>
     (\<exists>methods user pass.
        sent = [5, of_nat (length methods)] @ methods
          @ [1, of_nat (length user)] @ user @ [of_nat (length pass)] @ pass @ rest
        \<and> 0 < length methods \<and> length methods \<le> 16 \<and> 2 \<in> set methods
        \<and> length user \<le> 255 \<and> length pass \<le> 255
        \<and> sha256 user = sha256 (as_bytes (cr_username expected))
        \<and> sha256 pass = sha256 (as_bytes (expose (cr_password expected))))"

lemma negotiate_logged_in:
  "negotiate_method sha256 (Some expected) c = (Inr u, c') \<Longrightarrow> \<exists>rest. logged_in sha256 expected (c_in c) rest"
  unfolding logged_in_def
  by (elim negotiate_password_Inr authenticate_Inr) (fastforce simp: login_message_def login_ok_def)

lemma logged_in_negotiates:
  assumes "logged_in sha256 expected (c_in c) rest" and "\<not> c_broken c"
  shows "negotiate_method sha256 (Some expected) c = (Inr (), c\<lparr>c_in := rest, c_out := c_out c @ [5, 2, 1, 0]\<rparr>)"
proof -
  obtain methods user pass where m: "c_in c = [5, of_nat (length methods)] @ methods @ login_message user pass @ rest"
    "0 < length methods" "length methods \<le> 16" "2 \<in> set methods" "length user \<le> 255" "length pass \<le> 255"
    "login_ok sha256 expected user pass"
    using assms(1) by (auto simp: logged_in_def login_message_def login_ok_def)
  show ?thesis
    unfolding negotiate_password [OF m(1-4) assms(2)]
    using authenticate_run [of "c\<lparr>c_in := login_message user pass @ rest, c_out := c_out c @ [5, 2]\<rparr>" user pass rest] m(5-7) assms(2)
    by simp
qed

text \<open>
  C6.  A gateway with credentials reaches a worker only for a client that has logged in with them.
  If the bytes the client sent are not a greeting with the password method followed by a correct
  login, the connection ends in an error and no worker's socket is opened.  If they are, and a
  request for an admissible target follows while a worker is published, then that worker's socket
  is asked for exactly this target, and the client is told success exactly when the worker
  reported it.
\<close>

theorem gateway_authenticates:
  assumes "handle_gateway_connection sha256 (Some expected) active_worker sockets c = (r, c', w)"
  shows "((\<nexists>rest. logged_in sha256 expected (c_in c) rest) \<longrightarrow> w = None \<and> (\<exists>e. r = Inl e))
    \<and> (\<forall>t path rest. logged_in sha256 expected (c_in c) (request_bytes t @ rest) \<longrightarrow> \<not> c_broken c \<longrightarrow>
        validate_target t = Inr () \<longrightarrow> active_worker = Some path \<longrightarrow>
        w = snd (connect_worker (sockets path) t) \<and> (r = Inr () \<longleftrightarrow> fst (connect_worker (sockets path) t) = Inr ()))"
proof (intro conjI impI allI)
  assume "\<nexists>rest. logged_in sha256 expected (c_in c) rest"
  then obtain e c1 where "negotiate_method sha256 (Some expected) c = (Inl e, c1)"
    using negotiate_logged_in [of sha256 expected c] by (metis old.prod.exhaust sum.exhaust)
  then show "w = None" "\<exists>e. r = Inl e" using assms by (auto simp: handle_gateway_connection_def)
next
  fix t path rest
  assume login: "logged_in sha256 expected (c_in c) (request_bytes t @ rest)" "\<not> c_broken c"
    and t: "validate_target t = Inr ()" and path: "active_worker = Some path"
  have "accept_request (c\<lparr>c_in := request_bytes t @ rest, c_out := c_out c @ [5, 2, 1, 0]\<rparr>)
      = (Inr t, c\<lparr>c_in := rest, c_out := c_out c @ [5, 2, 1, 0]\<rparr>)"
    using accept_request_run [OF t, of "c\<lparr>c_in := request_bytes t @ rest, c_out := c_out c @ [5, 2, 1, 0]\<rparr>" rest] login(2) by simp
  then have handled: "handle_gateway_connection sha256 (Some expected) active_worker sockets c =
      (let c2 = c\<lparr>c_in := rest, c_out := c_out c @ [5, 2, 1, 0]\<rparr>
       in case connect_worker (sockets path) t of
            (Inl e, w) \<Rightarrow> (case refuse REPLY_GENERAL_FAILURE e c2 of (r, c3) \<Rightarrow> (r, c3, w))
          | (Inr _, w) \<Rightarrow> (case send_reply REPLY_SUCCEEDED None c2 of (r, c3) \<Rightarrow> (r, c3, w)))"
    using logged_in_negotiates [OF login] path by (simp add: handle_gateway_connection_def Let_def)
  obtain x v where con: "connect_worker (sockets path) t = (x, v)" by fastforce
  show "w = snd (connect_worker (sockets path) t)" "r = Inr () \<longleftrightarrow> fst (connect_worker (sockets path) t) = Inr ()"
    using assms login(2) unfolding handled con Let_def
    by (cases x; auto simp: refuse_def send_reply_def send_bytes_run io_then_def io_fail_def)+
qed

definition sample_login :: "string \<Rightarrow> bytes \<Rightarrow> conn" where
  "sample_login pass rest = stream_of ([5, 1, 2] @ login_message (as_bytes ''me'') (as_bytes pass) @ rest)"

theorem gateway_authenticates_witness:
  "\<exists>r c' w. handle_gateway_connection id (Some \<lparr>cr_username = ''me'', cr_password = SecretString ''x''\<rparr>) (Some ''/run/w'')
      (\<lambda>_. Some (stream_of [])) (sample_login ''x'' (request_bytes (TargetIpv4 (Ipv4Addr 1 1 1 1) 443))) = (r, c', Some w)
    \<and> c_out w = [5, 1, 0]"
proof -
  let ?e = "\<lparr>cr_username = ''me'', cr_password = SecretString ''x''\<rparr>" and ?t = "TargetIpv4 (Ipv4Addr 1 1 1 1) 443"
  let ?c = "sample_login ''x'' (request_bytes ?t)"
  obtain r c' w where h: "handle_gateway_connection id (Some ?e) (Some ''/run/w'') (\<lambda>_. Some (stream_of [])) ?c = (r, c', w)"
    by (metis prod.exhaust)
  have login: "logged_in id ?e (c_in ?c) (request_bytes ?t @ [])" "\<not> c_broken ?c"
    unfolding logged_in_def sample_login_def
    by (rule exI [of _ "[2]"], rule exI [of _ "as_bytes ''me''"], rule exI [of _ "as_bytes ''x''"])
       (simp_all add: stream_of_def login_message_def)
  have "is_public_ipv4 (Ipv4Addr 1 1 1 1)" by code_simp
  then have "validate_target ?t = Inr ()" by simp
  then have "w = snd (connect_worker (Some (stream_of [])) ?t)"
    using conjunct2 [OF gateway_authenticates [OF h], rule_format, OF login _ refl] by blast
  moreover have "map_option c_out (snd (connect_worker (Some (stream_of [])) ?t)) = Some [5, 1, 0]"
    by (simp add: connect_worker_def io_then_def send_bytes_run stream_of_def socks_constants read_bytes_def read_exact_def
        io_err_def)
  ultimately show ?thesis using h by auto
qed

text \<open>
  Requests are unambiguous: a valid target written by \<open>encode_request\<close> is read back as the
  same target with the rest of the stream untouched, and two different targets never have
  encodings one of which continues the other.
\<close>

lemma request_roundtrip:
  assumes "validate_target t = Inr ()" and "validate_target t' = Inr ()"
  shows "decode_request (request_bytes t @ rest) = Some (t, rest)
    \<and> (request_bytes t @ rest = request_bytes t' @ rest' \<longrightarrow> t = t' \<and> rest = rest')"
  using request.dec_enc [OF assms(1)] request.enc_prefix_free [OF assms] by blast

text \<open>
  Gateway and worker agree: if the worker can resolve and reach a valid target, then the
  bytes the gateway sends for that target make the worker connect to the resolved address and
  to nothing else, and the bytes the worker answers make the gateway's request succeed.
\<close>

lemma gateway_worker_agree:
  assumes "validate_target t = Inr ()"
    and "we_require_tun env \<longrightarrow> tun_routes_cover_public_ipv4 env" and "\<not> we_resolve_timeout env"
    and "resolve_public_target (we_udp env) (we_tcp env) (we_query_id env) t = Inr a"
    and "we_connect env a = ConnectOk bound"
  shows "\<exists>cw w. handle_worker_connection sha256 env (stream_of ([5, 1, 0] @ request_bytes t)) = ((Inr a, cw), [a])
    \<and> connect_worker (Some (stream_of (c_out cw))) t = (Inr (), Some w)
    \<and> c_out w = [5, 1, 0] @ request_bytes t"
  using worker_run [OF assms(1) _ _ assms(2-5), of "stream_of ([5, 1, 0] @ request_bytes t)" "[]"]
    connect_worker_run [OF assms(1), of "stream_of ([5, 0] @ reply_bytes 0 bound)" bound "[]"]
  by (simp add: stream_of_def)

definition sample_env :: worker_env where
  "sample_env = \<lparr>we_require_tun = False, we_routes = None, we_udp = \<lambda>_ _. Inl TimedOut, we_tcp = \<lambda>_ _. Inl TimedOut,
     we_query_id = 0, we_resolve_timeout = False, we_connect = \<lambda>a. ConnectOk None\<rparr>"

text \<open>
  The gateway reports success only through the active worker: it must have one, and the worker's
  socket received exactly the greeting and the request for a target that passed validation; with
  credentials configured the client has logged in with them.
\<close>

definition client_admitted :: "(bytes \<Rightarrow> bytes) \<Rightarrow> credentials option \<Rightarrow> conn \<Rightarrow> bool" where
  "client_admitted sha256 credentials c \<longleftrightarrow>
     (case credentials of
        None \<Rightarrow> True
      | Some expected \<Rightarrow> \<exists>methods user pass rest.
          c_in c = [5, of_nat (length methods)] @ methods @ login_message user pass @ rest
          \<and> login_ok sha256 expected user pass)"

lemma negotiated_client_admitted:
  "negotiate_method sha256 credentials c = (Inr u, c') \<Longrightarrow> client_admitted sha256 credentials c"
  unfolding client_admitted_def
  by (cases credentials) (simp, auto elim!: negotiate_password_Inr authenticate_Inr, force)

lemma gateway_success:
  assumes "handle_gateway_connection sha256 credentials active_worker sockets c = (Inr (), c', w)"
  shows "\<exists>path w0 w' t. active_worker = Some path \<and> sockets path = Some w0 \<and> w = Some w'
    \<and> validate_target t = Inr () \<and> c_out w' = c_out w0 @ [5, 1, 0] @ request_bytes t
    \<and> client_admitted sha256 credentials c"
proof -
  from assms obtain c1 t c2 path where n: "negotiate_method sha256 credentials c = (Inr (), c1)"
    and t: "accept_request c1 = (Inr t, c2)" and path: "active_worker = Some path"
    and con: "connect_worker (sockets path) t = (Inr (), w)"
    by (auto simp: handle_gateway_connection_def refuse_def result_simps
        split: prod.splits sum.splits option.splits)
  from con obtain w0 w' where "sockets path = Some w0" "w = Some w'" "c_out w' = c_out w0 @ [5, 1, 0] @ request_bytes t"
    by (rule connect_worker_Inr)
  moreover have "validate_target t = Inr ()" using t accept_request_Inr read_request_validated by blast
  ultimately show ?thesis using path negotiated_client_admitted [OF n] by blast
qed

lemma gateway_sample:
  "\<exists>c' w. handle_gateway_connection id None (Some path) (\<lambda>_. Some (stream_of ([5, 0] @ reply_bytes 0 None)))
     (stream_of ([5, 1, 0] @ request_bytes (TargetIpv4 (Ipv4Addr 1 1 1 1) 443))) = (Inr (), c', w)"
proof -
  let ?t = "TargetIpv4 (Ipv4Addr 1 1 1 1) 443"
  let ?c = "stream_of ([5, 1, 0] @ request_bytes ?t)"
  have "is_public_ipv4 (Ipv4Addr 1 1 1 1)" by code_simp
  then have t: "validate_target ?t = Inr ()" by simp
  have "negotiate_method id None ?c = (Inr (), ?c\<lparr>c_in := request_bytes ?t, c_out := [5, 0]\<rparr>)"
    using negotiate_open [of ?c "request_bytes ?t" id] by (simp add: stream_of_def)
  moreover have "accept_request (?c\<lparr>c_in := request_bytes ?t, c_out := [5, 0]\<rparr>)
      = (Inr ?t, ?c\<lparr>c_in := [], c_out := [5, 0]\<rparr>)"
    using accept_request_run [OF t, of "?c\<lparr>c_in := request_bytes ?t, c_out := [5, 0]\<rparr>" "[]"] by simp
  moreover have "\<exists>w. connect_worker (Some (stream_of ([5, 0] @ reply_bytes 0 None))) ?t = (Inr (), Some w)"
    using connect_worker_run [OF t, of "stream_of ([5, 0] @ reply_bytes 0 None)" None "[]"] by (simp add: stream_of_def)
  ultimately show ?thesis
    by (auto simp: handle_gateway_connection_def send_reply_def send_bytes_run stream_of_def)
qed

end
