(* ===== verification/Relay.thy ===== *)
theory Relay
  imports Socks_Laws
begin

text \<open>
  The connection handlers of \<open>src/src/socks.rs\<close> to their end: after the success reply both run
  \<open>tokio::io::copy_bidirectional\<close>, which is an argument here.  What the program relies on is its
  documented behaviour, \<open>copies_both\<close>: between two streams that deliver all their bytes and end,
  every byte that arrives on one side is written to the other side, in order.
\<close>

type_synonym copier = "conn \<Rightarrow> conn \<Rightarrow> (stream_error + nat \<times> nat) \<times> conn \<times> conn"

definition gateway_connection ::
    "copier \<Rightarrow> (bytes \<Rightarrow> bytes) \<Rightarrow> credentials option \<Rightarrow> string option \<Rightarrow> (string \<Rightarrow> conn option) \<Rightarrow> conn
     \<Rightarrow> (socks_error + unit) \<times> conn \<times> conn option" where
  "gateway_connection copy sha256 credentials active_worker sockets c =
     (case handle_gateway_connection sha256 credentials active_worker sockets c of
        (Inr _, c1, Some w1) \<Rightarrow>
          (case copy c1 w1 of
             (Inl e, c2, w2) \<Rightarrow> (Inl (socks_io e), c2, Some w2)
           | (Inr transferred, c2, w2) \<Rightarrow> (Inr (), c2, Some w2))
      | failed \<Rightarrow> failed)"

definition worker_connection ::
    "copier \<Rightarrow> (bytes \<Rightarrow> bytes) \<Rightarrow> worker_env \<Rightarrow> (socket_addr_v4 \<Rightarrow> conn) \<Rightarrow> conn
     \<Rightarrow> (socks_error + unit) \<times> conn \<times> conn option" where
  "worker_connection copy sha256 env targets c =
     (case handle_worker_connection sha256 env c of
        ((Inl e, c1), attempts) \<Rightarrow> (Inl e, c1, None)
      | ((Inr address, c1), attempts) \<Rightarrow>
          (case copy c1 (targets address) of
             (Inl e, c2, t2) \<Rightarrow> (Inl (socks_io e), c2, Some t2)
           | (Inr transferred, c2, t2) \<Rightarrow> (Inr (), c2, Some t2)))"

definition intact :: "conn \<Rightarrow> bool" where
  "intact c \<longleftrightarrow> \<not> c_broken c \<and> \<not> c_stalled c"

definition copies_both :: "copier \<Rightarrow> bool" where
  "copies_both copy \<longleftrightarrow>
     (\<forall>a b. intact a \<and> intact b \<longrightarrow>
        copy a b = (Inr (length (c_in a), length (c_in b)),
          a\<lparr>c_in := [], c_out := c_out a @ c_in b\<rparr>, b\<lparr>c_in := [], c_out := c_out b @ c_in a\<rparr>))"

section \<open>The bridge for the quality client\<close>

text \<open>
  \<open>one_shot_bridge\<close> binds a loopback port, accepts one connection there and copies between it and
  the worker's Unix socket; the result of the spawned task is the second component.
\<close>

definition bridge_task ::
    "copier \<Rightarrow> (stream_error + conn) \<Rightarrow> (string \<Rightarrow> stream_error + conn) \<Rightarrow> string
     \<Rightarrow> stream_error + conn \<times> conn" where
  "bridge_task copy accepted connect worker_socket =
     and_then accepted (\<lambda>tcp.
     and_then (connect worker_socket) (\<lambda>unix.
     case copy tcp unix of
       (Inl e, _) \<Rightarrow> Inl e
     | (Inr transferred, tcp, unix) \<Rightarrow> Inr (tcp, unix)))"

definition one_shot_bridge ::
    "copier \<Rightarrow> (stream_error + u16) \<Rightarrow> (stream_error + conn) \<Rightarrow> (string \<Rightarrow> stream_error + conn) \<Rightarrow> string
     \<Rightarrow> stream_error + socket_addr_v4 \<times> (stream_error + conn \<times> conn)" where
  "one_shot_bridge copy bound_port accepted connect worker_socket =
     and_then bound_port (\<lambda>port.
       Inr (\<lparr>sock_ip = Ipv4Addr 127 0 0 1, sock_port = port\<rparr>, bridge_task copy accepted connect worker_socket))"

text \<open>The bridge listens on the loopback address only, and adds or removes no byte.\<close>

lemma bridge_transparent:
  assumes "copies_both copy" and "intact tcp" and "intact unix"
  shows "\<exists>tcp' unix'. one_shot_bridge copy (Inr port) (Inr tcp) (\<lambda>_. Inr unix) path =
      Inr (\<lparr>sock_ip = Ipv4Addr 127 0 0 1, sock_port = port\<rparr>, Inr (tcp', unix'))
    \<and> c_out unix' = c_out unix @ c_in tcp \<and> c_out tcp' = c_out tcp @ c_in unix"
  using assms by (simp add: one_shot_bridge_def bridge_task_def copies_both_def)

lemma worker_connection_run:
  assumes "copies_both copy" and t: "validate_target t = Inr ()"
    and env: "we_require_tun env \<longrightarrow> tun_routes_cover_public_ipv4 env" "\<not> we_resolve_timeout env"
      "resolve_public_target (we_udp env) (we_tcp env) (we_query_id env) t = Inr a" "we_connect env a = ConnectOk bound"
    and "targets a = stream_of download"
  shows "worker_connection copy sha256 env targets (stream_of ([5, 1, 0] @ request_bytes t @ upload)) =
    (Inr (), (stream_of [])\<lparr>c_out := [5, 0] @ reply_bytes 0 bound @ download\<rparr>, Some ((stream_of [])\<lparr>c_out := upload\<rparr>))"
proof -
  let ?c = "stream_of ([5, 1, 0] @ request_bytes t @ upload)"
  have "handle_worker_connection sha256 env ?c =
      ((Inr a, ?c\<lparr>c_in := upload, c_out := [5, 0] @ reply_bytes 0 bound\<rparr>), [a])"
    using worker_run [OF t _ _ env, of ?c upload] by (simp add: stream_of_def)
  then show ?thesis using assms(1,7) by (simp add: worker_connection_def copies_both_def intact_def stream_of_def)
qed

lemma gateway_connection_run:
  assumes "copies_both copy" and t: "validate_target t = Inr ()"
    and n: "negotiate_method sha256 credentials c = (Inr (), c1)" and c1: "c_in c1 = request_bytes t @ upload" "intact c1"
    and w: "sockets path = Some (stream_of ([5, 0] @ reply_bytes 0 bound @ download))"
  shows "gateway_connection copy sha256 credentials (Some path) sockets c =
    (Inr (), c1\<lparr>c_in := [], c_out := c_out c1 @ reply_bytes 0 None @ download\<rparr>,
     Some ((stream_of [])\<lparr>c_out := [5, 1, 0] @ request_bytes t @ upload\<rparr>))"
proof -
  have "connect_worker (sockets path) t =
      (Inr (), Some ((stream_of download)\<lparr>c_out := [5, 1, 0] @ request_bytes t\<rparr>))"
    using connect_worker_run [OF t, of "stream_of ([5, 0] @ reply_bytes 0 bound @ download)" bound download] w
    by (simp add: stream_of_def)
  then have "handle_gateway_connection sha256 credentials (Some path) sockets c =
      (Inr (), c1\<lparr>c_in := upload, c_out := c_out c1 @ reply_bytes 0 None\<rparr>,
       Some ((stream_of download)\<lparr>c_out := [5, 1, 0] @ request_bytes t\<rparr>))"
    using n accept_request_run [OF t c1(1)] c1(2)
    by (simp add: handle_gateway_connection_def send_reply_def send_bytes_run intact_def socks_constants)
  then show ?thesis using assms(1) c1(2) by (simp add: gateway_connection_def copies_both_def intact_def stream_of_def)
qed

text \<open>
  C8.  The proxy is transparent, end to end.  A client that has passed negotiation sends a request
  for a valid target that the worker can reach, followed at once by any bytes \<open>upload\<close>; the target
  answers with any bytes \<open>download\<close>.  Then the two handlers fit together: the worker, fed with
  exactly what the gateway writes to its socket, writes exactly what the gateway reads there; both
  return without error; the target receives \<open>upload\<close> and nothing else; the client receives,
  after the negotiation, the success reply and \<open>download\<close>, and nothing else.  In particular no
  byte of a client that does not wait for the reply is lost.
\<close>

theorem relay_transparent:
  assumes "copies_both copy" and "validate_target t = Inr ()"
    and "negotiate_method sha256 credentials c = (Inr (), c1)" and "c_in c1 = request_bytes t @ upload" and "intact c1"
    and "we_require_tun env \<longrightarrow> tun_routes_cover_public_ipv4 env" and "\<not> we_resolve_timeout env"
    and "resolve_public_target (we_udp env) (we_tcp env) (we_query_id env) t = Inr a"
    and "we_connect env a = ConnectOk bound" and "targets a = stream_of download"
  shows "let to_worker = [5, 1, 0] @ request_bytes t @ upload; from_worker = [5, 0] @ reply_bytes 0 bound @ download
    in \<exists>c2 g2 w2 t2.
      worker_connection copy sha256 env targets (stream_of to_worker) = (Inr (), w2, Some t2)
      \<and> gateway_connection copy sha256 credentials (Some path) (\<lambda>_. Some (stream_of from_worker)) c = (Inr (), c2, Some g2)
      \<and> c_out g2 = to_worker \<and> c_out w2 = from_worker
      \<and> c_out t2 = upload \<and> c_out c2 = c_out c1 @ reply_bytes 0 None @ download"
  using worker_connection_run [where targets = targets, OF assms(1,2,6-10), of sha256 upload]
    gateway_connection_run [OF assms(1-5), of "\<lambda>_. Some (stream_of ([5, 0] @ reply_bytes 0 bound @ download))" path bound download]
  by (simp add: Let_def)

definition copy_streams :: copier where
  "copy_streams a b =
     (if \<not> intact a \<or> \<not> intact b then (Inl StreamBroken, a, b)
      else (Inr (length (c_in a), length (c_in b)),
        a\<lparr>c_in := [], c_out := c_out a @ c_in b\<rparr>, b\<lparr>c_in := [], c_out := c_out b @ c_in a\<rparr>))"

theorem relay_transparent_witness:
  "\<exists>c2 g2. gateway_connection copy_streams id None (Some ''w'')
       (\<lambda>_. Some (stream_of ([5, 0] @ reply_bytes 0 None @ [9])))
       (stream_of ([5, 1, 0] @ request_bytes (TargetIpv4 (Ipv4Addr 1 1 1 1) 443) @ [7, 8])) = (Inr (), c2, Some g2)
     \<and> c_out c2 = [5, 0] @ reply_bytes 0 None @ [9]"
proof -
  let ?t = "TargetIpv4 (Ipv4Addr 1 1 1 1) 443"
  let ?c = "stream_of ([5, 1, 0] @ request_bytes ?t @ [7, 8])"
  have "is_public_ipv4 (Ipv4Addr 1 1 1 1)" by code_simp
  then have t: "validate_target ?t = Inr ()" by simp
  have copy: "copies_both copy_streams" by (simp add: copies_both_def copy_streams_def)
  have n: "negotiate_method id None ?c = (Inr (), ?c\<lparr>c_in := request_bytes ?t @ [7, 8], c_out := [5, 0]\<rparr>)"
    using negotiate_open [of ?c "request_bytes ?t @ [7, 8]" id] by (simp add: stream_of_def)
  from relay_transparent [OF copy t n, of "[7, 8]" sample_env "\<lparr>sock_ip = Ipv4Addr 1 1 1 1, sock_port = 443\<rparr>" None
      "\<lambda>_. stream_of [9]" "[9]" "''w''"]
  show ?thesis by (auto simp: Let_def intact_def stream_of_def sample_env_def)
qed

end
