(* ===== verification/Auto_Connect.thy ===== *)
theory Auto_Connect
  imports Domain_Nodes
begin

text \<open>
  Automatic node selection, \<open>src/src/auto_connect.rs\<close>: filter the list by availability,
  exclusion, region and IPPure traits, then take the maximum under the bandwidth comparison.
  The comparison closure is an instance of the \<open>comparator\<close> contract.
\<close>

section \<open>Selection\<close>

definition matches_region :: "vpn_node \<Rightarrow> auto_connect_config \<Rightarrow> bool" where
  "matches_region node config =
     (case ac_region config of
        None \<Rightarrow> True
      | Some region \<Rightarrow> eq_ignore_ascii_case (vn_country_short node) region)"

definition matches_ip_traits ::
    "test_record option \<Rightarrow> ip_type_filter \<Rightarrow> residential_filter \<Rightarrow> bool" where
  "matches_ip_traits record ip_type residential =
     (if ip_type = AnyType \<and> residential = AnyResidential then True
      else case Option.bind record tr_result of
        None \<Rightarrow> False
      | Some result \<Rightarrow>
          (case ip_type of
             AnyType \<Rightarrow> True
           | Native \<Rightarrow> \<not> ip_is_broadcast result
           | Broadcast \<Rightarrow> ip_is_broadcast result)
          \<and> (case residential of
             AnyResidential \<Rightarrow> True
           | Residential \<Rightarrow> ip_is_residential result
           | NonResidential \<Rightarrow> \<not> ip_is_residential result))"

definition ping_or_max :: "vpn_node \<Rightarrow> nat" where
  "ping_or_max node = (case vn_ping_ms node of None \<Rightarrow> 4294967295 | Some p \<Rightarrow> p)"

definition bandwidth_order :: "vpn_node \<Rightarrow> vpn_node \<Rightarrow> ordering" where
  "bandwidth_order left right =
     then_with (then_with (then_with
       (cmp (vn_speed_bps left) (vn_speed_bps right))
       (cmp (vn_score left) (vn_score right)))
       (cmp (ping_or_max right) (ping_or_max left)))
       (cmp (vn_id right) (vn_id left))"

definition auto_candidate ::
    "(node_id \<rightharpoonup> test_record) \<Rightarrow> auto_connect_config \<Rightarrow> node_id set \<Rightarrow> vpn_node \<Rightarrow> bool" where
  "auto_candidate tests config excluded node \<longleftrightarrow>
     vn_availability node = Available \<and> vn_id node \<notin> excluded \<and> matches_region node config
     \<and> matches_ip_traits (tests (vn_id node)) (ac_ip_type config) (ac_residential config)"

definition select_node ::
    "vpn_node list \<Rightarrow> (node_id \<rightharpoonup> test_record) \<Rightarrow> auto_connect_config \<Rightarrow> node_id set \<Rightarrow> node_id option" where
  "select_node nodes tests config excluded =
     map_option vn_id (max_by bandwidth_order (filter (auto_candidate tests config excluded) nodes))"

section \<open>Laws\<close>

interpretation bandwidth: comparator bandwidth_order
proof -
  have "comparator (\<lambda>left right. bandwidth_order left right)"
    unfolding bandwidth_order_def by (intro comparator_intros)
  then show "comparator bandwidth_order" .
qed

lemma bandwidth_equal_id: "bandwidth_order a b = Equal \<Longrightarrow> vn_id a = vn_id b"
  by (simp add: bandwidth_order_def)

lemma select_node_SomeE:
  assumes "select_node nodes tests config excluded = Some i"
  obtains n where "n \<in> set nodes" "auto_candidate tests config excluded n" "vn_id n = i"
    "\<And>m. m \<in> set nodes \<Longrightarrow> auto_candidate tests config excluded m \<Longrightarrow> bandwidth_order m n \<noteq> Greater"
proof -
  let ?xs = "filter (auto_candidate tests config excluded) nodes"
  from assms obtain n where n: "max_by bandwidth_order ?xs = Some n" "vn_id n = i"
    by (auto simp: select_node_def)
  with max_by_mem [OF n(1)] bandwidth.max_by_upper [OF n(1)] that show thesis by auto
qed

lemma select_node_None_iff:
  "select_node nodes tests config excluded = None \<longleftrightarrow>
   (\<forall>n \<in> set nodes. \<not> auto_candidate tests config excluded n)"
  by (auto simp: select_node_def filter_empty_conv)

section \<open>Properties of automatic selection\<close>

definition sample_node :: "string \<Rightarrow> nat \<Rightarrow> vpn_node" where
  "sample_node i speed =
     \<lparr>vn_id = NodeId i, vn_hostname = ''h'', vn_ip = Ipv4Addr 1 2 3 4, vn_score = 1, vn_ping_ms = None,
      vn_speed_bps = speed, vn_country_long = ''Japan'', vn_country_short = ''JP'', vn_sessions = 0,
      vn_uptime_ms = 0, vn_total_users = 0, vn_total_traffic_bytes = 0, vn_log_type = [],
      vn_operator = [], vn_message = [], vn_tcp_port = None, vn_availability = Available,
      vn_openvpn = None\<rparr>"

text \<open>
  What is promised, independently of the filter and the comparison of the code: which nodes an
  automatic connection may use, and when one of them is preferred to another.
\<close>

definition acceptable :: "(node_id \<rightharpoonup> test_record) \<Rightarrow> auto_connect_config \<Rightarrow> node_id set \<Rightarrow> vpn_node \<Rightarrow> bool" where
  "acceptable tests config excluded node \<longleftrightarrow>
     vn_availability node = Available \<and> vn_id node \<notin> excluded
     \<and> (\<forall>region. ac_region config = Some region \<longrightarrow>
          map ascii_lower region = map ascii_lower (vn_country_short node))
     \<and> (ac_ip_type config = AnyType \<and> ac_residential config = AnyResidential
        \<or> (\<exists>test result. tests (vn_id node) = Some test \<and> tr_result test = Some result
             \<and> (ac_ip_type config = Native \<longrightarrow> \<not> ip_is_broadcast result)
             \<and> (ac_ip_type config = Broadcast \<longrightarrow> ip_is_broadcast result)
             \<and> (ac_residential config = Residential \<longrightarrow> ip_is_residential result)
             \<and> (ac_residential config = NonResidential \<longrightarrow> \<not> ip_is_residential result)))"

text \<open>A higher bandwidth, else a higher score, else a lower ping (none counts as the largest), else the smaller identifier.\<close>

definition preferred :: "vpn_node \<Rightarrow> vpn_node \<Rightarrow> bool" where
  "preferred m n \<longleftrightarrow>
     vn_speed_bps m > vn_speed_bps n
     \<or> vn_speed_bps m = vn_speed_bps n \<and> vn_score m > vn_score n
     \<or> vn_speed_bps m = vn_speed_bps n \<and> vn_score m = vn_score n
       \<and> (let ping = (\<lambda>n. case vn_ping_ms n of Some p \<Rightarrow> p | None \<Rightarrow> 2 ^ 32 - 1)
          in ping m < ping n \<or> ping m = ping n \<and> vn_id m < vn_id n)"

lemma acceptable_iff: "acceptable tests config excluded = auto_candidate tests config excluded"
  by (intro ext, cases "ac_ip_type config"; cases "ac_residential config")
     (auto simp: acceptable_def auto_candidate_def matches_region_def matches_ip_traits_def eq_ignore_ascii_case_def
       to_ascii_lowercase_def bind_eq_None_conv bind_eq_Some_conv split: option.splits)

lemma preferred_iff: "preferred m n \<longleftrightarrow> bandwidth_order m n = Greater"
  by (auto simp: preferred_def bandwidth_order_def ping_or_max_def Let_def split: option.splits)

text \<open>
  C30.  Automatic selection picks a best acceptable node: the chosen identifier belongs to a node of
  the list that is available, not excluded, in the configured region (in any case of its letters)
  and, where traits are asked for, tested with a result that has them; and no other acceptable
  node is preferred to it, by higher bandwidth, higher score, lower ping (an unknown ping counts as
  the largest) and smaller identifier, in this order.  Nothing is chosen exactly when no node of the
  list is acceptable.
\<close>

theorem select_node_best:
  "case select_node nodes tests config excluded of
     None \<Rightarrow> \<not> list_ex (acceptable tests config excluded) nodes
   | Some i \<Rightarrow> \<exists>n. n \<in> set nodes \<and> vn_id n = i \<and> acceptable tests config excluded n
       \<and> \<not> list_ex (\<lambda>m. acceptable tests config excluded m \<and> preferred m n) nodes"
proof (cases "select_node nodes tests config excluded")
  case None
  then have "\<not> list_ex (acceptable tests config excluded) nodes"
    by (simp add: select_node_None_iff list_ex_iff acceptable_iff)
  with None show ?thesis by simp
next
  case (Some i)
  then obtain n where n: "n \<in> set nodes" "auto_candidate tests config excluded n" "vn_id n = i"
    "\<And>m. m \<in> set nodes \<Longrightarrow> auto_candidate tests config excluded m \<Longrightarrow> bandwidth_order m n \<noteq> Greater"
    by (rule select_node_SomeE) blast
  then have "\<not> list_ex (\<lambda>m. acceptable tests config excluded m \<and> preferred m n) nodes"
    by (auto simp: list_ex_iff acceptable_iff preferred_iff)
  with n Some show ?thesis by (auto simp: acceptable_iff)
qed

text \<open>
  The selection is deterministic: it depends on the set of nodes only, not on the order in
  which the list or the refresh delivered them.
\<close>

lemma select_node_order_independent:
  assumes "set nodes = set nodes'"
  shows "select_node nodes tests config excluded = select_node nodes' tests config excluded"
proof (cases "select_node nodes tests config excluded")
  case None
  with assms have "select_node nodes' tests config excluded = None"
    by (simp only: select_node_None_iff)
  with None show ?thesis by simp
next
  case (Some i)
  with assms obtain j where j: "select_node nodes' tests config excluded = Some j"
    by (metis option.exhaust select_node_None_iff)
  obtain n where n: "n \<in> set nodes" "auto_candidate tests config excluded n" "vn_id n = i"
    and max_n: "\<And>m. m \<in> set nodes \<Longrightarrow> auto_candidate tests config excluded m \<Longrightarrow> bandwidth_order m n \<noteq> Greater"
    using Some by (rule select_node_SomeE) blast
  obtain m where m: "m \<in> set nodes'" "auto_candidate tests config excluded m" "vn_id m = j"
    and max_m: "\<And>n. n \<in> set nodes' \<Longrightarrow> auto_candidate tests config excluded n \<Longrightarrow> bandwidth_order n m \<noteq> Greater"
    using j by (rule select_node_SomeE) blast
  have "bandwidth_order m n \<noteq> Greater" "bandwidth_order n m \<noteq> Greater"
    using max_n [of m] max_m [of n] n m assms by auto
  then have "bandwidth_order m n = Equal"
    using bandwidth.anti [of n m] by (cases "bandwidth_order m n") auto
  then show ?thesis using bandwidth_equal_id n m Some j by auto
qed

lemma select_node_order_independent_witness:
  "select_node [sample_node ''a'' 5, sample_node ''b'' 7] Map.empty default_auto_connect {} =
   select_node [sample_node ''b'' 7, sample_node ''a'' 5] Map.empty default_auto_connect {}"
  by (rule select_node_order_independent) auto

end
