(* ===== verification/Storage.thy ===== *)
theory Storage
  imports Domain_Nodes Transition_System
begin

text \<open>
  The repository of test results and of the automatic connection policy,
  \<open>src/src/storage.rs\<close>.  A database is its two tables; each function is the SQL statement of
  the source with the validation around it, and a flag (one per statement) says whether SQLite
  serves it.  The \<open>CHECK\<close> clauses of \<open>src/migrations\<close> are the predicates
  \<open>node_tests_check\<close> and \<open>auto_connect_check\<close>.  Timestamps are stored as RFC 3339 text in
  UTC, whose order is chronological: the column holds the timestamp itself.
\<close>

section \<open>Tables\<close>

datatype store_error =
    Sql
  | Migration
  | InvalidNodeId
  | InvalidIp
  | DurationOverflow
  | InvalidRecord
  | InvalidAutoConnectConfig

record test_row =
  row_node_id :: string
  row_fraud_score :: "f64 option"
  row_is_residential :: "bool option"
  row_is_broadcast :: "bool option"
  row_exit_ip :: "string option"
  row_duration_ms :: int
  row_tested_at :: datetime
  row_error :: "string option"

record policy_row =
  row_enabled :: bool
  row_region :: "string option"
  row_ip_type :: string
  row_residential :: string

record store =
  node_tests :: "test_row list"
  policy :: policy_row

definition node_tests_check :: "test_row \<Rightarrow> bool" where
  "node_tests_check r \<longleftrightarrow>
     (case row_fraud_score r of None \<Rightarrow> True | Some x \<Rightarrow> f64_le f64_zero x \<and> f64_le x f64_hundred)
     \<and> 0 \<le> row_duration_ms r
     \<and> (is_some (row_fraud_score r) \<and> is_some (row_is_residential r) \<and> is_some (row_is_broadcast r)
        \<and> row_error r = None
        \<or> row_fraud_score r = None \<and> row_is_residential r = None \<and> row_is_broadcast r = None
        \<and> row_exit_ip r = None \<and> is_some (row_error r))"

text \<open>SQLite's \<open>length\<close> of a text counts the characters before the first NUL.\<close>

definition sql_length :: "string \<Rightarrow> nat" where
  "sql_length s = length (filter (\<lambda>c. \<not> (CHR 0x80 \<le> c \<and> c \<le> CHR 0xBF)) (takeWhile (\<lambda>c. c \<noteq> nul) s))"

definition auto_connect_check :: "policy_row \<Rightarrow> bool" where
  "auto_connect_check r \<longleftrightarrow>
     (case row_region r of None \<Rightarrow> True | Some s \<Rightarrow> 1 \<le> sql_length s \<and> sql_length s \<le> 8)
     \<and> row_ip_type r \<in> {''any'', ''native'', ''broadcast''}
     \<and> row_residential r \<in> {''any'', ''residential'', ''nonResidential''}"

text \<open>The tables the migrations create.\<close>

definition migrated :: store where
  "migrated =
     \<lparr>node_tests = [],
      policy = \<lparr>row_enabled = False, row_region = None, row_ip_type = ''any'', row_residential = ''any''\<rparr>\<rparr>"

section \<open>Records and rows\<close>

definition parse_exit :: "string option \<Rightarrow> store_error + ipv4addr option" where
  "parse_exit value =
     (case value of
        None \<Rightarrow> Inr None
      | Some s \<Rightarrow> (case parse_ipv4 s of None \<Rightarrow> Inl InvalidIp | Some ip \<Rightarrow> Inr (Some ip)))"

definition result_from_row :: "test_row \<Rightarrow> ipv4addr option \<Rightarrow> store_error + ip_pure_result option" where
  "result_from_row row exit_ip =
     (case (row_fraud_score row, row_is_residential row, row_is_broadcast row) of
        (Some fraud_score, Some is_residential, Some is_broadcast) \<Rightarrow>
          if \<not> valid_fraud_score fraud_score then Inl InvalidRecord
          else Inr (Some \<lparr>ip_fraud_score = fraud_score, ip_is_residential = is_residential,
                          ip_is_broadcast = is_broadcast, ip_exit_ip = exit_ip\<rparr>)
      | (None, None, None) \<Rightarrow> if exit_ip = None then Inr None else Inl InvalidRecord
      | _ \<Rightarrow> Inl InvalidRecord)"

definition record_from_row :: "test_row \<Rightarrow> store_error + test_record" where
  "record_from_row row =
     and_then (map_err (\<lambda>_. InvalidNodeId) (node_id_from_str (row_node_id row))) (\<lambda>node_id.
     and_then (parse_exit (row_exit_ip row)) (\<lambda>exit_ip.
     and_then (result_from_row row exit_ip) (\<lambda>result.
     and_then (ensure (0 \<le> row_duration_ms row) DurationOverflow) (\<lambda>_.
     and_then (ensure (is_some result \<noteq> is_some (row_error row)) InvalidRecord) (\<lambda>_.
       Inr \<lparr>tr_node_id = node_id, tr_result = result, tr_duration_ms = nat (row_duration_ms row),
            tr_tested_at = row_tested_at row, tr_error = row_error row\<rparr>)))))"

text \<open>A \<open>REAL\<close> column: SQLite stores the negative zero as zero.\<close>

definition sql_real :: "f64 \<Rightarrow> f64" where
  "sql_real x = (if f64_magnitude x = 0 then f64_zero else x)"

definition i64_max :: int where
  "i64_max = 9223372036854775807"

definition valid_record :: "test_record \<Rightarrow> bool" where
  "valid_record record =
     (case (tr_result record, tr_error record) of
        (Some result, None) \<Rightarrow> valid_fraud_score (ip_fraud_score result)
      | (None, Some _) \<Rightarrow> True
      | _ \<Rightarrow> False)"

definition row_of_record :: "test_record \<Rightarrow> test_row" where
  "row_of_record record =
     \<lparr>row_node_id = as_str (tr_node_id record),
      row_fraud_score = map_option (sql_real \<circ> ip_fraud_score) (tr_result record),
      row_is_residential = map_option ip_is_residential (tr_result record),
      row_is_broadcast = map_option ip_is_broadcast (tr_result record),
      row_exit_ip = Option.bind (tr_result record) (\<lambda>result. map_option show_ipv4 (ip_exit_ip result)),
      row_duration_ms = int (tr_duration_ms record),
      row_tested_at = tr_tested_at record,
      row_error = tr_error record\<rparr>"

text \<open>\<open>INSERT ... ON CONFLICT(node_id) DO UPDATE\<close> and \<open>DELETE ... WHERE node_id = ?\<close>\<close>

definition upsert :: "test_row \<Rightarrow> test_row list \<Rightarrow> test_row list" where
  "upsert row rows =
     (if list_ex (\<lambda>r. row_node_id r = row_node_id row) rows
      then map (\<lambda>r. if row_node_id r = row_node_id row then row else r) rows
      else rows @ [row])"

definition delete_row :: "string \<Rightarrow> test_row list \<Rightarrow> test_row list" where
  "delete_row node_id rows = filter (\<lambda>r. row_node_id r \<noteq> node_id) rows"

section \<open>Operations\<close>

definition save_test :: "bool \<Rightarrow> test_record \<Rightarrow> store \<Rightarrow> (store_error + unit) \<times> store" where
  "save_test served record st =
     (if \<not> valid_record record then (Inl InvalidRecord, st)
      else if i64_max < int (tr_duration_ms record) then (Inl DurationOverflow, st)
      else if \<not> served \<or> \<not> node_tests_check (row_of_record record) then (Inl Sql, st)
      else (Inr (), st\<lparr>node_tests := upsert (row_of_record record) (node_tests st)\<rparr>))"

fun collect_rows ::
    "(node_id \<rightharpoonup> test_record) \<Rightarrow> test_row list \<Rightarrow> store_error + (node_id \<rightharpoonup> test_record)" where
  "collect_rows records [] = Inr records"
| "collect_rows records (row # rows) =
     and_then (record_from_row row) (\<lambda>record. collect_rows (records(tr_node_id record \<mapsto> record)) rows)"

definition latest_tests :: "bool \<Rightarrow> store \<Rightarrow> store_error + (node_id \<rightharpoonup> test_record)" where
  "latest_tests served st = (if served then collect_rows Map.empty (node_tests st) else Inl Sql)"

definition latest_test :: "bool \<Rightarrow> node_id \<Rightarrow> store \<Rightarrow> store_error + test_record option" where
  "latest_test served node_id st =
     (if \<not> served then Inl Sql
      else case find (\<lambda>r. row_node_id r = as_str node_id) (node_tests st) of
        None \<Rightarrow> Inr None
      | Some row \<Rightarrow> and_then (record_from_row row) (\<lambda>record. Inr (Some record)))"

definition auto_connect_config ::
    "(string \<Rightarrow> string) \<Rightarrow> bool \<Rightarrow> store \<Rightarrow> store_error + auto_connect_config" where
  "auto_connect_config to_uppercase served st =
     and_then (ensure served Sql) (\<lambda>_.
     and_then (ok_or InvalidAutoConnectConfig (ip_type_from_stored (row_ip_type (policy st)))) (\<lambda>ip_type.
     and_then (ok_or InvalidAutoConnectConfig (residential_from_stored (row_residential (policy st))))
       (\<lambda>residential.
     map_err (\<lambda>_. InvalidAutoConnectConfig)
       (normalized to_uppercase
          \<lparr>ac_enabled = row_enabled (policy st), ac_region = row_region (policy st),
           ac_ip_type = ip_type, ac_residential = residential\<rparr>))))"

definition policy_of_config :: "auto_connect_config \<Rightarrow> policy_row" where
  "policy_of_config config =
     \<lparr>row_enabled = ac_enabled config, row_region = ac_region config,
      row_ip_type = ip_type_as_str (ac_ip_type config),
      row_residential = residential_as_str (ac_residential config)\<rparr>"

definition save_auto_connect_config ::
    "bool \<Rightarrow> auto_connect_config \<Rightarrow> store \<Rightarrow> (store_error + unit) \<times> store" where
  "save_auto_connect_config served config st =
     (if served \<and> auto_connect_check (policy_of_config config)
      then (Inr (), st\<lparr>policy := policy_of_config config\<rparr>)
      else (Inl Sql, st))"

text \<open>
  \<open>cleanup_stale\<close>: one query, then a transaction of one \<open>DELETE\<close> per stale row.  The list of
  flags answers the deletions and the final commit in order; a statement that is not served ends
  the function and the transaction is rolled back.  The query is outside the transaction: other
  operations can run in between, and \<open>remove_stale\<close> then deletes what an earlier table selected.
\<close>

definition stale_ids :: "node_id set \<Rightarrow> datetime \<Rightarrow> store \<Rightarrow> string list" where
  "stale_ids current_nodes cutoff st =
     filter (\<lambda>i. case node_id_from_str i of Inl _ \<Rightarrow> True | Inr node_id \<Rightarrow> node_id \<notin> current_nodes)
       (map row_node_id (filter (\<lambda>r. row_tested_at r < cutoff) (node_tests st)))"

fun delete_stale :: "bool list \<Rightarrow> nat \<Rightarrow> test_row list \<Rightarrow> string list \<Rightarrow> (nat \<times> test_row list) option" where
  "delete_stale (True # served) removed rows (i # stale) =
     delete_stale served (removed + (length rows - length (delete_row i rows))) (delete_row i rows) stale"
| "delete_stale (True # served) removed rows [] = Some (removed, rows)"
| "delete_stale served removed rows stale = None"

definition remove_stale :: "bool list \<Rightarrow> string list \<Rightarrow> store \<Rightarrow> (store_error + nat) \<times> store" where
  "remove_stale transaction stale st =
     (case delete_stale transaction 0 (node_tests st) stale of
        None \<Rightarrow> (Inl Sql, st)
      | Some (removed, rows) \<Rightarrow> (Inr removed, st\<lparr>node_tests := rows\<rparr>))"

definition cleanup_stale ::
    "bool \<Rightarrow> bool list \<Rightarrow> node_id set \<Rightarrow> datetime \<Rightarrow> store \<Rightarrow> (store_error + nat) \<times> store" where
  "cleanup_stale served transaction current_nodes cutoff st =
     (if \<not> served then (Inl Sql, st) else remove_stale transaction (stale_ids current_nodes cutoff st) st)"

definition health :: "bool \<Rightarrow> store_error + unit" where
  "health served = ensure served Sql"

section \<open>What the tables hold\<close>

text \<open>
  The abstract view of the repository is a map from nodes to their latest record.
  \<open>stored_record\<close> is a record as it comes back: the only difference is the sign of a zero score.
\<close>

definition stored_record :: "test_record \<Rightarrow> test_record" where
  "stored_record record =
     record\<lparr>tr_result := map_option (\<lambda>r. r\<lparr>ip_fraud_score := sql_real (ip_fraud_score r)\<rparr>) (tr_result record)\<rparr>"

definition recorded :: "store \<Rightarrow> node_id \<rightharpoonup> test_record" where
  "recorded st n =
     Option.bind (find (\<lambda>r. row_node_id r = as_str n) (node_tests st)) (\<lambda>r. result_ok (record_from_row r))"

definition valid_node_id :: "node_id \<Rightarrow> bool" where
  "valid_node_id n \<longleftrightarrow> node_id_from_str (as_str n) = Inr n"

definition rows_ok :: "test_row list \<Rightarrow> bool" where
  "rows_ok rows \<longleftrightarrow> distinct (map row_node_id rows) \<and> list_all (is_ok \<circ> record_from_row) rows"

inductive store_step :: "store \<Rightarrow> store \<Rightarrow> bool" where
  step_save: "valid_node_id (tr_node_id record) \<Longrightarrow> store_step st (snd (save_test served record st))"
| step_policy: "store_step st (snd (save_auto_connect_config served config st))"
| step_remove: "store_step st (snd (remove_stale transaction stale st))"

lemma is_some_simps [simp]: "\<not> is_some None" "is_some (Some v)"
  by (simp_all add: is_some_def)

lemma f64_zero_valid: "valid_fraud_score f64_zero"
  by (simp add: valid_fraud_score_def f64_is_finite_def f64_le_def f64_is_nan_def f64_magnitude_def
      f64_zero_def f64_hundred_def f64_key_def f64_negative_def)

lemma sql_real_valid: "valid_fraud_score x \<Longrightarrow> valid_fraud_score (sql_real x)"
  by (simp add: sql_real_def f64_zero_valid)

lemma valid_score_le: "valid_fraud_score x \<Longrightarrow> f64_le f64_zero x \<and> f64_le x f64_hundred"
  by (simp add: valid_fraud_score_def)

lemma valid_record_cases:
  assumes "valid_record record"
  obtains (success) result where "tr_result record = Some result" "tr_error record = None"
      "valid_fraud_score (ip_fraud_score result)"
    | (failure) message where "tr_result record = None" "tr_error record = Some message"
  using assms by (auto simp: valid_record_def split: option.splits)

lemma row_passes_check: "valid_record record \<Longrightarrow> node_tests_check (row_of_record record)"
  by (erule valid_record_cases)
     (simp_all add: node_tests_check_def row_of_record_def valid_score_le [OF sql_real_valid])

lemma parse_exit_show [simp]: "parse_exit (map_option show_ipv4 ip) = Inr ip"
  by (cases ip) (simp_all add: parse_exit_def)

lemma record_from_row_of_record:
  assumes "valid_record record" and "valid_node_id (tr_node_id record)"
  shows "record_from_row (row_of_record record) = Inr (stored_record record)"
  using assms(1)
proof (cases rule: valid_record_cases)
  case (success result)
  with assms(2) show ?thesis
    by (simp add: record_from_row_def row_of_record_def valid_node_id_def map_err_def ensure_def
        result_from_row_def sql_real_valid stored_record_def)
next
  case (failure message)
  with assms(2) show ?thesis
    by (simp add: record_from_row_def row_of_record_def valid_node_id_def map_err_def ensure_def
        result_from_row_def parse_exit_def stored_record_def)
qed

lemma record_from_row_id: "record_from_row row = Inr record \<Longrightarrow> as_str (tr_node_id record) = row_node_id row"
  by (auto simp: record_from_row_def result_simps map_err_def node_id_from_str_def ensure_def
      split: sum.splits if_splits)

lemma find_upsert:
  "find (\<lambda>r. row_node_id r = i) (upsert row rows) =
     (if i = row_node_id row then Some row else find (\<lambda>r. row_node_id r = i) rows)"
proof -
  have mapped: "find (\<lambda>r. row_node_id r = i) (map (\<lambda>r. if row_node_id r = row_node_id row then row else r) xs) =
      (if i = row_node_id row then (if list_ex (\<lambda>r. row_node_id r = i) xs then Some row else None)
       else find (\<lambda>r. row_node_id r = i) xs)" for xs
    by (induction xs) auto
  have appended: "find (\<lambda>r. row_node_id r = i) (xs @ [row]) =
      (if i = row_node_id row \<and> \<not> list_ex (\<lambda>r. row_node_id r = i) xs then Some row
       else find (\<lambda>r. row_node_id r = i) xs)" for xs
    by (induction xs) auto
  show ?thesis using mapped [of rows] appended [of rows] by (auto simp: upsert_def)
qed

lemma rows_ok_upsert:
  assumes "rows_ok rows" and "is_ok (record_from_row row)"
  shows "rows_ok (upsert row rows)"
proof -
  have "map row_node_id (map (\<lambda>r. if row_node_id r = row_node_id row then row else r) rows) = map row_node_id rows"
    by simp
  then show ?thesis using assms by (auto simp: rows_ok_def upsert_def list_all_iff list_ex_iff simp del: map_map)
qed

lemma rows_ok_filter: "rows_ok rows \<Longrightarrow> rows_ok (filter p rows)"
  by (auto simp: rows_ok_def list_all_iff distinct_map_filter)

lemma delete_stale_rows:
  "delete_stale served removed rows stale = Some (removed', rows') \<Longrightarrow>
   rows' = filter (\<lambda>r. row_node_id r \<notin> set stale) rows \<and>
   removed' = removed + (length rows - length rows')"
proof (induction served removed rows stale rule: delete_stale.induct)
  case (1 served removed rows i stale)
  let ?d = "delete_row i rows"
  have removed: "rows' = filter (\<lambda>r. row_node_id r \<notin> set stale) ?d"
    "removed' = removed + (length rows - length ?d) + (length ?d - length rows')"
    using 1 by simp_all
  have "length rows' \<le> length ?d" "length ?d \<le> length rows"
    unfolding removed(1) delete_row_def by (rule length_filter_le)+
  then have "removed' = removed + (length rows - length rows')" using removed(2) by arith
  then show ?case using removed(1) by (simp add: delete_row_def conj_commute)
qed auto

interpretation tables: invariant_system "\<lambda>st. st = migrated" store_step "\<lambda>st. rows_ok (node_tests st)"
proof
  show "rows_ok (node_tests s)" if "s = migrated" for s using that by (simp add: migrated_def rows_ok_def)
  show "rows_ok (node_tests s')" if "rows_ok (node_tests s)" "store_step s s'" for s s'
    using that(2,1)
  proof cases
    case (step_save rec served)
    then show ?thesis
      using that(1) record_from_row_of_record [of rec]
      by (auto simp: save_test_def is_ok_def intro!: rows_ok_upsert)
  next
    case (step_policy served config)
    then show ?thesis using that(1) by (simp add: save_auto_connect_config_def)
  next
    case (step_remove transaction stale)
    then show ?thesis
      using that(1) by (auto simp: remove_stale_def rows_ok_filter dest!: delete_stale_rows split: option.splits)
  qed
qed

lemma collect_rows_spec:
  "rows_ok rows \<Longrightarrow> \<exists>m. collect_rows m0 rows = Inr m \<and>
     (\<forall>n. m n = (case find (\<lambda>r. row_node_id r = as_str n) rows of
        None \<Rightarrow> m0 n | Some r \<Rightarrow> result_ok (record_from_row r)))"
proof (induction rows arbitrary: m0)
  case (Cons row rows)
  then have ok: "rows_ok rows" by (simp add: rows_ok_def)
  from Cons.prems obtain rec where decoded: "record_from_row row = Inr rec"
    by (auto simp: rows_ok_def is_ok_def split: sum.splits)
  have absent: "find (\<lambda>r. row_node_id r = row_node_id row) rows = None"
    using Cons.prems by (simp add: rows_ok_def find_None_iff) (metis image_eqI)
  have key: "as_str (tr_node_id rec) = row_node_id row" using decoded by (rule record_from_row_id)
  from Cons.IH [OF ok, of "m0(tr_node_id rec \<mapsto> rec)"] obtain m where
    m: "collect_rows (m0(tr_node_id rec \<mapsto> rec)) rows = Inr m"
      "\<And>n. m n = (case find (\<lambda>r. row_node_id r = as_str n) rows of
        None \<Rightarrow> (m0(tr_node_id rec \<mapsto> rec)) n | Some r \<Rightarrow> result_ok (record_from_row r))" by blast
  have "m n = (case find (\<lambda>r. row_node_id r = as_str n) (row # rows) of
        None \<Rightarrow> m0 n | Some r \<Rightarrow> result_ok (record_from_row r))" for n
    using m(2) [of n] absent key decoded
    by (cases "n = tr_node_id rec") (auto simp: result_ok_def node_id.expand split: option.split)
  then show ?case using m(1) decoded by auto
qed simp

lemma latest_tests_recorded:
  assumes "rows_ok (node_tests st)"
  shows "latest_tests True st = Inr (recorded st)" and "latest_test True n st = Inr (recorded st n)"
proof -
  from collect_rows_spec [OF assms, of Map.empty] obtain m where
    m: "collect_rows Map.empty (node_tests st) = Inr m" and
    "\<And>n. m n = (case find (\<lambda>r. row_node_id r = as_str n) (node_tests st) of
        None \<Rightarrow> None | Some r \<Rightarrow> result_ok (record_from_row r))" by auto
  then have "m = recorded st" by (intro ext) (simp add: recorded_def bind_eq_None_conv split: option.split)
  with m show "latest_tests True st = Inr (recorded st)" by (simp add: latest_tests_def)
  show "latest_test True n st = Inr (recorded st n)"
  proof (cases "find (\<lambda>r. row_node_id r = as_str n) (node_tests st)")
    case (Some r)
    then have "r \<in> set (node_tests st)" by (auto simp: find_Some_iff)
    with assms Some show ?thesis
      by (auto simp: latest_test_def recorded_def rows_ok_def list_all_iff is_ok_def result_ok_def split: sum.splits)
  qed (simp add: latest_test_def recorded_def)
qed

lemma find_filter_key:
  "find (\<lambda>r. f r = i) (filter (\<lambda>r. f r \<notin> A) rows) = (if i \<in> A then None else find (\<lambda>r. f r = i) rows)"
  by (induction rows) auto

lemma save_test_outcome:
  assumes "valid_record rec" and "int (tr_duration_ms rec) \<le> i64_max"
  shows "save_test True rec st = (Inr (), st\<lparr>node_tests := upsert (row_of_record rec) (node_tests st)\<rparr>)"
  using assms row_passes_check by (simp add: save_test_def)

lemma recorded_save:
  assumes "fst (save_test served rec st) = Inr ()" and "valid_node_id (tr_node_id rec)"
  shows "recorded (snd (save_test served rec st)) = (recorded st)(tr_node_id rec \<mapsto> stored_record rec)"
proof -
  have ok: "valid_record rec"
    "snd (save_test served rec st) = st\<lparr>node_tests := upsert (row_of_record rec) (node_tests st)\<rparr>"
    using assms(1) by (auto simp: save_test_def split: if_splits)
  have key: "as_str n = row_node_id (row_of_record rec) \<longleftrightarrow> n = tr_node_id rec" for n
    by (auto simp: row_of_record_def node_id.expand)
  show ?thesis
    by (intro ext) (simp add: ok(2) recorded_def find_upsert key record_from_row_of_record [OF ok(1) assms(2)] result_ok_def)
qed

text \<open>A row is stale when it is older than the cutoff and its node is not in the snapshot.\<close>

definition stale_record :: "node_id set \<Rightarrow> datetime \<Rightarrow> test_record \<Rightarrow> bool" where
  "stale_record current cutoff r \<longleftrightarrow> tr_tested_at r < cutoff \<and> tr_node_id r \<notin> current"

lemma row_decodes:
  assumes "record_from_row row = Inr rec"
  shows "row_tested_at row = tr_tested_at rec \<and> node_id_from_str (row_node_id row) = Inr (tr_node_id rec)"
  using assms
  by (auto simp: record_from_row_def result_simps map_err_def ensure_def split: sum.splits if_splits)

lemma mem_filter_map_filter:
  "i \<in> set (filter p (map f (filter q xs))) \<longleftrightarrow> (\<exists>r \<in> set xs. f r = i \<and> q r) \<and> p i"
  by auto

lemma stale_id_iff:
  assumes "rows_ok (node_tests st)" and "find (\<lambda>r. row_node_id r = as_str n) (node_tests st) = Some row"
    and "record_from_row row = Inr rec"
  shows "as_str n \<in> set (stale_ids current cutoff st) \<longleftrightarrow> stale_record current cutoff rec"
proof -
  have row: "row \<in> set (node_tests st)" "row_node_id row = as_str n"
    using assms(2) by (auto simp: find_Some_iff)
  have unique: "r = row" if "r \<in> set (node_tests st)" "row_node_id r = as_str n" for r
    using assms(1) that row by (metis distinct_map inj_onD rows_ok_def)
  have "as_str n \<in> set (stale_ids current cutoff st) \<longleftrightarrow>
      (\<exists>r \<in> set (node_tests st). row_node_id r = as_str n \<and> row_tested_at r < cutoff) \<and>
      (case node_id_from_str (as_str n) of Inl _ \<Rightarrow> True | Inr m \<Rightarrow> m \<notin> current)"
    unfolding stale_ids_def by (rule mem_filter_map_filter)
  moreover have "(\<exists>r \<in> set (node_tests st). row_node_id r = as_str n \<and> row_tested_at r < cutoff) \<longleftrightarrow>
      row_tested_at row < cutoff"
    using row unique by blast
  ultimately show ?thesis using row_decodes [OF assms(3)] row(2) by (simp add: stale_record_def)
qed

lemma recorded_cleanup:
  assumes "rows_ok (node_tests st)" and "fst (cleanup_stale served transaction current cutoff st) = Inr k"
  shows "recorded (snd (cleanup_stale served transaction current cutoff st)) n =
    option_filter (\<lambda>r. \<not> stale_record current cutoff r) (recorded st n)"
proof -
  let ?rows = "filter (\<lambda>r. row_node_id r \<notin> set (stale_ids current cutoff st)) (node_tests st)"
  have rows: "snd (cleanup_stale served transaction current cutoff st) = st\<lparr>node_tests := ?rows\<rparr>"
    using assms(2) by (auto simp: cleanup_stale_def remove_stale_def dest!: delete_stale_rows split: option.splits if_splits)
  show ?thesis
  proof (cases "find (\<lambda>r. row_node_id r = as_str n) (node_tests st)")
    case None
    then show ?thesis by (simp add: rows recorded_def find_filter_key)
  next
    case (Some row)
    then have "row \<in> set (node_tests st)" by (auto simp: find_Some_iff)
    then obtain rec where rec: "record_from_row row = Inr rec"
      using assms(1) by (cases "record_from_row row") (auto simp: rows_ok_def list_all_iff is_ok_def)
    from stale_id_iff [OF assms(1) Some rec] Some rec show ?thesis
      by (simp add: rows recorded_def find_filter_key result_ok_def)
  qed
qed

lemma save_test_error: "fst (save_test served rec st) = Inl e \<Longrightarrow> snd (save_test served rec st) = st"
  by (auto simp: save_test_def split: if_splits)

lemma cleanup_stale_error:
  "fst (cleanup_stale served transaction current cutoff st) = Inl e \<Longrightarrow>
   snd (cleanup_stale served transaction current cutoff st) = st"
  by (auto simp: cleanup_stale_def remove_stale_def split: if_splits option.splits)

text \<open>
  A save between the query and the transaction is lost: the new record of a node whose old record
  was selected is deleted with it, because the deletion does not look at the time of the test again.
\<close>

lemma overtaken_save_removed:
  assumes "as_str (tr_node_id rec) \<in> set (stale_ids current cutoff st)"
    and "save_test served rec st = (Inr (), st')"
    and "remove_stale transaction (stale_ids current cutoff st) st' = (Inr k, st'')"
  shows "recorded st'' (tr_node_id rec) = None"
proof -
  have "node_tests st'' = filter (\<lambda>r. row_node_id r \<notin> set (stale_ids current cutoff st)) (node_tests st')"
    using assms(3) by (auto simp: remove_stale_def dest!: delete_stale_rows split: option.splits)
  then show ?thesis using assms(1) by (simp add: recorded_def find_filter_key)
qed

lemma policy_roundtrip:
  assumes "fst (save_auto_connect_config served config st) = Inr ()" and "normalized up config = Inr config"
  shows "auto_connect_config up True (snd (save_auto_connect_config served config st)) = Inr config"
  using assms
  by (cases config)
     (auto simp: save_auto_connect_config_def auto_connect_config_def policy_of_config_def ensure_def
      ok_or_def map_err_def split: if_splits)

section \<open>Properties of the repository\<close>

definition sample_record :: test_record where
  "sample_record =
     \<lparr>tr_node_id = NodeId (replicate 64 (CHR ''a'')), tr_result = None, tr_duration_ms = 10,
      tr_tested_at = 1700000000, tr_error = Some ''IPPure check failed''\<rparr>"

lemma sample_record_valid: "valid_record sample_record" "valid_node_id (tr_node_id sample_record)"
  by (simp_all add: sample_record_def valid_record_def valid_node_id_def node_id_from_str_def list_all_iff
      is_lower_hex_def)

lemma sample_record_saved: "fst (save_test True sample_record migrated) = Inr ()"
  using save_test_outcome [of sample_record migrated] sample_record_valid
  by (simp add: sample_record_def i64_max_def)

text \<open>
  C23.  The test table is a map from nodes to their latest record.  From the migrated database,
  after any sequence of saves, policy updates and deletions of selected rows, every row decodes, so both queries
  succeed and agree; a save that succeeds maps its node to the saved record and changes no other
  node, a cleanup that succeeds (with nothing between its query and its transaction) removes exactly the records older than the cutoff whose node is
  not in the snapshot, and an operation that fails changes nothing.
\<close>

theorem store_refines_map:
  assumes "reachable (\<lambda>st. st = migrated) store_step st"
    and "valid_node_id (tr_node_id rec)"
  shows "latest_tests True st = Inr (recorded st) \<and> latest_test True n st = Inr (recorded st n)
    \<and> (case save_test served rec st of
         (Inr _, st') \<Rightarrow> recorded st' = (recorded st)(tr_node_id rec \<mapsto> stored_record rec)
       | (Inl _, st') \<Rightarrow> st' = st)
    \<and> (case cleanup_stale served transaction current cutoff st of
         (Inr _, st') \<Rightarrow> recorded st' n = option_filter (\<lambda>r. \<not> stale_record current cutoff r) (recorded st n)
       | (Inl _, st') \<Rightarrow> st' = st)"
proof -
  have ok: "rows_ok (node_tests st)" using assms(1) by (rule tables.reachable_inv)
  have "case save_test served rec st of
         (Inr _, st') \<Rightarrow> recorded st' = (recorded st)(tr_node_id rec \<mapsto> stored_record rec)
       | (Inl _, st') \<Rightarrow> st' = st"
    using recorded_save [of served rec st] assms(2) save_test_error [of served rec st]
    by (cases "save_test served rec st"; cases "fst (save_test served rec st)") simp_all
  moreover have "case cleanup_stale served transaction current cutoff st of
         (Inr _, st') \<Rightarrow> recorded st' n = option_filter (\<lambda>r. \<not> stale_record current cutoff r) (recorded st n)
       | (Inl _, st') \<Rightarrow> st' = st"
    using recorded_cleanup [OF ok, of served transaction current cutoff _ n]
      cleanup_stale_error [of served transaction current cutoff st]
    by (cases "cleanup_stale served transaction current cutoff st";
        cases "fst (cleanup_stale served transaction current cutoff st)") simp_all
  ultimately show ?thesis using latest_tests_recorded [OF ok] by blast
qed

theorem store_refines_map_witness:
  "latest_test True (tr_node_id sample_record) (snd (save_test True sample_record migrated)) = Inr (Some sample_record)"
proof -
  have reach: "reachable (\<lambda>st. st = migrated) store_step migrated" by (rule reach_init) simp
  have next_reach: "reachable (\<lambda>st. st = migrated) store_step (snd (save_test True sample_record migrated))"
    by (rule reach_step [OF reach step_save [OF sample_record_valid(2)]])
  obtain st where saved: "save_test True sample_record migrated = (Inr (), st)"
    using sample_record_saved by (cases "save_test True sample_record migrated") simp
  have "stored_record sample_record = sample_record" by (simp add: stored_record_def sample_record_def)
  then have "recorded st (tr_node_id sample_record) = Some sample_record"
    using store_refines_map [OF reach sample_record_valid(2), where served = True] saved by simp
  then show ?thesis
    using store_refines_map [OF next_reach sample_record_valid(2), of "tr_node_id sample_record"] saved by simp
qed

end
