(* ===== verification/Vpngate.thy ===== *)
theory Vpngate
  imports Domain_Nodes Openvpn_Laws
begin

text \<open>
  Retrieval and defensive CSV parsing of the public node list, \<open>src/src/vpngate.rs\<close>.  The
  \<open>csv\<close>, \<open>base64\<close> and \<open>blake3\<close> crates and the HTTP client are arguments: the reader gives
  the header record and the rows (an unreadable row is \<open>Inl\<close>), the decoder a byte string or
  nothing, the client the outcome of the request with the chunks of its body.
\<close>

section \<open>Data\<close>

definition EXPECTED_HEADERS :: "string list" where
  "EXPECTED_HEADERS =
     [''HostName'', ''IP'', ''Score'', ''Ping'', ''Speed'', ''CountryLong'', ''CountryShort'',
      ''NumVpnSessions'', ''Uptime'', ''TotalUsers'', ''TotalTraffic'', ''LogType'', ''Operator'',
      ''Message'', ''OpenVPN_ConfigData_Base64'']"

record csv_limits =
  lim_max_body_bytes :: nat
  lim_max_rows :: nat
  lim_max_profile_bytes :: nat

definition default_csv_limits :: csv_limits where
  "default_csv_limits =
     \<lparr>lim_max_body_bytes = 16 * 1024 * 1024, lim_max_rows = 20000, lim_max_profile_bytes = 256 * 1024\<rparr>"

record parse_stats =
  rows_seen :: nat
  accepted :: nat
  rejected :: nat
  unsupported :: nat

record parsed_snapshot =
  snap_nodes :: "vpn_node list"
  snap_stats :: parse_stats

datatype vpngate_error =
    InvalidProxy
  | Client
  | Request
  | Http nat
  | BodyTooLarge
  | BodyInvalidUtf8
  | MissingHeader
  | InvalidHeader
  | TooManyRows

section \<open>Fields\<close>

definition bounded_text :: "string \<Rightarrow> nat \<Rightarrow> unit + string" where
  "bounded_text value maximum =
     (let value = trim value
      in if length value \<le> maximum \<and> \<not> List.member value nul then Inr value else Inl ())"

definition parse_bounded_u64 :: "string \<Rightarrow> nat \<Rightarrow> unit + nat" where
  "parse_bounded_u64 value maximum =
     and_then (ok_or () (parse_u64 (trim value))) (\<lambda>parsed.
       if parsed \<le> maximum then Inr parsed else Inl ())"

definition parse_optional_u32 :: "string \<Rightarrow> unit + nat option" where
  "parse_optional_u32 value =
     (let value = trim value
      in if value = [] \<or> value = ''-'' then Inr None
         else (case parse_u32 value of Some v \<Rightarrow> Inr (Some v) | None \<Rightarrow> Inl ()))"

definition u64_max :: nat where "u64_max = 18446744073709551615"
definition u32_max :: nat where "u32_max = 4294967295"

definition csv_field :: "string list \<Rightarrow> nat \<Rightarrow> unit + string" where
  "csv_field record i = (if i < length record then Inr (record ! i) else Inl ())"

definition stable_node_id ::
    "(bytes \<Rightarrow> bytes) \<Rightarrow> string \<Rightarrow> ipv4addr \<Rightarrow> u16 option \<Rightarrow> bytes \<Rightarrow> node_id" where
  "stable_node_id blake3 hostname ip tcp_port profile_digest =
     from_digest (blake3 (as_bytes hostname @ [0] @ ipv4_octets ip
       @ u16_to_be_bytes (case tcp_port of None \<Rightarrow> 0 | Some p \<Rightarrow> p) @ profile_digest))"

section \<open>One row\<close>

definition decode_profile ::
    "(string \<Rightarrow> bytes option) \<Rightarrow> string \<Rightarrow> nat \<Rightarrow> unit + bytes" where
  "decode_profile base64 field max_profile_bytes =
     (let encoded_profile = trim field;
          max_encoded = saturating_add max_profile_bytes 2 div 3 * 4 + 4
      in if max_encoded < length encoded_profile then Inl ()
         else and_then (ok_or () (base64 encoded_profile)) (\<lambda>profile.
           if max_profile_bytes < length profile then Inl () else Inr profile))"

definition non_zero_u16 :: "u16 \<Rightarrow> u16 option" where
  "non_zero_u16 p = (if p = 0 then None else Some p)"

fun classify_profile ::
    "bytes \<Rightarrow> openvpn_config_error + sanitized_openvpn
     \<Rightarrow> node_availability \<times> sanitized_openvpn option \<times> u16 option \<times> bytes" where
  "classify_profile raw_digest (Inr profile) =
     (Available, Some profile, non_zero_u16 (sock_port (so_remote profile)), so_digest profile)"
| "classify_profile raw_digest (Inl UnsupportedProtocol) = (UnsupportedNode, None, None, raw_digest)"
| "classify_profile raw_digest (Inl _) = (InvalidConfig, None, None, raw_digest)"

definition parse_node ::
    "(bytes \<Rightarrow> bytes) \<Rightarrow> (string \<Rightarrow> bytes option) \<Rightarrow> string list \<Rightarrow> nat \<Rightarrow> unit + vpn_node" where
  "parse_node blake3 base64 record max_profile_bytes =
     and_then (csv_field record 0) (\<lambda>f0. and_then (bounded_text f0 255) (\<lambda>hostname.
     and_then (csv_field record 1) (\<lambda>f1. and_then (ok_or () (parse_ipv4 f1)) (\<lambda>ip.
     and_then (ensure (is_public_ipv4 ip) ()) (\<lambda>_.
     and_then (csv_field record 2) (\<lambda>f2. and_then (parse_bounded_u64 f2 u64_max) (\<lambda>score.
     and_then (csv_field record 3) (\<lambda>f3. and_then (parse_optional_u32 f3) (\<lambda>ping_ms.
     and_then (csv_field record 4) (\<lambda>f4. and_then (parse_bounded_u64 f4 u64_max) (\<lambda>speed_bps.
     and_then (csv_field record 5) (\<lambda>f5. and_then (bounded_text f5 128) (\<lambda>country_long.
     and_then (csv_field record 6) (\<lambda>f6. and_then (bounded_text f6 8) (\<lambda>country_short.
     and_then (csv_field record 7) (\<lambda>f7. and_then (parse_bounded_u64 f7 u32_max) (\<lambda>sessions.
     and_then (csv_field record 8) (\<lambda>f8. and_then (parse_bounded_u64 f8 u64_max) (\<lambda>uptime_ms.
     and_then (csv_field record 9) (\<lambda>f9. and_then (parse_bounded_u64 f9 u64_max) (\<lambda>total_users.
     and_then (csv_field record 10) (\<lambda>f10. and_then (parse_bounded_u64 f10 u64_max) (\<lambda>total_traffic.
     and_then (csv_field record 11) (\<lambda>f11. and_then (bounded_text f11 64) (\<lambda>log_type.
     and_then (csv_field record 12) (\<lambda>f12. and_then (bounded_text f12 512) (\<lambda>operator.
     and_then (csv_field record 13) (\<lambda>f13. and_then (bounded_text f13 4096) (\<lambda>message.
     and_then (csv_field record 14) (\<lambda>f14. and_then (decode_profile base64 f14 max_profile_bytes) (\<lambda>profile.
     let (availability, openvpn, tcp_port, profile_digest) =
           classify_profile (blake3 profile) (sanitize_openvpn blake3 profile ip)
     in Inr \<lparr>vn_id = stable_node_id blake3 hostname ip tcp_port profile_digest,
             vn_hostname = hostname, vn_ip = ip, vn_score = score, vn_ping_ms = ping_ms,
             vn_speed_bps = speed_bps, vn_country_long = country_long,
             vn_country_short = country_short, vn_sessions = sessions, vn_uptime_ms = uptime_ms,
             vn_total_users = total_users, vn_total_traffic_bytes = total_traffic,
             vn_log_type = log_type, vn_operator = operator, vn_message = message,
             vn_tcp_port = tcp_port, vn_availability = availability,
             vn_openvpn = openvpn\<rparr>)))))))))))))))))))))))))))))))"

section \<open>The whole list\<close>

definition is_end_marker :: "unit + string list \<Rightarrow> bool" where
  "is_end_marker record =
     (case record of Inr [value] \<Rightarrow> starts_with ''*'' value | _ \<Rightarrow> False)"

text \<open>The body of the row loop after the limit check: count the row, then accept or reject it.\<close>

definition reject_row :: "parse_stats \<Rightarrow> parse_stats" where
  "reject_row stats = stats\<lparr>rejected := rejected stats + 1\<rparr>"

definition accept_row :: "vpn_node \<Rightarrow> parse_stats \<Rightarrow> parse_stats" where
  "accept_row n stats =
     (let stats = (if vn_availability n \<noteq> Available
                   then stats\<lparr>unsupported := unsupported stats + 1\<rparr> else stats)
      in stats\<lparr>accepted := accepted stats + 1\<rparr>)"

definition count_row ::
    "(string list \<Rightarrow> unit + vpn_node) \<Rightarrow> unit + string list \<Rightarrow> parsed_snapshot \<Rightarrow> parsed_snapshot" where
  "count_row node r s =
     (let stats = (snap_stats s)\<lparr>rows_seen := rows_seen (snap_stats s) + 1\<rparr>
      in case r of
           Inl _ \<Rightarrow> s\<lparr>snap_stats := reject_row stats\<rparr>
         | Inr cols \<Rightarrow>
             if length cols \<noteq> length EXPECTED_HEADERS then s\<lparr>snap_stats := reject_row stats\<rparr>
             else (case node cols of
                 Inl _ \<Rightarrow> s\<lparr>snap_stats := reject_row stats\<rparr>
               | Inr n \<Rightarrow> \<lparr>snap_nodes = snap_nodes s @ [n], snap_stats = accept_row n stats\<rparr>))"

fun parse_rows ::
    "(string list \<Rightarrow> unit + vpn_node) \<Rightarrow> nat \<Rightarrow> parsed_snapshot \<Rightarrow> (unit + string list) list
     \<Rightarrow> vpngate_error + parsed_snapshot" where
  "parse_rows node limit s [] = Inr s"
| "parse_rows node limit s (r # rs) =
     (if is_end_marker r then Inr s
      else if limit \<le> rows_seen (snap_stats s) then Inl TooManyRows
      else parse_rows node limit (count_row node r s) rs)"

definition empty_snapshot :: parsed_snapshot where
  "empty_snapshot =
     \<lparr>snap_nodes = [], snap_stats = \<lparr>rows_seen = 0, accepted = 0, rejected = 0, unsupported = 0\<rparr>\<rparr>"

type_synonym csv_reader = "string \<Rightarrow> (unit + string list) \<times> (unit + string list) list"

definition parse_snapshot ::
    "(bytes \<Rightarrow> bytes) \<Rightarrow> (string \<Rightarrow> bytes option) \<Rightarrow> csv_reader \<Rightarrow> bytes \<Rightarrow> csv_limits
     \<Rightarrow> vpngate_error + parsed_snapshot" where
  "parse_snapshot blake3 base64 csv input limits =
     and_then (ensure (length input \<le> lim_max_body_bytes limits) BodyTooLarge) (\<lambda>_.
     and_then (ok_or BodyInvalidUtf8 (from_utf8 input)) (\<lambda>body.
     and_then (ok_or MissingHeader (find_str ''#HostName,'' body)) (\<lambda>header_offset.
     let (header, rows) = csv (drop (header_offset + 1) body) in
     and_then (map_err (\<lambda>_. InvalidHeader) header) (\<lambda>names.
     and_then (ensure (names = EXPECTED_HEADERS) InvalidHeader) (\<lambda>_.
     parse_rows (\<lambda>cols. parse_node blake3 base64 cols (lim_max_profile_bytes limits))
       (lim_max_rows limits) empty_snapshot rows)))))"

fun read_body :: "nat \<Rightarrow> bytes \<Rightarrow> (unit + bytes) list \<Rightarrow> vpngate_error + bytes" where
  "read_body limit body [] = Inr body"
| "read_body limit body (chunk # chunks) =
     and_then (map_err (\<lambda>_. Request) chunk) (\<lambda>chunk.
       if limit < saturating_add (length body) (length chunk) then Inl BodyTooLarge
       else read_body limit (body @ chunk) chunks)"

definition fetch_snapshot ::
    "(bytes \<Rightarrow> bytes) \<Rightarrow> (string \<Rightarrow> bytes option) \<Rightarrow> csv_reader
     \<Rightarrow> vpngate_error + (nat \<times> (unit + bytes) list) \<Rightarrow> csv_limits \<Rightarrow> vpngate_error + parsed_snapshot" where
  "fetch_snapshot blake3 base64 csv response limits =
     and_then response (\<lambda>(status, chunks).
     and_then (ensure (200 \<le> status \<and> status < 300) (Http status)) (\<lambda>_.
     and_then (read_body (lim_max_body_bytes limits) [] chunks) (\<lambda>body.
     parse_snapshot blake3 base64 csv body limits)))"

section \<open>Laws\<close>

definition stats_ok :: "nat \<Rightarrow> parsed_snapshot \<Rightarrow> bool" where
  "stats_ok limit s \<longleftrightarrow>
     rows_seen (snap_stats s) = accepted (snap_stats s) + rejected (snap_stats s)
     \<and> accepted (snap_stats s) = length (snap_nodes s)
     \<and> unsupported (snap_stats s) = length (filter (\<lambda>n. vn_availability n \<noteq> Available) (snap_nodes s))
     \<and> rows_seen (snap_stats s) \<le> limit"

definition node_ok :: "vpn_node \<Rightarrow> bool" where
  "node_ok n \<longleftrightarrow>
     is_public_ipv4 (vn_ip n)
     \<and> (vn_availability n = Available \<longleftrightarrow> vn_openvpn n \<noteq> None)
     \<and> (case vn_openvpn n of
          Some p \<Rightarrow> sock_ip (so_remote p) = vn_ip n \<and> vn_tcp_port n = Some (sock_port (so_remote p))
        | None \<Rightarrow> vn_tcp_port n = None)
     \<and> length (vn_hostname n) \<le> 255 \<and> length (vn_country_long n) \<le> 128
     \<and> length (vn_country_short n) \<le> 8 \<and> length (vn_log_type n) \<le> 64
     \<and> length (vn_operator n) \<le> 512 \<and> length (vn_message n) \<le> 4096
     \<and> vn_sessions n \<le> u32_max \<and> vn_score n \<le> u64_max \<and> vn_speed_bps n \<le> u64_max"

lemma count_row_stats:
  "stats_ok limit s \<Longrightarrow> rows_seen (snap_stats s) < limit \<Longrightarrow> stats_ok limit (count_row node r s)"
  by (auto simp: stats_ok_def count_row_def reject_row_def accept_row_def Let_def split: sum.splits)

lemma count_row_rows [simp]:
  "rows_seen (snap_stats (count_row node r s)) = Suc (rows_seen (snap_stats s))"
  by (simp add: count_row_def reject_row_def accept_row_def Let_def split: sum.splits)

lemma count_row_nodes:
  "(\<And>cols n. node cols = Inr n \<Longrightarrow> P n) \<Longrightarrow> list_all P (snap_nodes s) \<Longrightarrow>
   list_all P (snap_nodes (count_row node r s))"
  by (simp add: count_row_def Let_def split: sum.splits)

lemma parse_rows_stats:
  "parse_rows node limit s rs = Inr s' \<Longrightarrow> stats_ok limit s \<Longrightarrow> stats_ok limit s'"
  by (induction node limit s rs rule: parse_rows.induct)
     (auto simp: count_row_stats not_le split: if_splits)

lemma parse_rows_nodes:
  assumes "parse_rows node limit s rs = Inr s'"
    and "\<And>cols n. node cols = Inr n \<Longrightarrow> P n" and "list_all P (snap_nodes s)"
  shows "list_all P (snap_nodes s')"
  using assms
  by (induction node limit s rs rule: parse_rows.induct) (auto simp: count_row_nodes split: if_splits)

text \<open>The row limit counts the rows before the end marker, readable or not.\<close>

definition data_rows :: "(unit + string list) list \<Rightarrow> (unit + string list) list" where
  "data_rows rs = takeWhile (\<lambda>r. \<not> is_end_marker r) rs"

lemma parse_rows_limit:
  "rows_seen (snap_stats s) \<le> limit \<Longrightarrow>
   parse_rows node limit s rs =
     (if rows_seen (snap_stats s) + length (data_rows rs) \<le> limit
      then Inr (foldl (\<lambda>s r. count_row node r s) s (data_rows rs)) else Inl TooManyRows)"
  by (induction node limit s rs rule: parse_rows.induct) (auto simp: data_rows_def)

lemma parse_node_ok:
  assumes "parse_node blake3 base64 cols limit = Inr n"
  shows "node_ok n"
proof -
  from assms obtain ip profile a ov t d where
    pub: "is_public_ipv4 ip" and n: "vn_ip n = ip" "vn_availability n = a" "vn_openvpn n = ov" "vn_tcp_port n = t"
    and cl: "classify_profile (blake3 profile) (sanitize_openvpn blake3 profile ip) = (a, ov, t, d)"
    and len: "length (vn_hostname n) \<le> 255" "length (vn_country_long n) \<le> 128"
      "length (vn_country_short n) \<le> 8" "length (vn_log_type n) \<le> 64" "length (vn_operator n) \<le> 512"
      "length (vn_message n) \<le> 4096" "vn_sessions n \<le> u32_max" "vn_score n \<le> u64_max" "vn_speed_bps n \<le> u64_max"
    unfolding parse_node_def
    by (auto simp: result_simps bounded_text_def parse_bounded_u64_def Let_def split: if_splits prod.splits)
  show ?thesis
  proof (cases "sanitize_openvpn blake3 profile ip")
    case (Inl e)
    with cl have "ov = None \<and> t = None \<and> a \<noteq> Available" by (cases e) auto
    with pub n len show ?thesis by (simp add: node_ok_def)
  next
    case (Inr p)
    then obtain st where "state_ok ip st" "ps_remote st = Some (so_remote p)" by (rule sanitize_parsed)
    then have "remote_ok ip (so_remote p)" by (simp add: state_ok_def)
    then have "sock_ip (so_remote p) = ip" "a = Available" "ov = Some p" "t = Some (sock_port (so_remote p))"
      using Inr cl by (auto simp: remote_ok_def non_zero_u16_def)
    with pub n len show ?thesis by (simp add: node_ok_def)
  qed
qed

lemma read_body_limit:
  "read_body limit body chunks = Inr b \<Longrightarrow> length body \<le> limit \<Longrightarrow> limit < usize_max \<Longrightarrow> length b \<le> limit"
  by (induction limit body chunks rule: read_body.induct)
     (auto simp: result_simps saturating_add_def split: if_splits)

section \<open>Properties of the node list\<close>

definition sample_row :: "string list" where
  "sample_row = [''h'', ''1.2.3.4'', ''1'', ''-'', ''2'', ''c'', ''C'', ''3'', ''4'', ''5'', ''6'', ''l'', ''o'', ''m'', ''/w=='']"

definition sample_reader :: csv_reader where
  "sample_reader s = (Inr EXPECTED_HEADERS, [Inr sample_row, Inl (), Inr [''*''], Inr sample_row])"

lemma sample_snapshot:
  "\<exists>s. parse_snapshot (\<lambda>_. []) (\<lambda>_. Some [0xFF]) sample_reader (as_bytes ''#HostName,'')
     default_csv_limits = Inr s"
proof -
  have "from_utf8 (as_bytes ''#HostName,'') = Some ''#HostName,''" "find_str ''#HostName,'' ''#HostName,'' = Some 0"
    by code_simp+
  moreover have "data_rows [Inr sample_row, Inl (), Inr [''*''], Inr sample_row] = [Inr sample_row, Inl ()]"
    by code_simp
  ultimately show ?thesis
    by (simp add: parse_snapshot_def default_csv_limits_def sample_reader_def parse_rows_limit empty_snapshot_def)
qed

text \<open>
  C29.  Every node of a parsed list has a public address; it is available exactly when it has a
  sanitized profile, whose remote is that address and whose port is the node's port; its text
  fields and counters are within their bounds.  The statistics add up: rows seen are the
  accepted and rejected ones, within the row limit, and the accepted ones are the nodes.
\<close>

theorem parse_snapshot_ok:
  assumes "parse_snapshot blake3 base64 csv input limits = Inr s"
  shows "list_all node_ok (snap_nodes s) \<and> stats_ok (lim_max_rows limits) s"
proof -
  have empty: "stats_ok l empty_snapshot" "list_all node_ok (snap_nodes empty_snapshot)" for l
    by (simp_all add: stats_ok_def empty_snapshot_def)
  from assms obtain rows where
    rows: "parse_rows (\<lambda>cols. parse_node blake3 base64 cols (lim_max_profile_bytes limits))
      (lim_max_rows limits) empty_snapshot rows = Inr s"
    by (auto simp: parse_snapshot_def result_simps case_prod_beta)
  have "list_all node_ok (snap_nodes s)"
    by (rule parse_rows_nodes [OF rows]) (auto intro: parse_node_ok empty)
  with parse_rows_stats [OF rows empty(1)] show ?thesis by simp
qed

theorem parse_snapshot_ok_witness:
  "\<exists>s. parse_snapshot (\<lambda>_. []) (\<lambda>_. Some [0xFF]) sample_reader (as_bytes ''#HostName,'')
     default_csv_limits = Inr s \<and> list_all node_ok (snap_nodes s)"
  using sample_snapshot parse_snapshot_ok by blast

text \<open>
  The row limit: a list is refused as too long exactly when more rows than the limit
  precede the end marker; otherwise every one of them, readable or not, is counted in order.
\<close>

lemma parse_rows_outcome:
  "parse_rows node limit empty_snapshot rs =
     (if length (data_rows rs) \<le> limit
      then Inr (foldl (\<lambda>s r. count_row node r s) empty_snapshot (data_rows rs)) else Inl TooManyRows)"
  using parse_rows_limit [of empty_snapshot limit node rs] by (simp add: empty_snapshot_def)

end
