(* ===== verification/Connection_Actor.thy ===== *)
theory Connection_Actor
  imports Auto_Connect Netd_Protocol Storage Vpngate "HOL-Library.AList"
begin

text \<open>
  The connection actor of \<open>src/src/service.rs\<close>: the task that owns the active worker and serves
  the retry timer, policy changes, triggers, the health check and the connect and disconnect
  commands.  The actor's local variables and the two watch channels it writes are one record; the
  log \<open>effects\<close> keeps, in order, what other tasks and the helper can see.  What a branch reads
  from elsewhere (node list, policy, stored tests, clocks, the helper's answers, the fresh worker
  identifier) is the environment record of that branch.  Instants and durations are milliseconds.
\<close>

section \<open>State\<close>

definition OLD_WORKER_DRAIN :: nat where "OLD_WORKER_DRAIN = 30000"
definition AUTO_RECONNECT_INITIAL :: nat where "AUTO_RECONNECT_INITIAL = 1000"
definition AUTO_RECONNECT_MAX :: nat where "AUTO_RECONNECT_MAX = 30000"
definition AUTO_NODE_COOLDOWN :: nat where "AUTO_NODE_COOLDOWN = 60000"

datatype service_error =
    NodeNotFound
  | NodeUnavailable
  | RefreshBusy
  | QueueFull
  | OperationNotFound
  | ShuttingDown
  | InvalidAutoConnect string
  | Refresh vpngate_error
  | WorkerFailed netd_client_error
  | StoreFailed store_error

record active_connection =
  con_worker :: worker_id
  con_node :: node_id
  con_since :: datetime

datatype effect =
    SocketPublished "string option"
  | StatePublished connection_state
  | Emitted app_event
  | StartCall worker_id "netd_client_error + string"
  | StopCall worker_id "netd_client_error + unit"
  | StatusCall worker_id "netd_client_error + bool"
  | DrainSpawned worker_id

record actor =
  active :: "active_connection option"
  active_worker :: "string option"
  connection_state :: connection_state
  auto_failures :: "(node_id \<times> nat) list"
  auto_retry_at :: "nat option"
  auto_retry_delay :: nat
  draining :: "(worker_id \<times> nat) list"
  serving :: bool
  effects :: "effect list"

definition initial_actor :: actor where
  "initial_actor =
     \<lparr>active = None, active_worker = None, connection_state = Disconnected, auto_failures = [],
      auto_retry_at = None, auto_retry_delay = AUTO_RECONNECT_INITIAL, draining = [], serving = True,
      effects = []\<rparr>"

definition perform :: "effect \<Rightarrow> actor \<Rightarrow> actor" where
  "perform e a = a\<lparr>effects := effects a @ [e]\<rparr>"

definition publish_socket :: "string option \<Rightarrow> actor \<Rightarrow> actor" where
  "publish_socket s a = perform (SocketPublished s) (a\<lparr>active_worker := s\<rparr>)"

text \<open>\<open>connection_state.send_replace\<close> followed by \<open>emit\<close> of the same state.\<close>

definition publish_state :: "connection_state \<Rightarrow> actor \<Rightarrow> actor" where
  "publish_state c a =
     perform (Emitted (ConnectionEvent c)) (perform (StatePublished c) (a\<lparr>connection_state := c\<rparr>))"

definition stop_worker ::
    "(netd_request \<Rightarrow> netd_client_error + netd_response) \<Rightarrow> worker_id \<Rightarrow> actor \<Rightarrow> actor" where
  "stop_worker netd w a = perform (StopCall w (client_stop_worker netd w)) a"

section \<open>Switching\<close>

record switch_env =
  sw_nodes :: "vpn_node list"
  sw_new_worker :: worker_id
  sw_netd :: "netd_request \<Rightarrow> netd_client_error + netd_response"
  sw_connect_timeout :: nat
  sw_connecting_at :: datetime
  sw_failed_at :: datetime
  sw_connected_at :: datetime
  sw_replaced_at :: nat

fun client_error_message :: "netd_client_error \<Rightarrow> string" where
  "client_error_message Unavailable = ''netd is unavailable''"
| "client_error_message ClientTimeout = ''netd request timed out''"
| "client_error_message ClientProtocol = ''netd protocol failed''"
| "client_error_message (Rejected code message) =
     ''netd rejected the request ('' @ code @ ''): '' @ message"
| "client_error_message UnexpectedResponse = ''netd returned an unexpected response''"

definition connected :: "active_connection \<Rightarrow> connection_state" where
  "connected c = Connected (con_node c) (con_worker c) (con_since c)"

definition start_failed :: "switch_env \<Rightarrow> node_id \<Rightarrow> netd_client_error \<Rightarrow> actor \<Rightarrow> actor" where
  "start_failed env node_id error a =
     publish_state
       (case active a of
          None \<Rightarrow> ConnectionFailed node_id (client_error_message error) (sw_failed_at env)
        | Some current \<Rightarrow> connected current) a"

definition drain_old :: "switch_env \<Rightarrow> active_connection option \<Rightarrow> actor \<Rightarrow> actor" where
  "drain_old env old a =
     (case old of
        None \<Rightarrow> a
      | Some c \<Rightarrow> perform (DrainSpawned (con_worker c))
          (a\<lparr>draining := (con_worker c, sw_replaced_at env + OLD_WORKER_DRAIN) # draining a\<rparr>))"

definition start_succeeded :: "switch_env \<Rightarrow> node_id \<Rightarrow> string \<Rightarrow> actor \<Rightarrow> actor" where
  "start_succeeded env node_id socket a =
     (let replacement = \<lparr>con_worker = sw_new_worker env, con_node = node_id, con_since = sw_connected_at env\<rparr>;
          old = active a;
          a = publish_state (connected replacement) (publish_socket (Some socket) a)
      in drain_old env old (a\<lparr>active := Some replacement\<rparr>))"

definition start_worker ::
    "switch_env \<Rightarrow> node_id \<Rightarrow> sanitized_openvpn \<Rightarrow> actor \<Rightarrow> (service_error + connection_state) \<times> actor" where
  "start_worker env node_id profile a =
     (let w = sw_new_worker env;
          a = publish_state (Connecting node_id w (sw_connecting_at env)) a;
          answer = client_start_worker (sw_netd env) w node_id (so_remote profile) (so_rendered profile)
            (sw_connect_timeout env);
          a = perform (StartCall w answer) a
      in case answer of
           Inl error \<Rightarrow> (Inl (WorkerFailed error), start_failed env node_id error a)
         | Inr socket \<Rightarrow> (Inr (Connected node_id w (sw_connected_at env)), start_succeeded env node_id socket a))"

definition switch_connection ::
    "switch_env \<Rightarrow> node_id \<Rightarrow> actor \<Rightarrow> (service_error + connection_state) \<times> actor" where
  "switch_connection env node_id a =
     (if is_some_and (\<lambda>c. con_node c = node_id) (active a) then (Inr (connected (the (active a))), a)
      else case find (\<lambda>n. vn_id n = node_id) (sw_nodes env) of
        None \<Rightarrow> (Inl NodeNotFound, a)
      | Some node \<Rightarrow>
          if vn_availability node \<noteq> Available then (Inl NodeUnavailable, a)
          else case vn_openvpn node of
            None \<Rightarrow> (Inl NodeUnavailable, a)
          | Some profile \<Rightarrow> start_worker env node_id profile a)"

section \<open>Automatic connection\<close>

record attempt_env =
  at_config :: auto_connect_config
  at_now :: nat
  at_tests :: "store_error + (node_id \<rightharpoonup> test_record)"
  at_nodes :: "vpn_node list"
  at_switch :: switch_env
  at_switch_failed :: nat

definition next_delay :: "nat \<Rightarrow> nat" where
  "next_delay d = min (2 * d) AUTO_RECONNECT_MAX"

definition back_off :: "nat \<Rightarrow> actor \<Rightarrow> nat option \<times> actor" where
  "back_off t a = (Some (t + auto_retry_delay a), a\<lparr>auto_retry_delay := next_delay (auto_retry_delay a)\<rparr>)"

definition earliest :: "(node_id \<times> nat) list \<Rightarrow> nat option" where
  "earliest failures = min_by_key (\<lambda>t. t) (map snd failures)"

definition reset_delay :: "actor \<Rightarrow> actor" where
  "reset_delay a = a\<lparr>auto_retry_delay := AUTO_RECONNECT_INITIAL\<rparr>"

definition retain_after :: "nat \<Rightarrow> actor \<Rightarrow> actor" where
  "retain_after now a = a\<lparr>auto_failures := filter (\<lambda>f. now < snd f) (auto_failures a)\<rparr>"

definition cool_down :: "node_id \<Rightarrow> nat \<Rightarrow> actor \<Rightarrow> actor" where
  "cool_down node_id t a =
     a\<lparr>auto_failures := AList.update node_id (t + AUTO_NODE_COOLDOWN) (auto_failures a)\<rparr>"

definition try_candidate :: "attempt_env \<Rightarrow> node_id \<Rightarrow> actor \<Rightarrow> nat option \<times> actor" where
  "try_candidate env node_id a =
     (if is_some_and (\<lambda>c. con_node c = node_id) (active a)
      then (earliest (auto_failures a), reset_delay a)
      else case switch_connection (at_switch env) node_id a of
        (Inr _, a) \<Rightarrow> (earliest (auto_failures a), reset_delay a)
      | (Inl _, a) \<Rightarrow> back_off (at_switch_failed env) (cool_down node_id (at_switch_failed env) a))"

definition attempt_auto_connect :: "attempt_env \<Rightarrow> actor \<Rightarrow> nat option \<times> actor" where
  "attempt_auto_connect env a =
     (if \<not> ac_enabled (at_config env) then (None, reset_delay (a\<lparr>auto_failures := []\<rparr>))
      else
        let a = retain_after (at_now env) a
        in case at_tests env of
             Inl _ \<Rightarrow> back_off (at_now env) a
           | Inr tests \<Rightarrow>
               (case select_node (at_nodes env) tests (at_config env) (fst ` set (auto_failures a)) of
                  None \<Rightarrow>
                    (if select_node (at_nodes env) tests (at_config env) {} \<noteq> None
                     then earliest (auto_failures a) else None, a)
                | Some node_id \<Rightarrow> try_candidate env node_id a))"

section \<open>The actor\<close>

record health_env =
  he_netd :: "netd_request \<Rightarrow> netd_client_error + netd_response"
  he_failed_at :: nat
  he_failed_utc :: datetime
  he_auto_enabled :: bool
  he_retry_from :: nat

definition attempt :: "attempt_env \<Rightarrow> actor \<Rightarrow> actor" where
  "attempt env a = (case attempt_auto_connect env a of (r, a) \<Rightarrow> a\<lparr>auto_retry_at := r\<rparr>)"

definition config_changed :: "attempt_env \<Rightarrow> actor \<Rightarrow> actor" where
  "config_changed env a = attempt env (reset_delay (a\<lparr>auto_failures := []\<rparr>))"

definition tunnel_lost_message :: string where
  "tunnel_lost_message =
     map char_of [0x56 :: nat, 0x50, 0x4e, 0x20, 0xe9, 0x9a, 0xa7, 0xe9, 0x81, 0x93, 0xe5, 0xb7, 0xb2, 0xe6, 0x96,
       0xad, 0xe5, 0xbc, 0x80, 0xef, 0xbc, 0x9b, 0xe4, 0xbb, 0xa3, 0xe7, 0x90, 0x86, 0xe5, 0xb7, 0xb2, 0xe9,
       0x97, 0xad, 0xe9, 0x94, 0x81]"

definition tunnel_lost :: "health_env \<Rightarrow> active_connection \<Rightarrow> actor \<Rightarrow> actor" where
  "tunnel_lost env failed a =
     (let a = cool_down (con_node failed) (he_failed_at env) (a\<lparr>active := None\<rparr>);
          a = publish_socket None a;
          a = publish_state (ConnectionFailed (con_node failed) tunnel_lost_message (he_failed_utc env)) a;
          a = stop_worker (he_netd env) (con_worker failed) a
      in if he_auto_enabled env
         then case back_off (he_retry_from env) a of (r, a) \<Rightarrow> a\<lparr>auto_retry_at := r\<rparr>
         else a)"

definition health_tick :: "health_env \<Rightarrow> actor \<Rightarrow> actor" where
  "health_tick env a =
     (case active a of
        None \<Rightarrow> a
      | Some current \<Rightarrow>
          let answer = client_worker_ready (he_netd env) (con_worker current);
              a = perform (StatusCall (con_worker current) answer) a
          in if answer = Inr True then a else tunnel_lost env current a)"

definition forget_retries :: "actor \<Rightarrow> actor" where
  "forget_retries a = reset_delay (a\<lparr>auto_retry_at := None, auto_failures := []\<rparr>)"

definition connect_command ::
    "switch_env \<Rightarrow> node_id \<Rightarrow> actor \<Rightarrow> (service_error + connection_state) \<times> actor" where
  "connect_command env node_id a =
     (case switch_connection env node_id a of (r, a) \<Rightarrow> (r, forget_retries a))"

definition stop_active ::
    "(netd_request \<Rightarrow> netd_client_error + netd_response) \<Rightarrow> actor \<Rightarrow> actor" where
  "stop_active netd a =
     (case active a of None \<Rightarrow> a | Some old \<Rightarrow> stop_worker netd (con_worker old) (a\<lparr>active := None\<rparr>))"

definition disconnect_command ::
    "(netd_request \<Rightarrow> netd_client_error + netd_response) \<Rightarrow> actor \<Rightarrow> (service_error + connection_state) \<times> actor" where
  "disconnect_command netd a =
     (Inr Disconnected, stop_active netd (publish_state Disconnected (publish_socket None (forget_retries a))))"

text \<open>The code after the loop, reached on cancellation and when a channel closes.\<close>

definition shut_down :: "(netd_request \<Rightarrow> netd_client_error + netd_response) \<Rightarrow> actor \<Rightarrow> actor" where
  "shut_down netd a = (stop_active netd (publish_socket None a))\<lparr>serving := False\<rparr>"

text \<open>
  The task \<open>switch_connection\<close> spawns: it sleeps, then stops the old worker.  It shares nothing with
  the actor but the helper, so a drain that ends while a branch waits is a step before that branch;
  \<open>Plane\<close> takes the requests of both apart.
\<close>

definition drained ::
    "(netd_request \<Rightarrow> netd_client_error + netd_response) \<Rightarrow> worker_id \<times> nat \<Rightarrow> actor \<Rightarrow> actor" where
  "drained netd d a = stop_worker netd (fst d) (a\<lparr>draining := remove1 d (draining a)\<rparr>)"

datatype actor_input =
    RetryElapsed attempt_env
  | ConfigChanged attempt_env
  | Triggered attempt_env
  | HealthTick health_env
  | ConnectTo node_id switch_env
  | DisconnectNow "netd_request \<Rightarrow> netd_client_error + netd_response"
  | Cancelled "netd_request \<Rightarrow> netd_client_error + netd_response"

fun actor_enabled :: "actor_input \<Rightarrow> actor \<Rightarrow> bool" where
  "actor_enabled (RetryElapsed env) a \<longleftrightarrow> is_some_and (\<lambda>t. t \<le> at_now env) (auto_retry_at a)"
| "actor_enabled (HealthTick env) a \<longleftrightarrow> active a \<noteq> None"
| "actor_enabled _ a \<longleftrightarrow> True"

fun connection_actor :: "actor_input \<Rightarrow> actor \<Rightarrow> actor" where
  "connection_actor (RetryElapsed env) a = attempt env a"
| "connection_actor (ConfigChanged env) a = config_changed env a"
| "connection_actor (Triggered env) a = attempt env a"
| "connection_actor (HealthTick env) a = health_tick env a"
| "connection_actor (ConnectTo node_id env) a = snd (connect_command env node_id a)"
| "connection_actor (DisconnectNow netd) a = snd (disconnect_command netd a)"
| "connection_actor (Cancelled netd) a = shut_down netd a"

text \<open>
  The worker identifier an input would use for a new worker: \<open>WorkerId::new()\<close> is a random
  UUID, so it differs from every identifier used before.
\<close>

fun input_worker :: "actor_input \<Rightarrow> worker_id option" where
  "input_worker (RetryElapsed env) = Some (sw_new_worker (at_switch env))"
| "input_worker (ConfigChanged env) = Some (sw_new_worker (at_switch env))"
| "input_worker (Triggered env) = Some (sw_new_worker (at_switch env))"
| "input_worker (ConnectTo node_id env) = Some (sw_new_worker env)"
| "input_worker _ = None"

definition fresh_worker :: "worker_id \<Rightarrow> actor \<Rightarrow> bool" where
  "fresh_worker w a \<longleftrightarrow> list_all (\<lambda>e. case e of StartCall v _ \<Rightarrow> v \<noteq> w | _ \<Rightarrow> True) (effects a)"

inductive actor_step :: "actor \<Rightarrow> actor \<Rightarrow> bool" where
  step_input: "serving a \<Longrightarrow> actor_enabled i a \<Longrightarrow> pred_option (\<lambda>w. fresh_worker w a) (input_worker i)
    \<Longrightarrow> actor_step a (connection_actor i a)"
| step_drained: "(w, t) \<in> set (draining a) \<Longrightarrow> t \<le> now \<Longrightarrow> actor_step a (drained netd (w, t) a)"

section \<open>Reading the log\<close>

text \<open>
  \<open>routed\<close> is the worker whose socket the log last published (the one the gateway forwards new
  clients to); \<open>spares_route\<close> says that no stop request was sent for the worker routed to at
  that moment.
\<close>

fun route_step :: "worker_id option \<times> worker_id option \<Rightarrow> effect \<Rightarrow> worker_id option \<times> worker_id option" where
  "route_step (l, r) (StartCall w (Inr s)) = (Some w, r)"
| "route_step (l, r) (SocketPublished (Some s)) = (l, l)"
| "route_step (l, r) (SocketPublished None) = (l, None)"
| "route_step (l, r) _ = (l, r)"

definition routed :: "effect list \<Rightarrow> worker_id option" where
  "routed tr = snd (foldl route_step (None, None) tr)"

definition spares_route :: "effect list \<Rightarrow> bool" where
  "spares_route tr \<longleftrightarrow>
     list_all (\<lambda>i. case tr ! i of StopCall w r \<Rightarrow> routed (take i tr) \<noteq> Some w | _ \<Rightarrow> True) [0..<length tr]"

definition started_workers :: "effect list \<Rightarrow> worker_id set" where
  "started_workers tr = {w. \<exists>s. StartCall w (Inr s) \<in> set tr}"

definition stopped_workers :: "effect list \<Rightarrow> worker_id set" where
  "stopped_workers tr = {w. \<exists>r. StopCall w r \<in> set tr}"

text \<open>
  \<open>orderly\<close> is what the helper may rely on: every start request is for a new worker, and a stop
  request is sent at most once, for a worker whose start succeeded.
\<close>

definition requested_workers :: "effect list \<Rightarrow> worker_id set" where
  "requested_workers tr = {w. \<exists>r. StartCall w r \<in> set tr}"

fun in_order :: "effect list \<Rightarrow> effect \<Rightarrow> bool" where
  "in_order before (StartCall w r) \<longleftrightarrow> w \<notin> requested_workers before"
| "in_order before (StopCall w r) \<longleftrightarrow> w \<in> started_workers before - stopped_workers before"
| "in_order before _ \<longleftrightarrow> True"

definition orderly :: "effect list \<Rightarrow> bool" where
  "orderly tr \<longleftrightarrow> list_all (\<lambda>i. in_order (take i tr) (tr ! i)) [0..<length tr]"

text \<open>
  \<open>published\<close> is the path the gateway reads from the watch channel.  At every moment of a log
  either no path is published and no worker is routed to, or the path is the socket of the routed
  worker, which has been started and has not been sent a stop request.
\<close>

fun publish_step :: "string option \<Rightarrow> effect \<Rightarrow> string option" where
  "publish_step p (SocketPublished s) = s"
| "publish_step p _ = p"

definition published :: "effect list \<Rightarrow> string option" where
  "published tr = foldl publish_step None tr"

definition live_at :: "effect list \<Rightarrow> bool" where
  "live_at tr \<longleftrightarrow>
     published tr = None \<and> routed tr = None
     \<or> (\<exists>p w. published tr = Some p \<and> routed tr = Some w \<and> StartCall w (Inr p) \<in> set tr \<and> w \<notin> stopped_workers tr)"

definition routes_live :: "effect list \<Rightarrow> bool" where
  "routes_live tr \<longleftrightarrow> list_all (\<lambda>k. live_at (take k tr)) [0..<Suc (length tr)]"

fun at_rest :: "connection_state \<Rightarrow> bool" where
  "at_rest Disconnected = True"
| "at_rest (ConnectionFailed _ _ _) = True"
| "at_rest _ = False"

definition delay_ok :: "nat \<Rightarrow> bool" where
  "delay_ok d \<longleftrightarrow> AUTO_RECONNECT_INITIAL \<le> d \<and> d \<le> AUTO_RECONNECT_MAX"

definition actor_ok :: "actor \<Rightarrow> bool" where
  "actor_ok a \<longleftrightarrow>
     delay_ok (auto_retry_delay a)
     \<and> spares_route (effects a)
     \<and> routes_live (effects a)
     \<and> orderly (effects a)
     \<and> distinct (map fst (draining a)) \<and> fst ` set (draining a) \<inter> stopped_workers (effects a) = {}
     \<and> published (effects a) = active_worker a
     \<and> routed (effects a) = map_option con_worker (active a)
     \<and> started_workers (effects a) =
         set_option (map_option con_worker (active a)) \<union> fst ` set (draining a) \<union> stopped_workers (effects a)
     \<and> (case active a of
          None \<Rightarrow> active_worker a = None \<and> (serving a \<longrightarrow> at_rest (connection_state a))
        | Some c \<Rightarrow>
            serving a \<and> connection_state a = connected c
            \<and> con_worker c \<notin> fst ` set (draining a) \<union> stopped_workers (effects a)
            \<and> (\<exists>s. active_worker a = Some s \<and> StartCall (con_worker c) (Inr s) \<in> set (effects a)))"

text \<open>One effect at a time: what it does to the log, and nothing to the other fields.\<close>

definition last_started :: "effect list \<Rightarrow> worker_id option" where
  "last_started tr = fst (foldl route_step (None, None) tr)"

lemma perform_fields [simp]:
  "active (perform e a) = active a" "active_worker (perform e a) = active_worker a"
  "connection_state (perform e a) = connection_state a" "auto_failures (perform e a) = auto_failures a"
  "auto_retry_at (perform e a) = auto_retry_at a" "auto_retry_delay (perform e a) = auto_retry_delay a"
  "draining (perform e a) = draining a" "serving (perform e a) = serving a"
  "set (effects (perform e a)) = insert e (set (effects a))"
  by (simp_all add: perform_def)

lemma route_step_cases:
  "route_step p e =
     (case e of
        StartCall w v \<Rightarrow> (case v of Inl _ \<Rightarrow> p | Inr _ \<Rightarrow> (Some w, snd p))
      | SocketPublished s \<Rightarrow> (case s of None \<Rightarrow> (fst p, None) | Some _ \<Rightarrow> (fst p, fst p))
      | _ \<Rightarrow> p)"
  by (cases p; cases e) (auto split: sum.split option.split)

lemma routed_perform [simp]:
  "routed (effects (perform (SocketPublished None) a)) = None"
  "routed (effects (perform (SocketPublished (Some s)) a)) = last_started (effects a)"
  "routed (effects (perform (StatePublished c) a)) = routed (effects a)"
  "routed (effects (perform (Emitted ev) a)) = routed (effects a)"
  "routed (effects (perform (StartCall w v) a)) = routed (effects a)"
  "routed (effects (perform (StopCall w u) a)) = routed (effects a)"
  "routed (effects (perform (StatusCall w b) a)) = routed (effects a)"
  "routed (effects (perform (DrainSpawned w) a)) = routed (effects a)"
  by (simp_all add: perform_def routed_def last_started_def route_step_cases split: sum.split)

lemma last_started_perform [simp]:
  "last_started (effects (perform (StartCall w (Inr s)) a)) = Some w"
  by (simp add: perform_def last_started_def route_step_cases)

lemma spares_route_snoc:
  "spares_route (tr @ [e]) \<longleftrightarrow>
     spares_route tr \<and> (case e of StopCall w r \<Rightarrow> routed tr \<noteq> Some w | _ \<Rightarrow> True)"
  unfolding spares_route_def by (simp add: list_all_iff nth_append cong: effect.case_cong) blast

lemma spares_perform [simp]:
  "spares_route (effects (perform (StopCall w r) a)) \<longleftrightarrow>
     spares_route (effects a) \<and> routed (effects a) \<noteq> Some w"
  "spares_route (effects (perform (SocketPublished s) a)) = spares_route (effects a)"
  "spares_route (effects (perform (StatePublished c) a)) = spares_route (effects a)"
  "spares_route (effects (perform (Emitted ev) a)) = spares_route (effects a)"
  "spares_route (effects (perform (StartCall w v) a)) = spares_route (effects a)"
  "spares_route (effects (perform (StatusCall w b) a)) = spares_route (effects a)"
  "spares_route (effects (perform (DrainSpawned w) a)) = spares_route (effects a)"
  by (simp_all add: perform_def spares_route_snoc)

lemma started_perform [simp]:
  "started_workers (effects (perform (StartCall w (Inr s)) a)) = insert w (started_workers (effects a))"
  "started_workers (effects (perform (StartCall w (Inl x)) a)) = started_workers (effects a)"
  "started_workers (effects (perform (SocketPublished t) a)) = started_workers (effects a)"
  "started_workers (effects (perform (StatePublished c) a)) = started_workers (effects a)"
  "started_workers (effects (perform (Emitted ev) a)) = started_workers (effects a)"
  "started_workers (effects (perform (StopCall w r) a)) = started_workers (effects a)"
  "started_workers (effects (perform (StatusCall w b) a)) = started_workers (effects a)"
  "started_workers (effects (perform (DrainSpawned w) a)) = started_workers (effects a)"
  by (auto simp: started_workers_def)

lemma stopped_perform [simp]:
  "stopped_workers (effects (perform (StopCall w r) a)) = insert w (stopped_workers (effects a))"
  "stopped_workers (effects (perform (StartCall w v) a)) = stopped_workers (effects a)"
  "stopped_workers (effects (perform (SocketPublished t) a)) = stopped_workers (effects a)"
  "stopped_workers (effects (perform (StatePublished c) a)) = stopped_workers (effects a)"
  "stopped_workers (effects (perform (Emitted ev) a)) = stopped_workers (effects a)"
  "stopped_workers (effects (perform (StatusCall w b) a)) = stopped_workers (effects a)"
  "stopped_workers (effects (perform (DrainSpawned w) a)) = stopped_workers (effects a)"
  by (auto simp: stopped_workers_def)

lemma orderly_snoc: "orderly (tr @ [e]) \<longleftrightarrow> orderly tr \<and> in_order tr e"
  unfolding orderly_def by (auto simp: list_all_iff nth_append)

lemma orderly_perform [simp]: "orderly (effects (perform e a)) \<longleftrightarrow> orderly (effects a) \<and> in_order (effects a) e"
  by (simp add: perform_def orderly_snoc)

lemma requested_perform [simp]:
  "requested_workers (effects (perform (StartCall w r) a)) = insert w (requested_workers (effects a))"
  "requested_workers (effects (perform (StatePublished c) a)) = requested_workers (effects a)"
  "requested_workers (effects (perform (Emitted ev) a)) = requested_workers (effects a)"
  by (auto simp: requested_workers_def)

lemma published_perform [simp]:
  "published (effects (perform e a)) = publish_step (published (effects a)) e"
  by (simp add: perform_def published_def)

lemma routes_live_snoc: "routes_live (tr @ [e]) \<longleftrightarrow> routes_live tr \<and> live_at (tr @ [e])"
  unfolding routes_live_def by (auto simp: list_all_iff less_Suc_eq_le)

lemma routes_live_at: "routes_live tr \<Longrightarrow> k \<le> length tr \<Longrightarrow> live_at (take k tr)"
  by (cases "k = length tr") (auto simp: routes_live_def list_all_iff)

lemma routes_live_perform:
  "routes_live (effects (perform e a)) \<longleftrightarrow> routes_live (effects a) \<and> live_at (effects (perform e a))"
  by (simp add: perform_def routes_live_snoc)

lemma routes_live_now: "routes_live tr \<Longrightarrow> live_at tr"
  using routes_live_at [of tr "length tr"] by simp

lemma live_perform [simp]:
  "routes_live (effects (perform (StopCall w r) a)) \<longleftrightarrow> routes_live (effects a) \<and> routed (effects a) \<noteq> Some w"
  "routes_live (effects (perform (SocketPublished None) a)) = routes_live (effects a)"
  "routes_live (effects (perform (SocketPublished (Some p)) a)) \<longleftrightarrow>
     routes_live (effects a) \<and> (\<exists>w. last_started (effects a) = Some w \<and> StartCall w (Inr p) \<in> set (effects a)
       \<and> w \<notin> stopped_workers (effects a))"
  "routes_live (effects (perform (StatePublished c) a)) = routes_live (effects a)"
  "routes_live (effects (perform (Emitted ev) a)) = routes_live (effects a)"
  "routes_live (effects (perform (StartCall w v) a)) = routes_live (effects a)"
  "routes_live (effects (perform (StatusCall w b) a)) = routes_live (effects a)"
  "routes_live (effects (perform (DrainSpawned w) a)) = routes_live (effects a)"
  using routes_live_now [of "effects a"] by (auto simp: routes_live_perform live_at_def)

lemmas publish_defs = publish_socket_def publish_state_def stop_worker_def

lemma fresh_not_started: "fresh_worker w a \<Longrightarrow> w \<notin> started_workers (effects a)"
  by (force simp: fresh_worker_def started_workers_def list_all_iff split: effect.splits)

lemma fresh_not_requested: "fresh_worker w a \<Longrightarrow> w \<notin> requested_workers (effects a)"
  by (force simp: fresh_worker_def requested_workers_def list_all_iff split: effect.splits)

section \<open>Every branch keeps the invariant\<close>

lemma start_worker_ok:
  assumes "actor_ok a" and "serving a" and "fresh_worker (sw_new_worker env) a"
  shows "actor_ok (snd (start_worker env node_id profile a))"
proof (cases "client_start_worker (sw_netd env) (sw_new_worker env) node_id (so_remote profile)
    (so_rendered profile) (sw_connect_timeout env)")
  case (Inl e)
  then show ?thesis
    using assms(1,2) fresh_not_requested [OF assms(3)] by (cases "active a") (auto simp: start_worker_def Let_def start_failed_def publish_defs actor_ok_def)
next
  case (Inr s)
  have new: "sw_new_worker env \<notin> started_workers (effects a)" using assms(3) by (rule fresh_not_started)
  then show ?thesis
    using assms(1,2) Inr fresh_not_requested [OF assms(3)]
    by (cases "active a")
       (auto simp: start_worker_def Let_def start_succeeded_def drain_old_def publish_defs actor_ok_def)
qed

lemma switch_connection_outcome:
  "is_some_and (\<lambda>c. con_node c = n) (active a)
     \<and> switch_connection env n a = (Inr (connected (the (active a))), a)
   \<or> (\<exists>e. switch_connection env n a = (Inl e, a))
   \<or> \<not> is_some_and (\<lambda>c. con_node c = n) (active a)
     \<and> (\<exists>profile. switch_connection env n a = start_worker env n profile a)"
  by (simp add: switch_connection_def split: option.split) blast

lemma switch_connection_ok:
  assumes "actor_ok a" and "serving a" and "fresh_worker (sw_new_worker env) a"
  shows "actor_ok (snd (switch_connection env n a))"
  using assms start_worker_ok switch_connection_outcome [of n a env] by auto

lemma start_worker_fields:
  "auto_failures (snd (start_worker env n p a)) = auto_failures a"
  "auto_retry_delay (snd (start_worker env n p a)) = auto_retry_delay a"
  "serving (snd (start_worker env n p a)) = serving a"
  by (simp_all add: start_worker_def Let_def start_failed_def start_succeeded_def drain_old_def publish_defs
      split: sum.split option.split)

lemma switch_connection_fields [simp]:
  "auto_failures (snd (switch_connection env n a)) = auto_failures a"
  "auto_retry_delay (snd (switch_connection env n a)) = auto_retry_delay a"
  "serving (snd (switch_connection env n a)) = serving a"
  using switch_connection_outcome [of n a env] start_worker_fields by auto

lemma delay_ok_steps [simp]: "delay_ok AUTO_RECONNECT_INITIAL" "delay_ok d \<Longrightarrow> delay_ok (next_delay d)"
  by (simp_all add: delay_ok_def next_delay_def AUTO_RECONNECT_INITIAL_def AUTO_RECONNECT_MAX_def)

lemmas timer_defs = reset_delay_def retain_after_def cool_down_def back_off_def forget_retries_def

lemma timers_ok:
  assumes "actor_ok a"
  shows "actor_ok (reset_delay a)" "actor_ok (retain_after now a)" "actor_ok (cool_down n t a)"
    "actor_ok (snd (back_off t a))" "actor_ok (forget_retries a)" "actor_ok (a\<lparr>auto_retry_at := r\<rparr>)"
    "actor_ok (a\<lparr>auto_failures := f\<rparr>)"
  using assms by (simp_all add: timer_defs actor_ok_def cong: option.case_cong)

lemma timers_fields [simp]:
  "serving (reset_delay a) = serving a" "serving (retain_after now a) = serving a"
  "effects (reset_delay a) = effects a" "effects (retain_after now a) = effects a"
  "active (retain_after now a) = active a"
  by (simp_all add: timer_defs)

lemma fresh_worker_cong: "effects a = effects b \<Longrightarrow> fresh_worker w a = fresh_worker w b"
  by (simp add: fresh_worker_def)

lemma try_candidate_ok:
  assumes "actor_ok a" and "serving a" and "fresh_worker (sw_new_worker (at_switch env)) a"
  shows "actor_ok (snd (try_candidate env n a))"
proof -
  obtain r b where b: "switch_connection (at_switch env) n a = (r, b)"
    by (cases "switch_connection (at_switch env) n a")
  then have "actor_ok b" using switch_connection_ok [OF assms, of n] by simp
  with assms(1) b show ?thesis by (cases r) (simp_all add: try_candidate_def timers_ok)
qed

lemma attempt_auto_connect_ok:
  assumes "actor_ok a" and "serving a" and "fresh_worker (sw_new_worker (at_switch env)) a"
  shows "actor_ok (snd (attempt_auto_connect env a))"
proof -
  have "fresh_worker (sw_new_worker (at_switch env)) (retain_after (at_now env) a)"
    using assms(3) fresh_worker_cong [of a "retain_after (at_now env) a"] by simp
  with assms show ?thesis
    by (auto simp: attempt_auto_connect_def Let_def timers_ok try_candidate_ok split: sum.split option.split)
qed

lemma attempt_ok:
  assumes "actor_ok a" and "serving a" and "fresh_worker (sw_new_worker (at_switch env)) a"
  shows "actor_ok (attempt env a)"
  using attempt_auto_connect_ok [OF assms] by (simp add: attempt_def case_prod_beta timers_ok)

lemma tunnel_lost_ok:
  assumes "actor_ok a" and "active a = Some c" shows "actor_ok (tunnel_lost env c a)"
  using assms
  by (auto simp: tunnel_lost_def Let_def publish_defs timer_defs actor_ok_def)

lemma health_tick_ok:
  assumes "actor_ok a" shows "actor_ok (health_tick env a)"
proof (cases "active a")
  case (Some c)
  have "actor_ok (perform (StatusCall w r) a)" for w r
    using assms by (simp add: actor_ok_def cong: option.case_cong)
  with Some show ?thesis by (simp add: health_tick_def Let_def tunnel_lost_ok)
qed (simp add: health_tick_def assms)

lemma disconnect_ok:
  assumes "actor_ok a" shows "actor_ok (snd (disconnect_command netd a))"
  using assms
  by (cases "active a")
     (auto simp: disconnect_command_def stop_active_def publish_defs timer_defs actor_ok_def)

lemma shut_down_ok:
  assumes "actor_ok a" shows "actor_ok (shut_down netd a)"
  using assms by (cases "active a") (auto simp: shut_down_def stop_active_def publish_defs actor_ok_def)

lemma set_remove1_insert: "x \<in> set xs \<Longrightarrow> insert x (set (remove1 x xs)) = set xs"
  by (induction xs) auto

lemma distinct_remove1_key:
  assumes "d \<in> set ds" and "distinct (map fst ds)"
  shows "fst d \<notin> fst ` set (remove1 d ds) \<and> distinct (map fst (remove1 d ds))"
proof -
  obtain xs ys where "ds = xs @ d # ys" "d \<notin> set xs" using split_list_first [OF assms(1)] by blast
  then show ?thesis using assms(2) by (auto simp: remove1_append)
qed

lemma drained_ok:
  assumes "actor_ok a" and "d \<in> set (draining a)" shows "actor_ok (drained netd d a)"
proof -
  have d: "fst ` set (draining a) = insert (fst d) (fst ` set (remove1 d (draining a)))"
    using set_remove1_insert [OF assms(2)] by (metis image_insert)
  have "map_option con_worker (active a) \<noteq> Some (fst d)"
    using assms by (force simp: actor_ok_def)
  moreover have "fst d \<notin> fst ` set (remove1 d (draining a)) \<and> distinct (map fst (remove1 d (draining a)))"
    using assms by (intro distinct_remove1_key) (simp_all add: actor_ok_def)
  ultimately show ?thesis
    using assms(1) d by (cases "active a") (auto simp: drained_def publish_defs actor_ok_def)
qed

lemma connection_actor_ok:
  assumes "actor_ok a" and "serving a" and "actor_enabled i a"
    and "pred_option (\<lambda>w. fresh_worker w a) (input_worker i)"
  shows "actor_ok (connection_actor i a)"
proof (cases i)
  case (ConfigChanged env)
  let ?b = "reset_delay (a\<lparr>auto_failures := []\<rparr>)"
  have "actor_ok ?b" using assms(1) by (simp add: timers_ok)
  moreover have "fresh_worker (sw_new_worker (at_switch env)) ?b"
    using assms(4) ConfigChanged fresh_worker_cong [of a ?b] by simp
  ultimately show ?thesis using assms(2) ConfigChanged by (simp add: config_changed_def attempt_ok)
next
  case (ConnectTo n env)
  then show ?thesis
    using assms switch_connection_ok [of a env n] by (simp add: connect_command_def case_prod_beta timers_ok)
qed (use assms in \<open>simp_all add: attempt_ok health_tick_ok disconnect_ok shut_down_ok\<close>)

interpretation actor: invariant_system "\<lambda>a. a = initial_actor" actor_step actor_ok
proof
  show "actor_ok s" if "s = initial_actor" for s
    using that by (simp add: initial_actor_def actor_ok_def spares_route_def routed_def started_workers_def
        stopped_workers_def routes_live_def live_at_def published_def orderly_def)
  show "actor_ok s'" if "actor_ok s" and "actor_step s s'" for s s'
    using that(2,1) by cases (auto intro: connection_actor_ok drained_ok)
qed

section \<open>What a switch does, in order\<close>

text \<open>
  The effects of starting a replacement: the new worker has started before its socket is
  published, and only then is the old worker handed to the draining task.
\<close>

definition switch_effects :: "switch_env \<Rightarrow> node_id \<Rightarrow> string \<Rightarrow> active_connection option \<Rightarrow> effect list" where
  "switch_effects env node_id socket old =
     (let connecting = Connecting node_id (sw_new_worker env) (sw_connecting_at env);
          done_state = Connected node_id (sw_new_worker env) (sw_connected_at env)
      in [StatePublished connecting, Emitted (ConnectionEvent connecting),
          StartCall (sw_new_worker env) (Inr socket), SocketPublished (Some socket),
          StatePublished done_state, Emitted (ConnectionEvent done_state)]
         @ map (DrainSpawned \<circ> con_worker) (case old of None \<Rightarrow> [] | Some c \<Rightarrow> [c]))"

lemma start_worker_success:
  assumes "start_worker env n p a = (Inr st, b)"
  shows "\<exists>socket. effects b = effects a @ switch_effects env n socket (active a)
    \<and> active_worker b = Some socket
    \<and> active b = Some \<lparr>con_worker = sw_new_worker env, con_node = n, con_since = sw_connected_at env\<rparr>
    \<and> draining b = map (\<lambda>c. (con_worker c, sw_replaced_at env + OLD_WORKER_DRAIN))
        (case active a of None \<Rightarrow> [] | Some c \<Rightarrow> [c]) @ draining a"
  using assms
  by (auto simp: start_worker_def start_succeeded_def drain_old_def publish_defs perform_def connected_def
      switch_effects_def Let_def split: sum.splits option.splits)

lemma start_worker_failure:
  assumes "start_worker env n p a = (Inl e, b)"
  shows "active b = active a \<and> active_worker b = active_worker a \<and> draining b = draining a
    \<and> (\<exists>new. effects b = effects a @ new
        \<and> list_all (\<lambda>e. case e of StatePublished _ \<Rightarrow> True | Emitted _ \<Rightarrow> True | StartCall _ (Inl _) \<Rightarrow> True | _ \<Rightarrow> False) new)"
  using assms
  by (auto simp: start_worker_def start_failed_def publish_defs perform_def Let_def split: sum.splits)

section \<open>Retries\<close>

lemma earliest_None [simp]: "earliest fs = None \<longleftrightarrow> fs = []"
  by (simp add: earliest_def)

lemma earliest_mem: "earliest fs = Some t \<Longrightarrow> t \<in> snd ` set fs"
  using min_by_key_mem [of "\<lambda>t. t" "map snd fs"] by (simp add: earliest_def)

definition cooldowns_until :: "nat \<Rightarrow> actor \<Rightarrow> bool" where
  "cooldowns_until t a \<longleftrightarrow> list_all (\<lambda>f. snd f \<le> t) (auto_failures a)"

lemma earliest_after_retain:
  assumes "cooldowns_until u a" and "earliest (auto_failures (retain_after now a)) = Some t"
  shows "now < t \<and> t \<le> u"
  using earliest_mem [OF assms(2)] assms(1) by (auto simp: timer_defs cooldowns_until_def list_all_iff)

lemma back_off_bounds:
  "delay_ok (auto_retry_delay a) \<Longrightarrow>
   \<exists>d. fst (back_off t a) = Some d \<and> t < d \<and> d \<le> t + AUTO_RECONNECT_MAX"
  by (simp add: back_off_def delay_ok_def AUTO_RECONNECT_INITIAL_def)

lemma try_candidate_progress:
  assumes "delay_ok (auto_retry_delay a)"
  shows "(\<exists>c. active (snd (try_candidate env n a)) = Some c \<and> con_node c = n)
    \<or> (\<exists>t. fst (try_candidate env n a) = Some t \<and> at_switch_failed env < t
        \<and> t \<le> at_switch_failed env + AUTO_RECONNECT_MAX)"
proof (cases "is_some_and (\<lambda>c. con_node c = n) (active a)")
  case True
  then show ?thesis
    by (auto simp: try_candidate_def timer_defs is_some_and_def split: option.splits)
next
  case False
  obtain r b where b: "switch_connection (at_switch env) n a = (r, b)"
    by (cases "switch_connection (at_switch env) n a")
  show ?thesis
  proof (cases r)
    case (Inl e)
    have "auto_retry_delay b = auto_retry_delay a"
      using b switch_connection_fields(2) [of "at_switch env" n a] by simp
    then show ?thesis
      using False b Inl assms back_off_bounds [of "cool_down n (at_switch_failed env) b"]
      by (simp add: try_candidate_def cool_down_def)
  next
    case (Inr st)
    then obtain p where "start_worker (at_switch env) n p a = (Inr st, b)"
      using False b switch_connection_outcome [of n a "at_switch env"] by auto
    from start_worker_success [OF this] have "\<exists>c. active b = Some c \<and> con_node c = n" by auto
    then show ?thesis using False b Inr by (simp add: try_candidate_def timer_defs)
  qed
qed

section \<open>Properties of the connection actor\<close>

definition sample_profile :: sanitized_openvpn where
  "sample_profile = \<lparr>so_rendered = ''client'', so_remote = \<lparr>sock_ip = Ipv4Addr 8 8 8 8, sock_port = 443\<rparr>, so_digest = []\<rparr>"

definition sample_switch :: "(netd_request \<Rightarrow> netd_client_error + netd_response) \<Rightarrow> uuid \<Rightarrow> switch_env" where
  "sample_switch netd w =
     \<lparr>sw_nodes = [(sample_node ''a'' 1)\<lparr>vn_openvpn := Some sample_profile\<rparr>,
                  (sample_node ''b'' 2)\<lparr>vn_openvpn := Some sample_profile\<rparr>],
      sw_new_worker = WorkerId w, sw_netd = netd, sw_connect_timeout = 1000, sw_connecting_at = 0,
      sw_failed_at = 1, sw_connected_at = 1, sw_replaced_at = 5\<rparr>"

definition sample_start :: "netd_request \<Rightarrow> netd_client_error + netd_response" where
  "sample_start = (\<lambda>_. Inr (WorkerStarted ''/run/w/socks.sock''))"

definition sample_actor :: actor where
  "sample_actor = connection_actor (ConnectTo (NodeId ''a'') (sample_switch sample_start 7)) initial_actor"

lemma sample_actor_value:
  "active sample_actor = Some \<lparr>con_worker = WorkerId 7, con_node = NodeId ''a'', con_since = 1\<rparr>"
  "active_worker sample_actor = Some ''/run/w/socks.sock''" "serving sample_actor"
  "\<not> fresh_worker (WorkerId 7) sample_actor" "fresh_worker (WorkerId 8) sample_actor"
  by code_simp+

lemma sample_actor_reachable: "reachable (\<lambda>a. a = initial_actor) actor_step sample_actor"
  unfolding sample_actor_def
proof (rule reach_step)
  show "reachable (\<lambda>a. a = initial_actor) actor_step initial_actor" by (rule reach_init) simp
  show "actor_step initial_actor
      (connection_actor (ConnectTo (NodeId ''a'') (sample_switch sample_start 7)) initial_actor)"
    by (rule step_input) (simp_all add: fresh_worker_def initial_actor_def)
qed

text \<open>
  C10.  The gateway's route follows the active connection.  In every state the actor can reach
  between two branches, a socket is published exactly when a connection is active; it is the
  socket the helper returned when it started that connection's worker, the connection state shown
  to clients is \<open>Connected\<close> with that node and worker, and the worker is neither stopped nor
  draining; when no connection is active the state shown is at rest.
\<close>

theorem route_follows_active:
  assumes "reachable (\<lambda>a. a = initial_actor) actor_step a"
  shows "case active_worker a of
      None \<Rightarrow> active a = None \<and> (\<not> serving a \<or> at_rest (connection_state a))
    | Some socket \<Rightarrow> \<exists>c. active a = Some c \<and> connection_state a = connected c
        \<and> StartCall (con_worker c) (Inr socket) \<in> set (effects a)
        \<and> con_worker c \<notin> stopped_workers (effects a) \<and> con_worker c \<notin> fst ` set (draining a)"
proof -
  have "actor_ok a" using assms by (rule actor.reachable_inv)
  then show ?thesis by (auto simp: actor_ok_def split: option.splits)
qed

theorem route_follows_active_witness:
  "connection_state sample_actor = Connected (NodeId ''a'') (WorkerId 7) 1"
  using route_follows_active [OF sample_actor_reachable] by (simp add: sample_actor_value connected_def)

text \<open>
  C9.  Workers are neither cut off nor forgotten.  In every log the actor can produce, a stop
  request is never sent for the worker whose socket is published at that moment, and every worker
  that was started is the active one, is draining, or has been sent a stop request.
\<close>

theorem stops_spare_route:
  assumes "reachable (\<lambda>a. a = initial_actor) actor_step a"
  shows "spares_route (effects a)
    \<and> started_workers (effects a) =
        set_option (map_option con_worker (active a)) \<union> fst ` set (draining a) \<union> stopped_workers (effects a)"
proof -
  have "actor_ok a" using assms by (rule actor.reachable_inv)
  then show ?thesis by (simp add: actor_ok_def)
qed

theorem stops_spare_route_witness:
  "started_workers (effects sample_actor) = insert (WorkerId 7) (stopped_workers (effects sample_actor))"
proof -
  have "draining sample_actor = []" by code_simp
  then show ?thesis using stops_spare_route [OF sample_actor_reachable] by (simp add: sample_actor_value)
qed

text \<open>
  C11.  Switching is make-before-break.  A switch that fails leaves the active connection, the
  published socket and the draining workers as they were, and its log holds no socket change and
  no stop; a switch to the active node changes nothing; any other successful switch publishes
  the new socket only after its worker has started, never publishes an empty route, and hands the
  old worker to a task that stops it thirty seconds later.
\<close>

theorem switch_make_before_break:
  "case switch_connection env n a of
     (Inl _, b) \<Rightarrow> active b = active a \<and> active_worker b = active_worker a \<and> draining b = draining a
       \<and> (\<exists>new. effects b = effects a @ new
          \<and> list_all (\<lambda>e. case e of StatePublished _ \<Rightarrow> True | Emitted _ \<Rightarrow> True | StartCall _ (Inl _) \<Rightarrow> True | _ \<Rightarrow> False) new)
   | (Inr _, b) \<Rightarrow>
       if is_some_and (\<lambda>c. con_node c = n) (active a) then b = a
       else \<exists>socket. effects b = effects a @ switch_effects env n socket (active a)
          \<and> active_worker b = Some socket
          \<and> active b = Some \<lparr>con_worker = sw_new_worker env, con_node = n, con_since = sw_connected_at env\<rparr>
          \<and> draining b = map (\<lambda>c. (con_worker c, sw_replaced_at env + OLD_WORKER_DRAIN))
              (case active a of None \<Rightarrow> [] | Some c \<Rightarrow> [c]) @ draining a"
proof -
  obtain r b where b: "switch_connection env n a = (r, b)" by (cases "switch_connection env n a")
  consider "b = a" "r = Inr (connected (the (active a)))" "is_some_and (\<lambda>c. con_node c = n) (active a)"
    | e where "b = a" "r = Inl e"
    | p where "start_worker env n p a = (r, b)" "\<not> is_some_and (\<lambda>c. con_node c = n) (active a)"
    using switch_connection_outcome [of n a env] b by fastforce
  then show ?thesis
  proof cases
    case (3 p)
    then show ?thesis
      using b start_worker_failure [of env n p a _ b] start_worker_success [of env n p a _ b] by (cases r) auto
  qed (simp_all add: b)
qed

text \<open>
  C25.  Automatic connection is never stuck.  When the policy is enabled, the stored results can be
  read and some node matches the policy, an attempt ends either connected to the best node that
  is not cooling down, or with a retry timer set: strictly later than the attempt began, and at
  most one cooldown away.
\<close>

theorem auto_connect_progress:
  assumes "ac_enabled (at_config env)" and "at_tests env = Inr tests"
    and "select_node (at_nodes env) tests (at_config env) {} \<noteq> None"
    and "delay_ok (auto_retry_delay a)" and "at_now env \<le> at_switch_failed env"
    and "cooldowns_until (at_now env + AUTO_NODE_COOLDOWN) a"
  shows "(\<exists>c. active (snd (attempt_auto_connect env a)) = Some c
        \<and> select_node (at_nodes env) tests (at_config env)
            (fst ` set (auto_failures (retain_after (at_now env) a))) = Some (con_node c))
    \<or> (\<exists>t. fst (attempt_auto_connect env a) = Some t \<and> at_now env < t
        \<and> t \<le> at_switch_failed env + AUTO_NODE_COOLDOWN)"
proof (cases "select_node (at_nodes env) tests (at_config env)
    (fst ` set (auto_failures (retain_after (at_now env) a)))")
  case None
  let ?b = "retain_after (at_now env) a"
  have "auto_failures ?b \<noteq> []" using None assms(3) by auto
  then obtain t where t: "earliest (auto_failures ?b) = Some t" using earliest_None by blast
  then have "fst (attempt_auto_connect env a) = Some t"
    using assms(1,2,3) None by (simp add: attempt_auto_connect_def Let_def)
  with earliest_after_retain [OF assms(6) t] assms(5) show ?thesis by auto
next
  case (Some n)
  let ?b = "retain_after (at_now env) a"
  have run: "attempt_auto_connect env a = try_candidate env n ?b"
    using assms(1,2) Some by (simp add: attempt_auto_connect_def Let_def)
  have "delay_ok (auto_retry_delay ?b)" using assms(4) by (simp add: timer_defs)
  from try_candidate_progress [OF this, of env n] show ?thesis
    unfolding run using Some assms(5)
    by (auto simp: AUTO_RECONNECT_MAX_def AUTO_NODE_COOLDOWN_def intro: exI)
qed

lemma attempt_unavailable:
  assumes "\<And>r. sw_netd (at_switch env) r = Inl Unavailable"
  shows "active (snd (attempt_auto_connect env a)) = active a"
proof -
  have "active (snd (switch_connection (at_switch env) n b)) = active b" for n b
    using assms
    by (simp add: switch_connection_def start_worker_def client_start_worker_def start_failed_def Let_def
        publish_defs split: option.split)
  then show ?thesis
    by (simp add: attempt_auto_connect_def try_candidate_def timer_defs Let_def case_prod_beta
        split: sum.split option.split)
qed

definition sample_attempt :: attempt_env where
  "sample_attempt =
     \<lparr>at_config = default_auto_connect\<lparr>ac_enabled := True\<rparr>, at_now = 100, at_tests = Inr Map.empty,
      at_nodes = sw_nodes (sample_switch (\<lambda>_. Inl Unavailable) 8),
      at_switch = sample_switch (\<lambda>_. Inl Unavailable) 8, at_switch_failed = 200\<rparr>"

theorem auto_connect_progress_witness:
  "\<exists>t. fst (attempt_auto_connect sample_attempt initial_actor) = Some t \<and> 100 < t \<and> t \<le> 60200"
proof -
  have select: "select_node (at_nodes sample_attempt) Map.empty (at_config sample_attempt) {} \<noteq> None"
    by (simp add: select_node_None_iff sample_attempt_def sample_switch_def sample_node_def auto_candidate_def
        matches_region_def matches_ip_traits_def default_auto_connect_def)
  have idle: "active (snd (attempt_auto_connect sample_attempt initial_actor)) = None"
    by (subst attempt_unavailable) (simp_all add: sample_attempt_def sample_switch_def initial_actor_def)
  have env: "ac_enabled (at_config sample_attempt)" "at_tests sample_attempt = Inr Map.empty"
    "at_now sample_attempt = 100" "at_switch_failed sample_attempt = 200"
    by (simp_all add: sample_attempt_def)
  have ready: "delay_ok (auto_retry_delay initial_actor)"
    "cooldowns_until (at_now sample_attempt + AUTO_NODE_COOLDOWN) initial_actor"
    by (simp_all add: initial_actor_def cooldowns_until_def)
  have "at_now sample_attempt \<le> at_switch_failed sample_attempt" by (simp add: env)
  from auto_connect_progress [OF env(1,2) select ready(1) this ready(2)] show ?thesis
    unfolding idle env by (simp add: AUTO_NODE_COOLDOWN_def)
qed

end
