(* ===== verification/Test_Registry.thy ===== *)
theory Test_Registry
  imports Domain_Nodes Transition_System "HOL-Library.AList"
begin

text \<open>
  The in-memory life cycle of test operations, \<open>src/src/test_registry.rs\<close>.  The hash maps are
  association lists: their order stands for the unspecified iteration order, and the laws hold
  for every order.  \<open>OperationId::new()\<close> is an argument of \<open>queue\<close>.
\<close>

section \<open>State and operations\<close>

record test_registry =
  operations :: "(operation_id \<times> test_state) list"
  pending_by_node :: "(node_id \<times> operation_id) list"
  observed_nodes :: "node_id set"

datatype queue_registration = Existing operation_id | New operation_id test_state

definition empty_registry :: test_registry where
  "empty_registry = \<lparr>operations = [], pending_by_node = [], observed_nodes = {}\<rparr>"

definition queue ::
    "operation_id \<Rightarrow> test_registry \<Rightarrow> node_id \<Rightarrow> datetime \<Rightarrow> queue_registration \<times> test_registry" where
  "queue new_id r node_id queued_at =
     (case map_of (pending_by_node r) node_id of
        Some operation_id \<Rightarrow> (Existing operation_id, r)
      | None \<Rightarrow>
          let st = Queued node_id queued_at
          in (New new_id st,
              r\<lparr>pending_by_node := AList.update node_id new_id (pending_by_node r),
                operations := AList.update new_id st (operations r)\<rparr>))"

definition release_pending :: "node_id \<Rightarrow> operation_id \<Rightarrow> test_registry \<Rightarrow> test_registry" where
  "release_pending node_id operation_id r =
     (if map_of (pending_by_node r) node_id = Some operation_id
      then r\<lparr>pending_by_node := AList.delete node_id (pending_by_node r)\<rparr> else r)"

definition rollback_queued :: "test_registry \<Rightarrow> node_id \<Rightarrow> operation_id \<Rightarrow> test_registry" where
  "rollback_queued r node_id operation_id =
     (let r = release_pending node_id operation_id r
      in r\<lparr>operations := AList.delete operation_id (operations r)\<rparr>)"

definition registry_state :: "test_registry \<Rightarrow> operation_id \<Rightarrow> test_state option" where
  "registry_state r operation_id = map_of (operations r) operation_id"

definition mark_running ::
    "test_registry \<Rightarrow> operation_id \<Rightarrow> node_id \<Rightarrow> datetime \<Rightarrow> test_state \<times> test_registry" where
  "mark_running r operation_id node_id started_at =
     (let st = Running node_id started_at
      in (st, r\<lparr>operations := AList.update operation_id st (operations r)\<rparr>))"

fun completed_at :: "test_state \<Rightarrow> datetime option" where
  "completed_at (Succeeded _ record) = Some (tr_tested_at record)"
| "completed_at (TestFailed _ record) = Some (tr_tested_at record)"
| "completed_at (Queued _ _) = None"
| "completed_at (Running _ _) = None"

definition completed_operations :: "test_registry \<Rightarrow> (operation_id \<times> datetime) list" where
  "completed_operations r =
     List.map_filter (\<lambda>(i, st). map_option (\<lambda>t. (i, t)) (completed_at st)) (operations r)"

definition by_tested_at :: "operation_id \<times> datetime \<Rightarrow> operation_id \<times> datetime \<Rightarrow> ordering" where
  "by_tested_at a b = cmp (snd a) (snd b)"

definition prune_completed :: "test_registry \<Rightarrow> nat \<Rightarrow> test_registry" where
  "prune_completed r history_limit =
     (let completed = completed_operations r;
          excess = saturating_sub (length completed) history_limit
      in if excess = 0 then r
         else r\<lparr>operations :=
           foldl (\<lambda>ops i. AList.delete i ops) (operations r)
             (map fst (take excess (sort_by by_tested_at completed)))\<rparr>)"

definition complete ::
    "test_registry \<Rightarrow> operation_id \<Rightarrow> node_id \<Rightarrow> test_state \<Rightarrow> nat \<Rightarrow> test_registry" where
  "complete r operation_id node_id st history_limit =
     (let r = release_pending node_id operation_id r;
          r = r\<lparr>observed_nodes := insert node_id (observed_nodes r),
                operations := AList.update operation_id st (operations r)\<rparr>
      in prune_completed r history_limit)"

definition known_nodes :: "test_registry \<Rightarrow> node_id set" where
  "known_nodes r = fst ` set (pending_by_node r) \<union> observed_nodes r"

definition retain_observed :: "test_registry \<Rightarrow> node_id set \<Rightarrow> test_registry" where
  "retain_observed r current_nodes =
     r\<lparr>observed_nodes := {n \<in> observed_nodes r. n \<in> current_nodes}\<rparr>"

section \<open>The invariant\<close>

text \<open>
  \<open>in_flight_node\<close> is the node a queued or running operation tests.  The invariant ties the
  two maps together: a node is pending on an operation exactly when that operation is in flight
  for it.
\<close>

fun in_flight_node :: "test_state \<Rightarrow> node_id option" where
  "in_flight_node (Queued n _) = Some n"
| "in_flight_node (Running n _) = Some n"
| "in_flight_node (Succeeded _ _) = None"
| "in_flight_node (TestFailed _ _) = None"

definition in_flight :: "test_registry \<Rightarrow> operation_id \<Rightarrow> node_id \<Rightarrow> bool" where
  "in_flight r i n \<longleftrightarrow> Option.bind (map_of (operations r) i) in_flight_node = Some n"

definition maps_agree :: "(operation_id \<rightharpoonup> test_state) \<Rightarrow> (node_id \<rightharpoonup> operation_id) \<Rightarrow> bool" where
  "maps_agree ops pend \<longleftrightarrow> (\<forall>n i. pend n = Some i \<longleftrightarrow> Option.bind (ops i) in_flight_node = Some n)"

definition registry_ok :: "test_registry \<Rightarrow> bool" where
  "registry_ok r \<longleftrightarrow>
     distinct (map fst (operations r)) \<and> distinct (map fst (pending_by_node r))
     \<and> maps_agree (map_of (operations r)) (map_of (pending_by_node r))"

inductive registry_step :: "test_registry \<Rightarrow> test_registry \<Rightarrow> bool" where
  step_queue: "map_of (operations r) i = None \<Longrightarrow> registry_step r (snd (queue i r n t))"
| step_rollback: "in_flight r i n \<Longrightarrow> registry_step r (rollback_queued r n i)"
| step_run: "in_flight r i n \<Longrightarrow> registry_step r (snd (mark_running r i n t))"
| step_complete: "in_flight r i n \<Longrightarrow> completed_at st \<noteq> None \<Longrightarrow> registry_step r (complete r i n st k)"
| step_retain: "registry_step r (retain_observed r current)"

section \<open>Laws\<close>

lemma completed_not_in_flight: "completed_at st \<noteq> None \<Longrightarrow> in_flight_node st = None"
  by (cases st) auto

lemma maps_agree_unique:
  "maps_agree ops pend \<Longrightarrow> Option.bind (ops i) in_flight_node = Some n \<Longrightarrow>
   Option.bind (ops j) in_flight_node = Some n \<Longrightarrow> i = j"
  unfolding maps_agree_def by (metis option.inject)

lemma maps_agree_queue:
  assumes "maps_agree ops pend" "ops i = None" "pend n = None" "in_flight_node st = Some n"
  shows "maps_agree (ops(i \<mapsto> st)) (pend(n \<mapsto> i))"
proof -
  have "pend m \<noteq> Some i" for m using assms(1,2) by (simp add: maps_agree_def)
  moreover have "Option.bind (ops j) in_flight_node \<noteq> Some n" for j
    using assms(1,3) by (metis maps_agree_def option.distinct(1))
  ultimately show ?thesis using assms by (auto simp: maps_agree_def)
qed

lemma maps_agree_release:
  assumes "maps_agree ops pend" "Option.bind (ops i) in_flight_node = Some n"
    and "Option.bind x in_flight_node = None"
  shows "maps_agree (ops(i := x)) (pend(n := None))"
proof -
  have "(pend(n := None)) m = Some j \<longleftrightarrow> Option.bind ((ops(i := x)) j) in_flight_node = Some m" for m j
    using assms maps_agree_unique [OF assms(1,2)]
    by (metis fun_upd_apply maps_agree_def option.distinct(1) option.inject)
  then show ?thesis unfolding maps_agree_def by blast
qed

lemma maps_agree_forget:
  assumes "maps_agree ops pend"
    and "\<And>i. ops' i = ops i \<or> ops' i = None \<and> Option.bind (ops i) in_flight_node = None"
  shows "maps_agree ops' pend"
  unfolding maps_agree_def
proof (intro allI)
  fix n i
  show "pend n = Some i \<longleftrightarrow> Option.bind (ops' i) in_flight_node = Some n"
    using assms(1) assms(2) [of i] by (auto simp: maps_agree_def)
qed

lemma map_of_delete [simp]: "map_of (AList.delete i ops) = (map_of ops)(i := None)"
  by (rule AList.delete_conv')

lemma map_of_update [simp]: "map_of (AList.update i v ops) = (map_of ops)(i \<mapsto> v)"
  by (rule AList.update_conv')

lemma registry_ok_alt:
  "registry_ok r \<Longrightarrow> in_flight r i n \<longleftrightarrow> map_of (pending_by_node r) n = Some i"
  by (simp add: registry_ok_def maps_agree_def in_flight_def)

lemma queue_ok:
  assumes "registry_ok r" and "map_of (operations r) i = None"
  shows "registry_ok (snd (queue i r n t))"
  using assms
  by (simp add: queue_def registry_ok_def Let_def AList.distinct_update maps_agree_queue split: option.split)

lemma release_pending_maps [simp]:
  "operations (release_pending n i r) = operations r"
  "observed_nodes (release_pending n i r) = observed_nodes r"
  by (simp_all add: release_pending_def)

lemma release_pending_map:
  assumes "registry_ok r" and "in_flight r i n"
  shows "map_of (pending_by_node (release_pending n i r)) = (map_of (pending_by_node r))(n := None)"
    and "distinct (map fst (pending_by_node (release_pending n i r)))"
proof -
  have "map_of (pending_by_node r) n = Some i" using registry_ok_alt assms by blast
  then show "map_of (pending_by_node (release_pending n i r)) = (map_of (pending_by_node r))(n := None)"
    "distinct (map fst (pending_by_node (release_pending n i r)))"
    using assms(1) by (simp_all add: release_pending_def registry_ok_def AList.distinct_delete del: map_of_eq_Some_iff)
qed

lemma rollback_ok:
  assumes "registry_ok r" and "in_flight r i n"
  shows "registry_ok (rollback_queued r n i)"
  using assms maps_agree_release [of _ _ i n None]
  by (simp add: rollback_queued_def Let_def registry_ok_def [of "_\<lparr>operations := _\<rparr>"] release_pending_map
      AList.distinct_delete)
     (simp add: registry_ok_def in_flight_def AList.distinct_delete)

lemma mark_running_ok:
  assumes "registry_ok r" and "in_flight r i n"
  shows "registry_ok (snd (mark_running r i n t))"
  using assms
  by (auto simp: mark_running_def Let_def registry_ok_def in_flight_def maps_agree_def AList.distinct_update
      simp del: map_of_eq_Some_iff)

lemma map_of_foldl_delete:
  "map_of (foldl (\<lambda>ops i. AList.delete i ops) ops ids) j = (if j \<in> set ids then None else map_of ops j)"
  by (induction ids arbitrary: ops) auto

lemma distinct_foldl_delete:
  "distinct (map fst ops) \<Longrightarrow> distinct (map fst (foldl (\<lambda>ops i. AList.delete i ops) ops ids))"
  by (induction ids arbitrary: ops) (auto simp: AList.distinct_delete)

lemma map_filter_conv_Some:
  "(i, t) \<in> set (completed_operations r) \<longleftrightarrow> (\<exists>st. (i, st) \<in> set (operations r) \<and> completed_at st = Some t)"
  by (force simp: completed_operations_def set_map_filter)

lemma distinct_completed:
  "distinct (map fst (operations r)) \<Longrightarrow> distinct (map fst (completed_operations r))"
proof -
  have "distinct (map fst ops) \<Longrightarrow>
    distinct (map fst (List.map_filter (\<lambda>(i, st). map_option (\<lambda>t. (i, t)) (completed_at st)) ops)) \<and>
    fst ` set (List.map_filter (\<lambda>(i, st). map_option (\<lambda>t. (i, t)) (completed_at st)) ops) \<subseteq> fst ` set ops"
    for ops :: "(operation_id \<times> test_state) list"
    by (induction ops) (force simp: List.map_filter_simps set_map_filter split: option.splits)+
  then show "distinct (map fst (operations r)) \<Longrightarrow> ?thesis" by (simp add: completed_operations_def)
qed

definition pruned_ids :: "test_registry \<Rightarrow> nat \<Rightarrow> operation_id list" where
  "pruned_ids r k =
     map fst (take (length (completed_operations r) - k) (sort_by by_tested_at (completed_operations r)))"

lemma prune_operations:
  "map_of (operations (prune_completed r k)) i = (if i \<in> set (pruned_ids r k) then None else map_of (operations r) i)"
  by (simp add: prune_completed_def Let_def saturating_sub_def map_of_foldl_delete pruned_ids_def)

lemma prune_other [simp]:
  "pending_by_node (prune_completed r k) = pending_by_node r"
  "observed_nodes (prune_completed r k) = observed_nodes r"
  by (simp_all add: prune_completed_def Let_def)

lemma pruned_completed:
  assumes "distinct (map fst (operations r))" and "i \<in> set (pruned_ids r k)"
  shows "\<exists>st. map_of (operations r) i = Some st \<and> completed_at st \<noteq> None"
proof -
  from assms(2) obtain t where "(i, t) \<in> set (completed_operations r)"
    by (auto simp: pruned_ids_def dest: in_set_takeD)
  with assms(1) show ?thesis by (auto simp: map_filter_conv_Some)
qed

lemma prune_ok: "registry_ok r \<Longrightarrow> registry_ok (prune_completed r k)"
proof -
  assume r: "registry_ok r"
  have "distinct (map fst (operations (prune_completed r k)))"
    using r by (simp add: prune_completed_def Let_def registry_ok_def distinct_foldl_delete)
  moreover have "maps_agree (map_of (operations (prune_completed r k))) (map_of (pending_by_node r))"
  proof (rule maps_agree_forget)
    show "maps_agree (map_of (operations r)) (map_of (pending_by_node r))"
      using r by (simp add: registry_ok_def)
    fix i
    show "map_of (operations (prune_completed r k)) i = map_of (operations r) i \<or>
      map_of (operations (prune_completed r k)) i = None \<and>
      Option.bind (map_of (operations r) i) in_flight_node = None"
    proof (cases "i \<in> set (pruned_ids r k)")
      case True
      with r obtain st where "map_of (operations r) i = Some st" "completed_at st \<noteq> None"
        using pruned_completed registry_ok_def by blast
      with True show ?thesis using completed_not_in_flight [of st] by (simp add: prune_operations)
    qed (simp add: prune_operations)
  qed
  ultimately show ?thesis using r by (simp add: registry_ok_def)
qed

lemma complete_ok:
  assumes "registry_ok r" and "in_flight r i n" and "completed_at st \<noteq> None"
  shows "registry_ok (complete r i n st k)"
proof -
  have "Option.bind (Some st) in_flight_node = None" using completed_not_in_flight [OF assms(3)] by simp
  then have "maps_agree ((map_of (operations r))(i \<mapsto> st)) ((map_of (pending_by_node r))(n := None))"
    using assms maps_agree_release [of "map_of (operations r)" "map_of (pending_by_node r)" i n "Some st"]
    by (simp add: registry_ok_def in_flight_def)
  then have "registry_ok ((release_pending n i r)\<lparr>observed_nodes := insert n (observed_nodes r),
      operations := AList.update i st (operations r)\<rparr>)"
    using assms(1) release_pending_map [OF assms(1,2)]
    by (simp add: registry_ok_def AList.distinct_update)
  then show ?thesis unfolding complete_def Let_def release_pending_maps by (rule prune_ok)
qed

lemma retain_ok: "registry_ok r \<Longrightarrow> registry_ok (retain_observed r current)"
  by (simp add: retain_observed_def registry_ok_def)

interpretation registry: invariant_system "\<lambda>r. r = empty_registry" registry_step registry_ok
proof
  show "registry_ok s" if "s = empty_registry" for s
    using that by (simp add: empty_registry_def registry_ok_def maps_agree_def)
  show "registry_ok s'" if "registry_ok s" and "registry_step s s'" for s s'
    using that(2,1)
    by cases (simp_all add: queue_ok rollback_ok mark_running_ok complete_ok retain_ok)
qed

lemma foldl_delete_filter:
  "foldl (\<lambda>ops i. AList.delete i ops) ops ids = filter (\<lambda>p. fst p \<notin> set ids) ops"
  by (induction ids arbitrary: ops) (auto simp: AList.delete_eq case_prod_beta intro!: filter_cong)

lemma map_filter_filter:
  "(\<And>x y. f x = Some y \<Longrightarrow> Q y = P x) \<Longrightarrow>
   List.map_filter f (filter P xs) = filter Q (List.map_filter f xs)"
  by (induction xs) (auto simp: List.map_filter_simps split: option.splits)

lemma completed_after_prune:
  "completed_operations (prune_completed r k) =
   filter (\<lambda>p. fst p \<notin> set (pruned_ids r k)) (completed_operations r)"
proof (cases "length (completed_operations r) \<le> k")
  case True
  then show ?thesis by (simp add: prune_completed_def Let_def saturating_sub_def pruned_ids_def)
next
  case False
  then show ?thesis
    unfolding completed_operations_def
    by (simp add: prune_completed_def Let_def saturating_sub_def foldl_delete_filter pruned_ids_def
        flip: completed_operations_def)
       (subst completed_operations_def, rule map_filter_filter, force)
qed

lemma filter_taken:
  assumes "distinct (map f xs)" and "mset xs = mset (a @ b)"
  shows "mset (filter (\<lambda>x. f x \<notin> f ` set a) xs) = mset b"
proof -
  have "distinct (map f (a @ b))"
    using assms by (metis distinct_map mset_eq_setD mset_eq_imp_distinct_iff)
  then have "filter (\<lambda>x. f x \<notin> f ` set a) (a @ b) = b"
    by (auto simp: filter_id_conv disjoint_iff)
  then show ?thesis using assms(2) by (metis mset_filter)
qed

lemma mset_completed_after_prune:
  assumes "distinct (map fst (operations r))"
  shows "mset (completed_operations (prune_completed r k)) =
    mset (drop (length (completed_operations r) - k) (sort_by by_tested_at (completed_operations r)))"
proof -
  let ?s = "sort_by by_tested_at (completed_operations r)"
  have "mset (completed_operations r) = mset (take (length (completed_operations r) - k) ?s
      @ drop (length (completed_operations r) - k) ?s)" by simp
  from filter_taken [OF distinct_completed [OF assms] this] show ?thesis
    by (simp add: completed_after_prune pruned_ids_def)
qed

interpretation tested_at: comparator by_tested_at
proof -
  have "comparator (\<lambda>a b. by_tested_at a b)"
    unfolding by_tested_at_def by (rule comparator_key [OF comparator_cmp])
  then show "comparator by_tested_at" .
qed

section \<open>Properties of the registry\<close>

definition sample_registry :: test_registry where
  "sample_registry = snd (queue (OperationId 7) empty_registry (NodeId ''n'') 0)"

lemma sample_registry_reachable: "reachable (\<lambda>r. r = empty_registry) registry_step sample_registry"
  unfolding sample_registry_def
proof (rule reach_step)
  show "reachable (\<lambda>r. r = empty_registry) registry_step empty_registry" by (rule reach_init) simp
  show "registry_step empty_registry (snd (queue (OperationId 7) empty_registry (NodeId ''n'') 0))"
    by (rule step_queue) (simp add: empty_registry_def)
qed

lemma sample_registry_in_flight: "in_flight sample_registry (OperationId 7) (NodeId ''n'')"
  by (simp add: in_flight_def sample_registry_def queue_def empty_registry_def Let_def)

text \<open>
  C24.  At most one test per node is in flight: in every state the registry can reach by
  queueing, rolling back, starting, completing and pruning, two in-flight operations of one node
  are the same operation, and it is the one the node is pending on (so a second request joins it).
\<close>

theorem one_test_in_flight:
  assumes "reachable (\<lambda>r. r = empty_registry) registry_step r"
    and "in_flight r i n"
  shows "(in_flight r j n \<longleftrightarrow> j = i) \<and> fst (queue k r n t) = Existing i \<and> snd (queue k r n t) = r"
proof -
  have ok: "registry_ok r" using assms(1) by (rule registry.reachable_inv)
  then have "map_of (pending_by_node r) n = Some i" using registry_ok_alt assms(2) by blast
  then show ?thesis
    using registry_ok_alt [OF ok] by (auto simp: queue_def simp del: map_of_eq_Some_iff)
qed

theorem one_test_in_flight_witness:
  "\<forall>j. in_flight sample_registry j (NodeId ''n'') \<longleftrightarrow> j = OperationId 7"
  using one_test_in_flight [OF sample_registry_reachable sample_registry_in_flight] by blast

text \<open>
  Pruning bounds the history: it keeps at most the limit of completed operations (all of
  them when they fit), drops only completed ones, and never drops a newer one than it keeps.
\<close>

lemma prune_keeps_newest:
  assumes "registry_ok r"
  shows "length (completed_operations (prune_completed r k)) = min k (length (completed_operations r))
    \<and> (\<forall>i n. in_flight r i n \<longrightarrow> registry_state (prune_completed r k) i = registry_state r i)
    \<and> (\<forall>i t j u. (i, t) \<in> set (completed_operations r) - set (completed_operations (prune_completed r k))
        \<and> (j, u) \<in> set (completed_operations (prune_completed r k)) \<longrightarrow> t \<le> u)"
proof (intro conjI allI impI)
  let ?e = "length (completed_operations r) - k"
  let ?s = "sort_by by_tested_at (completed_operations r)"
  have d: "distinct (map fst (operations r))" using assms by (simp add: registry_ok_def)
  note kept = mset_completed_after_prune [OF d, of k]
  show "length (completed_operations (prune_completed r k)) = min k (length (completed_operations r))"
    using arg_cong [OF kept, of size] by simp
  fix i n assume "in_flight r i n"
  then have "i \<notin> set (pruned_ids r k)"
    using pruned_completed [OF d, of i k] completed_not_in_flight by (auto simp: in_flight_def)
  then show "registry_state (prune_completed r k) i = registry_state r i"
    by (simp add: registry_state_def prune_operations)
next
  fix i t j u
  let ?e = "length (completed_operations r) - k"
  let ?s = "sort_by by_tested_at (completed_operations r)"
  assume a: "(i, t) \<in> set (completed_operations r) - set (completed_operations (prune_completed r k))
    \<and> (j, u) \<in> set (completed_operations (prune_completed r k))"
  have d: "distinct (map fst (operations r))" using assms by (simp add: registry_ok_def)
  have kept: "set (completed_operations (prune_completed r k)) = set (drop ?e ?s)"
    using mset_completed_after_prune [OF d, of k] by (rule mset_eq_setD)
  have "set ?s = set (take ?e ?s) \<union> set (drop ?e ?s)" by (metis append_take_drop_id set_append)
  then have "(i, t) \<in> set (take ?e ?s)" "(j, u) \<in> set (drop ?e ?s)" using a kept by auto
  from tested_at.take_sort_by_best [OF this] show "t \<le> u" by (simp add: by_tested_at_def not_less)
qed

end
