(* ===== verification/Automatic_Tests.thy ===== *)
theory Automatic_Tests
  imports Domain_Nodes
begin

text \<open>
  The policy of automatic IPPure tests, \<open>src/src/automatic_tests.rs\<close>: eligible untested nodes,
  best score first, then lowest ping (a node without a ping last), then identifier, up to the
  capacity of the queue.  \<open>sort_unstable_by\<close> is \<open>sort_by\<close>: the comparison separates any
  two candidates with different identifiers.
\<close>

record test_candidate =
  tc_node_id :: node_id
  tc_score :: nat
  tc_ping_ms :: "nat option"
  tc_eligible :: bool

definition candidate_of_node :: "vpn_node \<Rightarrow> test_candidate" where
  "candidate_of_node node =
     \<lparr>tc_node_id = vn_id node, tc_score = vn_score node, tc_ping_ms = vn_ping_ms node,
      tc_eligible = (vn_availability node = Available \<and> is_some (vn_openvpn node))\<rparr>"

fun cmp_ping :: "nat option \<Rightarrow> nat option \<Rightarrow> ordering" where
  "cmp_ping (Some l) (Some r) = cmp l r"
| "cmp_ping (Some _) None = Less"
| "cmp_ping None (Some _) = Greater"
| "cmp_ping None None = Equal"

definition candidate_order :: "test_candidate \<Rightarrow> test_candidate \<Rightarrow> ordering" where
  "candidate_order left right =
     then_with (then_with (cmp (tc_score right) (tc_score left))
       (cmp_ping (tc_ping_ms left) (tc_ping_ms right)))
       (cmp (tc_node_id left) (tc_node_id right))"

definition wants_test :: "node_id set \<Rightarrow> node_id set \<Rightarrow> test_candidate \<Rightarrow> bool" where
  "wants_test tested known c \<longleftrightarrow>
     tc_eligible c \<and> tc_node_id c \<notin> tested \<and> tc_node_id c \<notin> known"

definition select_automatic_tests ::
    "test_candidate list \<Rightarrow> node_id set \<Rightarrow> node_id set \<Rightarrow> nat \<Rightarrow> node_id list" where
  "select_automatic_tests candidates tested known limit =
     map tc_node_id (take limit (sort_by candidate_order (filter (wants_test tested known) candidates)))"

section \<open>Laws\<close>

lemma comparator_ping: "comparator cmp_ping"
proof
  fix x y z
  show "cmp_ping y x = reverse_ordering (cmp_ping x y)"
    by (cases x; cases y) (auto simp: reverse_cmp)
  assume "cmp_ping x y \<noteq> Greater" "cmp_ping y z \<noteq> Greater"
  then show "cmp_ping x z \<noteq> Greater" by (cases x; cases y; cases z) auto
qed

interpretation candidates: comparator candidate_order
proof -
  have "comparator (\<lambda>left right. candidate_order left right)"
    unfolding candidate_order_def
    by (intro comparator_intros comparator_key [OF comparator_ping])
  then show "comparator candidate_order" .
qed

section \<open>Properties of the test policy\<close>

text \<open>What is promised, independently of the filter and the comparison of the code.\<close>

definition untested :: "node_id set \<Rightarrow> node_id set \<Rightarrow> test_candidate \<Rightarrow> bool" where
  "untested tested known c \<longleftrightarrow> tc_eligible c \<and> tc_node_id c \<notin> tested \<union> known"

text \<open>A higher score, else a known and lower ping, else the smaller identifier.\<close>

definition tested_before :: "test_candidate \<Rightarrow> test_candidate \<Rightarrow> bool" where
  "tested_before a b \<longleftrightarrow>
     tc_score a > tc_score b
     \<or> tc_score a = tc_score b
       \<and> ((\<exists>p. tc_ping_ms a = Some p \<and> (\<forall>q. tc_ping_ms b = Some q \<longrightarrow> p < q))
          \<or> tc_ping_ms a = tc_ping_ms b \<and> tc_node_id a < tc_node_id b)"

lemma untested_iff: "untested tested known = wants_test tested known"
  by (intro ext) (auto simp: untested_def wants_test_def)

lemma cmp_ping_eq: "cmp_ping a b = Equal \<longleftrightarrow> a = b" "cmp_ping a b = Greater \<longleftrightarrow> (\<exists>q. b = Some q \<and> (\<forall>p. a = Some p \<longrightarrow> q < p))"
  by (cases a; cases b; auto)+

lemma tested_before_iff: "tested_before b a \<longleftrightarrow> candidate_order a b = Greater"
  by (auto simp: tested_before_def candidate_order_def cmp_ping_eq)

text \<open>
  C31.  The automatic tests are the best of the untested nodes.  The identifiers returned are those
  of eligible candidates that have no stored test and are not known to the registry, as many as
  there are or as the limit allows, whichever is less; they come in the order of higher score,
  lower ping (a node without a ping after all that have one) and smaller identifier; and no such
  candidate that is left out comes before one that was chosen.
\<close>

theorem select_automatic_tests_best:
  "\<exists>chosen rest.
    mset (chosen @ rest) = mset (filter (untested tested known) cs)
    \<and> select_automatic_tests cs tested known limit = map tc_node_id chosen
    \<and> length chosen = min limit (length (filter (untested tested known) cs))
    \<and> sorted_wrt (\<lambda>a b. \<not> tested_before b a) chosen
    \<and> \<not> list_ex (\<lambda>a. list_ex (\<lambda>b. tested_before b a) rest) chosen"
proof -
  let ?s = "sort_by candidate_order (filter (wants_test tested known) cs)"
  let ?chosen = "take limit ?s" and ?rest = "drop limit ?s"
  have "mset (?chosen @ ?rest) = mset (filter (wants_test tested known) cs)" by simp
  moreover have "sorted_wrt (\<lambda>a b. candidate_order a b \<noteq> Greater) ?chosen"
    by (rule sorted_wrt_take) (rule candidates.sorted_sort_by)
  moreover have "\<not> list_ex (\<lambda>a. list_ex (\<lambda>b. candidate_order a b = Greater) ?rest) ?chosen"
    unfolding list_ex_iff using candidates.take_sort_by_best by blast
  moreover have "select_automatic_tests cs tested known limit = map tc_node_id ?chosen"
    by (simp add: select_automatic_tests_def)
  moreover have "length ?chosen = min limit (length (filter (wants_test tested known) cs))" by (simp add: min.commute)
  ultimately show ?thesis unfolding untested_iff tested_before_iff by blast
qed

end
