(* ===== verification/Test_Queue.thy ===== *)
theory Test_Queue
  imports Connection_Actor Test_Registry Automatic_Tests
begin

text \<open>
  The quality tests of \<open>src/src/service.rs\<close>: requests enter a bounded queue, the dispatcher takes
  one job at a time, waits for a permit and spawns it, and the spawned task runs the test and
  reports.  The state is the registry, the queue and the tasks in each phase, the two counters
  that the status page reads (64-bit, wrapping, as \<open>AtomicUsize\<close>) and the pending triggers
  (channels of capacity one).  \<open>mpsc\<close> channels and the semaphore are lists and their length.
\<close>

section \<open>State\<close>

definition TEST_QUEUE_CAPACITY :: nat where "TEST_QUEUE_CAPACITY = 256"
definition COMPLETED_OPERATION_HISTORY :: nat where "COMPLETED_OPERATION_HISTORY = 1024"

record test_job =
  job_operation :: operation_id
  job_node :: node_id

datatype service_test_error = TestService service_error | TestQuality string

text \<open>
  How far a task is in \<open>run_test\<close>: before the start request is answered, with a worker that it
  tests through, with the outcome of the test and the worker still to be stopped, with the result,
  and with the result saved.
\<close>

datatype run_phase =
    Marked
  | Started worker_id string
  | Fetched worker_id "string + ip_pure_result"
  | Ready "service_test_error + ip_pure_result"
  | Saved test_state

text \<open>
  A task that has reported is counted as running until the counter is decremented, and keeps its
  permit a little longer: \<open>reported_tasks\<close> and \<open>uncounted_tasks\<close>.
\<close>

record test_service =
  registry :: test_registry
  test_queue :: "test_job list"
  held_job :: "test_job option"
  spawned_jobs :: "test_job list"
  running_jobs :: "(test_job \<times> run_phase) list"
  reported_tasks :: nat
  uncounted_tasks :: nat
  queued_tests :: u64
  running_tests :: u64
  dispatching :: bool
  test_events :: "app_event list"
  test_calls :: "effect list"
  auto_connect_triggered :: bool
  automatic_test_triggered :: bool
  test_store :: store

definition initial_tests :: "store \<Rightarrow> test_service" where
  "initial_tests st =
     \<lparr>registry = empty_registry, test_queue = [], held_job = None, spawned_jobs = [], running_jobs = [],
      reported_tasks = 0, uncounted_tasks = 0, queued_tests = 0, running_tests = 0, dispatching = True, test_events = [], test_calls = [],
      auto_connect_triggered = False, automatic_test_triggered = False, test_store = st\<rparr>"

section \<open>Queueing\<close>

record enqueue_env =
  en_nodes :: "vpn_node list"
  en_now :: datetime
  en_new_operation :: operation_id

definition usable_node :: "vpn_node list \<Rightarrow> node_id \<Rightarrow> service_error + vpn_node" where
  "usable_node nodes node_id =
     and_then (ok_or NodeNotFound (find (\<lambda>n. vn_id n = node_id) nodes)) (\<lambda>node.
       if vn_availability node \<noteq> Available \<or> vn_openvpn node = None then Inl NodeUnavailable else Inr node)"

definition try_send_job :: "test_job \<Rightarrow> test_service \<Rightarrow> test_service option" where
  "try_send_job job s =
     (if dispatching s \<and> length (test_queue s) < TEST_QUEUE_CAPACITY
      then Some (s\<lparr>test_queue := test_queue s @ [job]\<rparr>) else None)"

definition register_job ::
    "operation_id \<Rightarrow> test_state \<Rightarrow> node_id \<Rightarrow> test_service \<Rightarrow> (service_error + operation_id \<times> bool) \<times> test_service" where
  "register_job operation_id state node_id s =
     (let s = s\<lparr>queued_tests := queued_tests s + 1\<rparr>
      in case try_send_job \<lparr>job_operation = operation_id, job_node = node_id\<rparr> s of
           None \<Rightarrow>
             (Inl QueueFull,
              s\<lparr>queued_tests := queued_tests s - 1, registry := rollback_queued (registry s) node_id operation_id\<rparr>)
         | Some s \<Rightarrow>
             (Inr (operation_id, True), s\<lparr>test_events := test_events s @ [TestEvent operation_id state]\<rparr>))"

definition enqueue_test_job ::
    "enqueue_env \<Rightarrow> node_id \<Rightarrow> test_service \<Rightarrow> (service_error + operation_id \<times> bool) \<times> test_service" where
  "enqueue_test_job env node_id s =
     (case usable_node (en_nodes env) node_id of
        Inl e \<Rightarrow> (Inl e, s)
      | Inr _ \<Rightarrow>
          (case queue (en_new_operation env) (registry s) node_id (en_now env) of
             (Existing operation_id, r) \<Rightarrow> (Inr (operation_id, False), s\<lparr>registry := r\<rparr>)
           | (New operation_id state, r) \<Rightarrow> register_job operation_id state node_id (s\<lparr>registry := r\<rparr>)))"

definition enqueue_test ::
    "enqueue_env \<Rightarrow> node_id \<Rightarrow> test_service \<Rightarrow> (service_error + operation_id) \<times> test_service" where
  "enqueue_test env node_id s =
     (case enqueue_test_job env node_id s of (r, s) \<Rightarrow> (and_then r (\<lambda>(operation_id, _). Inr operation_id), s))"

definition test_state_of :: "operation_id \<Rightarrow> test_service \<Rightarrow> service_error + test_state" where
  "test_state_of operation_id s = ok_or OperationNotFound (registry_state (registry s) operation_id)"

text \<open>The loop of \<open>schedule_automatic_tests\<close>; each iteration reads its own environment.\<close>

fun schedule_loop ::
    "nat \<Rightarrow> (enqueue_env \<times> node_id) list \<Rightarrow> test_service \<Rightarrow> (service_error + nat) \<times> test_service" where
  "schedule_loop scheduled [] s = (Inr scheduled, s)"
| "schedule_loop scheduled ((env, node_id) # rest) s =
     (case enqueue_test_job env node_id s of
        (Inr (_, True), s) \<Rightarrow> schedule_loop (scheduled + 1) rest s
      | (Inr (_, False), s) \<Rightarrow> schedule_loop scheduled rest s
      | (Inl NodeNotFound, s) \<Rightarrow> schedule_loop scheduled rest s
      | (Inl NodeUnavailable, s) \<Rightarrow> schedule_loop scheduled rest s
      | (Inl QueueFull, s) \<Rightarrow> (Inr scheduled, s)
      | (Inl e, s) \<Rightarrow> (Inl e, s))"

definition schedule_automatic_tests ::
    "bool \<Rightarrow> vpn_node list \<Rightarrow> enqueue_env list \<Rightarrow> test_service \<Rightarrow> (service_error + nat) \<times> test_service" where
  "schedule_automatic_tests served nodes envs s =
     (case latest_tests served (test_store s) of
        Inl e \<Rightarrow> (Inl (StoreFailed e), s)
      | Inr tests \<Rightarrow>
          schedule_loop 0
            (zip envs (select_automatic_tests (map candidate_of_node nodes) (dom tests) (known_nodes (registry s))
              (TEST_QUEUE_CAPACITY - length (test_queue s)))) s)"

section \<open>Dispatching\<close>

definition receive_job :: "test_service \<Rightarrow> test_service" where
  "receive_job s =
     (case (held_job s, test_queue s) of
        (None, job # rest) \<Rightarrow> s\<lparr>held_job := Some job, test_queue := rest\<rparr>
      | _ \<Rightarrow> s)"

definition permits_used :: "test_service \<Rightarrow> nat" where
  "permits_used s = length (spawned_jobs s) + length (running_jobs s) + reported_tasks s + uncounted_tasks s"

definition spawn_job :: "nat \<Rightarrow> test_service \<Rightarrow> test_service" where
  "spawn_job max_parallel_tests s =
     (case held_job s of
        Some job \<Rightarrow>
          if permits_used s < max_parallel_tests
          then s\<lparr>held_job := None, queued_tests := queued_tests s - 1, running_tests := running_tests s + 1,
                 spawned_jobs := spawned_jobs s @ [job]\<rparr>
          else s
      | None \<Rightarrow> s)"

definition stop_dispatching :: "test_service \<Rightarrow> test_service" where
  "stop_dispatching s = s\<lparr>dispatching := False, held_job := None, test_queue := []\<rparr>"

section \<open>Running a test\<close>

fun service_error_message :: "service_error \<Rightarrow> string" where
  "service_error_message NodeNotFound = ''node was not found''"
| "service_error_message NodeUnavailable = ''node is not usable by this version''"
| "service_error_message RefreshBusy = ''node refresh is already running''"
| "service_error_message QueueFull = ''test queue is full''"
| "service_error_message OperationNotFound = ''test operation was not found''"
| "service_error_message ShuttingDown = ''background service is shutting down''"
| "service_error_message (InvalidAutoConnect m) = ''invalid automatic connection configuration: '' @ m"
| "service_error_message (Refresh _) = ''VPN Gate refresh failed''"
| "service_error_message (WorkerFailed _) = ''worker operation failed''"
| "service_error_message (StoreFailed _) = ''persistence failed''"

fun test_error_message :: "service_test_error \<Rightarrow> string" where
  "test_error_message (TestService e) = service_error_message e"
| "test_error_message (TestQuality m) = ''IPPure check failed: '' @ m"

text \<open>
  What a segment of \<open>run_test\<close> reads: the clocks, the node list, the helper, and
  \<open>fetch_ippure\<close> through the worker's socket with its error already turned into text.  Every
  segment has an environment of its own, and other tasks run between them.
\<close>

record run_env =
  ru_started_at :: datetime
  ru_tested_at :: datetime
  ru_elapsed_ms :: nat
  ru_nodes :: "vpn_node list"
  ru_worker :: worker_id
  ru_netd :: "netd_request \<Rightarrow> netd_client_error + netd_response"
  ru_connect_timeout :: nat
  ru_fetch :: "string \<Rightarrow> string + ip_pure_result"
  ru_served :: bool

definition begin_run :: "run_env \<Rightarrow> test_job \<Rightarrow> test_service \<Rightarrow> test_service" where
  "begin_run env job s =
     (case mark_running (registry s) (job_operation job) (job_node job) (ru_started_at env) of
        (running, r) \<Rightarrow>
          s\<lparr>registry := r, spawned_jobs := remove1 job (spawned_jobs s),
            running_jobs := running_jobs s @ [(job, Marked)],
            test_events := test_events s @ [TestEvent (job_operation job) running]\<rparr>)"

definition enter :: "test_job \<Rightarrow> run_phase \<Rightarrow> test_service \<Rightarrow> test_service" where
  "enter job phase s = s\<lparr>running_jobs := AList.update job phase (running_jobs s)\<rparr>"

definition log_call :: "effect \<Rightarrow> test_service \<Rightarrow> test_service" where
  "log_call e s = s\<lparr>test_calls := test_calls s @ [e]\<rparr>"

definition start_run :: "run_env \<Rightarrow> test_job \<Rightarrow> test_service \<Rightarrow> test_service" where
  "start_run env job s =
     (case find (\<lambda>n. vn_id n = job_node job) (ru_nodes env) of
        None \<Rightarrow> enter job (Ready (Inl (TestService NodeNotFound))) s
      | Some node \<Rightarrow>
          (case vn_openvpn node of
             None \<Rightarrow> enter job (Ready (Inl (TestService NodeUnavailable))) s
           | Some profile \<Rightarrow>
               let w = ru_worker env;
                   answer = client_start_worker (ru_netd env) w (job_node job) (so_remote profile)
                     (so_rendered profile) (ru_connect_timeout env);
                   s = log_call (StartCall w answer) s
               in case answer of
                    Inl e \<Rightarrow> enter job (Ready (Inl (TestService (WorkerFailed e)))) s
                  | Inr socket \<Rightarrow> enter job (Started w socket) s))"

definition fetch_run :: "run_env \<Rightarrow> test_job \<Rightarrow> worker_id \<Rightarrow> string \<Rightarrow> test_service \<Rightarrow> test_service" where
  "fetch_run env job w socket s = enter job (Fetched w (ru_fetch env socket)) s"

text \<open>A failed stop request is logged and otherwise ignored.\<close>

definition stop_run ::
    "run_env \<Rightarrow> test_job \<Rightarrow> worker_id \<Rightarrow> string + ip_pure_result \<Rightarrow> test_service \<Rightarrow> test_service" where
  "stop_run env job w result s =
     enter job (Ready (map_err TestQuality result)) (log_call (StopCall w (client_stop_worker (ru_netd env) w)) s)"

definition finished_state ::
    "run_env \<Rightarrow> test_job \<Rightarrow> service_test_error + ip_pure_result \<Rightarrow> test_state \<times> test_record" where
  "finished_state env job result =
     (let duration_ms = min (ru_elapsed_ms env) u64_max
      in case result of
           Inr result \<Rightarrow>
             let record = \<lparr>tr_node_id = job_node job, tr_result = Some result, tr_duration_ms = duration_ms,
                           tr_tested_at = ru_tested_at env, tr_error = None\<rparr>
             in (Succeeded (job_node job) record, record)
         | Inl error \<Rightarrow>
             let record = \<lparr>tr_node_id = job_node job, tr_result = None, tr_duration_ms = duration_ms,
                           tr_tested_at = ru_tested_at env, tr_error = Some (test_error_message error)\<rparr>
             in (TestFailed (job_node job) record, record))"

definition save_run ::
    "run_env \<Rightarrow> test_job \<Rightarrow> service_test_error + ip_pure_result \<Rightarrow> test_service \<Rightarrow> test_service" where
  "save_run env job result s =
     (case finished_state env job result of
        (test_state, record) \<Rightarrow>
          enter job (Saved test_state) (s\<lparr>test_store := snd (save_test (ru_served env) record (test_store s))\<rparr>))"

definition report_run :: "test_job \<Rightarrow> test_state \<Rightarrow> test_service \<Rightarrow> test_service" where
  "report_run job test_state s =
     s\<lparr>registry := complete (registry s) (job_operation job) (job_node job) test_state COMPLETED_OPERATION_HISTORY,
       test_events := test_events s @ [TestEvent (job_operation job) test_state],
       auto_connect_triggered := True, automatic_test_triggered := True,
       running_jobs := AList.delete job (running_jobs s), reported_tasks := reported_tasks s + 1\<rparr>"

text \<open>The end of the spawned task: the counter is decremented, then the permit is dropped.\<close>

definition uncount_run :: "test_service \<Rightarrow> test_service" where
  "uncount_run s =
     s\<lparr>running_tests := running_tests s - 1, reported_tasks := reported_tasks s - 1,
       uncounted_tasks := uncounted_tasks s + 1\<rparr>"

definition release_permit :: "test_service \<Rightarrow> test_service" where
  "release_permit s = s\<lparr>uncounted_tasks := uncounted_tasks s - 1\<rparr>"

inductive run_step :: "test_service \<Rightarrow> test_service \<Rightarrow> bool" where
  run_begin: "job \<in> set (spawned_jobs s) \<Longrightarrow> run_step s (begin_run env job s)"
| run_start: "map_of (running_jobs s) job = Some Marked \<Longrightarrow> run_step s (start_run env job s)"
| run_fetch: "map_of (running_jobs s) job = Some (Started w socket) \<Longrightarrow> run_step s (fetch_run env job w socket s)"
| run_stop: "map_of (running_jobs s) job = Some (Fetched w result) \<Longrightarrow> run_step s (stop_run env job w result s)"
| run_save: "map_of (running_jobs s) job = Some (Ready outcome) \<Longrightarrow> run_step s (save_run env job outcome s)"
| run_report: "map_of (running_jobs s) job = Some (Saved test_state) \<Longrightarrow> run_step s (report_run job test_state s)"
| run_uncount: "0 < reported_tasks s \<Longrightarrow> run_step s (uncount_run s)"
| run_release: "0 < uncounted_tasks s \<Longrightarrow> run_step s (release_permit s)"

text \<open>A refresh tells the registry which nodes are current.\<close>

definition observe_nodes :: "node_id set \<Rightarrow> test_service \<Rightarrow> test_service" where
  "observe_nodes current s = s\<lparr>registry := retain_observed (registry s) current\<rparr>"

inductive test_step :: "nat \<Rightarrow> test_service \<Rightarrow> test_service \<Rightarrow> bool" for max_parallel :: nat where
  step_enqueue: "map_of (operations (registry s)) (en_new_operation env) = None \<Longrightarrow>
    test_step max_parallel s (snd (enqueue_test_job env node_id s))"
| step_receive: "dispatching s \<Longrightarrow> test_step max_parallel s (receive_job s)"
| step_spawn: "dispatching s \<Longrightarrow> test_step max_parallel s (spawn_job max_parallel s)"
| step_run: "run_step s s' \<Longrightarrow> test_step max_parallel s s'"
| step_observe: "test_step max_parallel s (observe_nodes current s)"
| step_stop: "test_step max_parallel s (stop_dispatching s)"

section \<open>The invariant\<close>

definition all_jobs :: "test_service \<Rightarrow> test_job list" where
  "all_jobs s =
     test_queue s @ (case held_job s of None \<Rightarrow> [] | Some job \<Rightarrow> [job]) @ spawned_jobs s @ map fst (running_jobs s)"

definition waiting :: "test_service \<Rightarrow> nat" where
  "waiting s = length (test_queue s) + (case held_job s of None \<Rightarrow> 0 | Some _ \<Rightarrow> 1)"

definition job_of :: "operation_id \<Rightarrow> node_id \<Rightarrow> test_job" where
  "job_of i n = \<lparr>job_operation = i, job_node = n\<rparr>"

text \<open>The workers that running tests hold: started, and not yet asked to stop.\<close>

fun phase_worker :: "run_phase \<Rightarrow> worker_id option" where
  "phase_worker (Started w _) = Some w"
| "phase_worker (Fetched w _) = Some w"
| "phase_worker _ = None"

definition test_workers :: "test_service \<Rightarrow> worker_id set" where
  "test_workers s = {w. \<exists>job phase. map_of (running_jobs s) job = Some phase \<and> phase_worker phase = Some w}"

definition counted_tasks :: "test_service \<Rightarrow> nat" where
  "counted_tasks s = length (spawned_jobs s) + length (running_jobs s) + reported_tasks s"

fun saved_ok :: "run_phase \<Rightarrow> bool" where
  "saved_ok (Saved st) \<longleftrightarrow> completed_at st \<noteq> None"
| "saved_ok _ \<longleftrightarrow> True"

definition tests_ok :: "nat \<Rightarrow> test_service \<Rightarrow> bool" where
  "tests_ok max_parallel s \<longleftrightarrow>
     registry_ok (registry s) \<and> distinct (all_jobs s)
     \<and> (\<forall>job \<in> set (all_jobs s). in_flight (registry s) (job_operation job) (job_node job))
     \<and> (dispatching s \<longrightarrow> (\<forall>i n. in_flight (registry s) i n \<longrightarrow> job_of i n \<in> set (all_jobs s)))
     \<and> length (test_queue s) \<le> TEST_QUEUE_CAPACITY \<and> permits_used s \<le> max_parallel
     \<and> (dispatching s \<longrightarrow> queued_tests s = of_nat (waiting s))
     \<and> running_tests s = of_nat (counted_tasks s)
     \<and> (\<forall>job. pred_option saved_ok (map_of (running_jobs s) job))
     \<and> started_workers (test_calls s) = stopped_workers (test_calls s) \<union> test_workers s"

lemma in_flight_retain [simp]: "in_flight (retain_observed r c) i n = in_flight r i n"
  by (simp add: in_flight_def retain_observed_def)

lemma in_flight_running:
  assumes "in_flight r j m"
  shows "in_flight (snd (mark_running r j m t)) i n = in_flight r i n"
  using assms by (auto simp: in_flight_def mark_running_def Let_def)

lemma in_flight_complete:
  assumes "registry_ok r" and "completed_at st \<noteq> None"
  shows "in_flight (complete r j m st k) i n \<longleftrightarrow> in_flight r i n \<and> i \<noteq> j"
proof -
  let ?r = "(release_pending m j r)\<lparr>observed_nodes := insert m (observed_nodes r), operations := AList.update j st (operations r)\<rparr>"
  have d: "distinct (map fst (operations ?r))" using assms(1) by (simp add: registry_ok_def AList.distinct_update)
  have "in_flight ?r i n \<longleftrightarrow> in_flight r i n \<and> i \<noteq> j"
    using completed_not_in_flight [OF assms(2)] by (auto simp: in_flight_def)
  moreover have "in_flight (prune_completed ?r k) i n = in_flight ?r i n"
    using pruned_completed [OF d, of i k] completed_not_in_flight
    by (auto simp: in_flight_def prune_operations simp del: release_pending_maps)
  ultimately show ?thesis unfolding complete_def Let_def release_pending_maps by simp
qed

lemma queue_cases:
  assumes "registry_ok r"
  obtains (pending) i where "queue k r n t = (Existing i, r)" "in_flight r i n"
  | (fresh) r' where "queue k r n t = (New k (Queued n t), r')" "\<forall>i. \<not> in_flight r i n"
      "\<And>i m. map_of (operations r) k = None \<Longrightarrow> in_flight r' i m \<longleftrightarrow> in_flight r i m \<or> i = k \<and> m = n"
proof (cases "map_of (pending_by_node r) n")
  case None
  then have "\<not> in_flight r i n" for i using registry_ok_alt [OF assms, of i n] by simp
  with None show ?thesis by (intro fresh) (auto simp: queue_def Let_def in_flight_def split: if_splits)
next
  case (Some i)
  then show ?thesis using registry_ok_alt [OF assms, of i n] by (intro pending) (auto simp: queue_def)
qed

lemma delete_update_new: "k \<notin> fst ` set al \<Longrightarrow> AList.delete k (AList.update k v al) = al"
  by (induction al) (auto simp: AList.delete_eq)

lemma rollback_queue:
  assumes "queue k r n t = (New k st, r')" and "map_of (operations r) k = None"
  shows "rollback_queued r' n k = r"
proof -
  have "map_of (pending_by_node r) n = None"
    using assms(1) by (auto simp: queue_def split: option.splits)
  then have keys: "n \<notin> fst ` set (pending_by_node r)" "k \<notin> fst ` set (operations r)"
    using assms(2) by (simp_all add: map_of_eq_None_iff)
  have "r' = r\<lparr>pending_by_node := AList.update n k (pending_by_node r), operations := AList.update k st (operations r)\<rparr>"
    using assms(1) by (auto simp: queue_def Let_def split: option.splits)
  then show ?thesis by (simp add: rollback_queued_def release_pending_def Let_def delete_update_new [OF keys(1)]
        delete_update_new [OF keys(2)])
qed

lemma register_full:
  assumes "queue k (registry s) n t = (New k st, r)" and "map_of (operations (registry s)) k = None"
    and "try_send_job \<lparr>job_operation = k, job_node = n\<rparr> s = None"
  shows "register_job k st n (s\<lparr>registry := r\<rparr>) = (Inl QueueFull, s)"
  using assms rollback_queue [OF assms(1,2)]
  by (simp add: register_job_def Let_def try_send_job_def split: if_splits)

lemma enqueue_test_job_cases:
  assumes "registry_ok (registry s)" and "map_of (operations (registry s)) (en_new_operation env) = None"
  obtains (refused) e where "enqueue_test_job env n s = (Inl e, s)"
  | (joined) i where "enqueue_test_job env n s = (Inr (i, False), s)" "in_flight (registry s) i n"
  | (queued) r where
      "queue (en_new_operation env) (registry s) n (en_now env) = (New (en_new_operation env) (Queued n (en_now env)), r)"
      "dispatching s" "length (test_queue s) < TEST_QUEUE_CAPACITY"
      "enqueue_test_job env n s =
        (Inr (en_new_operation env, True),
         s\<lparr>registry := r, test_queue := test_queue s @ [job_of (en_new_operation env) n],
           queued_tests := queued_tests s + 1,
           test_events := test_events s @ [TestEvent (en_new_operation env) (Queued n (en_now env))]\<rparr>)"
      "\<And>i m. in_flight r i m \<longleftrightarrow> in_flight (registry s) i m \<or> i = en_new_operation env \<and> m = n"
proof (cases "usable_node (en_nodes env) n")
  case (Inl e)
  then show ?thesis by (intro refused [of e]) (simp add: enqueue_test_job_def)
next
  case (Inr node)
  show ?thesis
  proof (rule queue_cases [OF assms(1), of "en_new_operation env" n "en_now env"])
    fix i assume "queue (en_new_operation env) (registry s) n (en_now env) = (Existing i, registry s)"
      "in_flight (registry s) i n"
    then show ?thesis using Inr by (intro joined [of i]) (auto simp: enqueue_test_job_def)
  next
    fix r assume fresh: "queue (en_new_operation env) (registry s) n (en_now env) =
        (New (en_new_operation env) (Queued n (en_now env)), r)"
      and new: "\<And>i m. map_of (operations (registry s)) (en_new_operation env) = None \<Longrightarrow>
        in_flight r i m \<longleftrightarrow> in_flight (registry s) i m \<or> i = en_new_operation env \<and> m = n"
    show ?thesis
    proof (cases "dispatching s \<and> length (test_queue s) < TEST_QUEUE_CAPACITY")
      case True
      then show ?thesis using Inr fresh new assms(2)
        by (intro queued [of r])
           (simp_all add: enqueue_test_job_def register_job_def Let_def try_send_job_def job_of_def)
    next
      case False
      then show ?thesis using Inr fresh register_full [OF fresh assms(2)]
        by (intro refused [of QueueFull]) (simp add: enqueue_test_job_def try_send_job_def)
    qed
  qed
qed

section \<open>Every step keeps the invariant\<close>

text \<open>A step that only moves jobs between phases keeps what the invariant says of the job list.\<close>

lemma jobs_permuted:
  assumes "mset (all_jobs s') = mset (all_jobs s)"
  shows "distinct (all_jobs s') = distinct (all_jobs s)" and "set (all_jobs s') = set (all_jobs s)"
  using assms by (auto dest: mset_eq_setD mset_eq_imp_distinct_iff)

lemma enqueue_ok:
  assumes ok: "tests_ok m s" and new: "map_of (operations (registry s)) (en_new_operation env) = None"
  shows "tests_ok m (snd (enqueue_test_job env n s))"
proof -
  have r: "registry_ok (registry s)" using ok by (simp add: tests_ok_def)
  show ?thesis
  proof (rule enqueue_test_job_cases [OF r new, of n])
    fix r' assume queued:
      "queue (en_new_operation env) (registry s) n (en_now env) = (New (en_new_operation env) (Queued n (en_now env)), r')"
      "dispatching s" "length (test_queue s) < TEST_QUEUE_CAPACITY"
      "enqueue_test_job env n s =
        (Inr (en_new_operation env, True),
         s\<lparr>registry := r', test_queue := test_queue s @ [job_of (en_new_operation env) n],
           queued_tests := queued_tests s + 1,
           test_events := test_events s @ [TestEvent (en_new_operation env) (Queued n (en_now env))]\<rparr>)"
      "\<And>i m. in_flight r' i m \<longleftrightarrow> in_flight (registry s) i m \<or> i = en_new_operation env \<and> m = n"
    have "registry_ok r'" using queue_ok [OF r new, of n "en_now env"] queued(1) by simp
    moreover have "job_of (en_new_operation env) n \<notin> set (all_jobs s)"
      using ok new by (force simp: tests_ok_def job_of_def in_flight_def)
    ultimately show ?thesis using ok queued(2-5)
      by (auto simp: tests_ok_def all_jobs_def waiting_def permits_used_def counted_tasks_def test_workers_def job_of_def)
  qed (simp_all add: ok)
qed

lemma receive_ok: "tests_ok m s \<Longrightarrow> tests_ok m (receive_job s)"
proof (cases "held_job s"; cases "test_queue s")
  fix job rest assume ok: "tests_ok m s" and s: "held_job s = None" "test_queue s = job # rest"
  have jobs: "mset (all_jobs (receive_job s)) = mset (all_jobs s)"
    by (simp add: receive_job_def s all_jobs_def)
  show ?thesis using ok s jobs_permuted [OF jobs]
    by (simp add: tests_ok_def receive_job_def waiting_def permits_used_def counted_tasks_def test_workers_def)
qed (simp_all add: receive_job_def)

lemma spawn_ok:
  assumes "tests_ok m s" and "dispatching s" shows "tests_ok m (spawn_job m s)"
proof (cases "held_job s")
  case (Some job)
  show ?thesis
  proof (cases "permits_used s < m")
    case True
    then have jobs: "mset (all_jobs (spawn_job m s)) = mset (all_jobs s)"
      by (simp add: spawn_job_def Some all_jobs_def)
    show ?thesis using assms Some True jobs_permuted [OF jobs]
      by (simp add: tests_ok_def spawn_job_def waiting_def permits_used_def counted_tasks_def test_workers_def)
  qed (simp add: spawn_job_def Some assms(1))
qed (simp add: spawn_job_def assms(1))

lemma job_in_flight: "tests_ok m s \<Longrightarrow> job \<in> set (all_jobs s) \<Longrightarrow> in_flight (registry s) (job_operation job) (job_node job)"
  by (simp add: tests_ok_def)

lemma begin_ok:
  assumes ok: "tests_ok m s" and job: "job \<in> set (spawned_jobs s)"
  shows "tests_ok m (begin_run env job s)"
proof -
  let ?s = "begin_run env job s"
  have flight: "in_flight (registry s) (job_operation job) (job_node job)"
    using job by (intro job_in_flight [OF ok]) (simp add: all_jobs_def)
  have jobs: "mset (all_jobs ?s) = mset (all_jobs s)"
    using job by (simp add: begin_run_def all_jobs_def mark_running_def Let_def)
  have "length (remove1 job (spawned_jobs s)) + 1 = length (spawned_jobs s)"
    using job by (simp add: length_remove1) (metis Suc_pred length_pos_if_in_set)
  then have counts: "waiting ?s = waiting s" "permits_used ?s = permits_used s" "counted_tasks ?s = counted_tasks s"
    by (simp_all add: begin_run_def waiting_def permits_used_def counted_tasks_def mark_running_def Let_def)
  have "job \<notin> fst ` set (running_jobs s)" using ok job by (auto simp: tests_ok_def all_jobs_def)
  then have new: "map_of (running_jobs ?s) = (map_of (running_jobs s))(job \<mapsto> Marked)"
    by (intro ext) (auto simp: begin_run_def case_prod_beta map_add_def map_of_eq_None_iff [symmetric] split: option.split)
  then have held: "test_workers ?s = test_workers s"
    using \<open>job \<notin> _\<close>
    by (auto simp: test_workers_def map_of_eq_None_iff [symmetric]) (metis option.distinct(1))
  have reg: "registry ?s = snd (mark_running (registry s) (job_operation job) (job_node job) (ru_started_at env))"
    by (simp add: begin_run_def case_prod_beta)
  have other: "dispatching ?s = dispatching s" "queued_tests ?s = queued_tests s" "running_tests ?s = running_tests s"
    "test_queue ?s = test_queue s" "test_calls ?s = test_calls s"
    by (simp_all add: begin_run_def case_prod_beta)
  have "pred_option saved_ok (map_of (running_jobs ?s) j)" for j using ok new by (simp add: tests_ok_def)
  then show ?thesis using ok
    unfolding tests_ok_def jobs_permuted [OF jobs] counts other reg held in_flight_running [OF flight]
    by (blast intro: mark_running_ok flight)
qed

lemma enter_fields [simp]:
  "registry (enter job p s) = registry s" "test_queue (enter job p s) = test_queue s"
  "held_job (enter job p s) = held_job s" "spawned_jobs (enter job p s) = spawned_jobs s"
  "queued_tests (enter job p s) = queued_tests s" "running_tests (enter job p s) = running_tests s"
  "reported_tasks (enter job p s) = reported_tasks s" "uncounted_tasks (enter job p s) = uncounted_tasks s"
  "dispatching (enter job p s) = dispatching s" "test_events (enter job p s) = test_events s"
  "test_calls (enter job p s) = test_calls s"
  "map_of (running_jobs (enter job p s)) = (map_of (running_jobs s))(job \<mapsto> p)"
  by (simp_all add: enter_def update_conv')

lemma enter_jobs:
  assumes "map_of (running_jobs s) job = Some q"
  shows "map fst (running_jobs (enter job p s)) = map fst (running_jobs s)"
    and "length (running_jobs (enter job p s)) = length (running_jobs s)"
proof -
  have "job \<in> set (map fst (running_jobs s))" using assms by (force dest: map_of_SomeD)
  then show keys: "map fst (running_jobs (enter job p s)) = map fst (running_jobs s)"
    by (simp add: enter_def AList.update_keys)
  then show "length (running_jobs (enter job p s)) = length (running_jobs s)" by (metis length_map)
qed

text \<open>A task that goes on to its next segment: only the calls and the worker it holds matter.\<close>

lemma enter_ok:
  assumes "tests_ok m s" and "map_of (running_jobs s) job = Some q" and "saved_ok p"
    and "started_workers (test_calls s @ cs) = stopped_workers (test_calls s @ cs) \<union> test_workers (enter job p s)"
  shows "tests_ok m (enter job p (s\<lparr>test_calls := test_calls s @ cs, test_store := st\<rparr>))"
proof -
  let ?s = "s\<lparr>test_calls := test_calls s @ cs, test_store := st\<rparr>"
  have q: "map_of (running_jobs ?s) job = Some q" using assms(2) by simp
  have jobs: "all_jobs (enter job p ?s) = all_jobs s"
    using enter_jobs(1) [OF q] by (simp add: all_jobs_def)
  have counts: "waiting (enter job p ?s) = waiting s" "permits_used (enter job p ?s) = permits_used s"
    "counted_tasks (enter job p ?s) = counted_tasks s"
    using enter_jobs(2) [OF q] by (simp_all add: waiting_def permits_used_def counted_tasks_def)
  have "test_workers (enter job p ?s) = test_workers (enter job p s)" by (simp add: test_workers_def)
  then show ?thesis using assms(1,3,4) unfolding tests_ok_def jobs counts by simp
qed

lemma call_workers [simp]:
  "started_workers (tr @ [StartCall w (Inr socket)]) = insert w (started_workers tr)"
  "started_workers (tr @ [StartCall w (Inl e)]) = started_workers tr"
  "started_workers (tr @ [StopCall w r]) = started_workers tr"
  "stopped_workers (tr @ [StartCall w answer]) = stopped_workers tr"
  "stopped_workers (tr @ [StopCall w r]) = insert w (stopped_workers tr)"
  by (auto simp: started_workers_def stopped_workers_def)

lemma enter_workers:
  "map_of (running_jobs s) job = Some q \<Longrightarrow> phase_worker q = None \<Longrightarrow>
     test_workers (enter job p s) = set_option (phase_worker p) \<union> test_workers s"
  "map_of (running_jobs s) job = Some q \<Longrightarrow> phase_worker q = Some w \<Longrightarrow>
     insert w (test_workers (enter job p s)) = insert w (set_option (phase_worker p) \<union> test_workers s)"
  by (auto simp: test_workers_def split: if_splits) (metis option.inject option.distinct(1))+

lemma start_ok:
  assumes ok: "tests_ok m s" and q: "map_of (running_jobs s) job = Some Marked"
  shows "tests_ok m (start_run env job s)"
proof -
  note workers = enter_workers(1) [OF q, simplified]
  have calls: "started_workers (test_calls s) = stopped_workers (test_calls s) \<union> test_workers s"
    using ok by (simp add: tests_ok_def)
  have failed: "tests_ok m (enter job (Ready (Inl e)) s)" for e
    using enter_ok [OF ok q, of "Ready (Inl e)" "[]" "test_store s"] calls workers by simp
  have called: "tests_ok m (case answer of
        Inl e \<Rightarrow> enter job (Ready (Inl (TestService (WorkerFailed e)))) (log_call (StartCall w answer) s)
      | Inr socket \<Rightarrow> enter job (Started w socket) (log_call (StartCall w answer) s))" for w answer
    using enter_ok [OF ok q, of "case answer of Inl e \<Rightarrow> Ready (Inl (TestService (WorkerFailed e)))
        | Inr socket \<Rightarrow> Started w socket" "[StartCall w answer]" "test_store s"] calls workers
    by (cases answer) (auto simp: log_call_def)
  show ?thesis using failed called by (simp add: start_run_def Let_def split: option.split)
qed

lemma fetch_ok:
  assumes ok: "tests_ok m s" and q: "map_of (running_jobs s) job = Some (Started w socket)"
  shows "tests_ok m (fetch_run env job w socket s)"
proof -
  let ?p = "Fetched w (ru_fetch env socket)"
  have "w \<in> test_workers s" "w \<in> test_workers (enter job ?p s)" using q by (force simp: test_workers_def)+
  then have "test_workers (enter job ?p s) = test_workers s"
    using enter_workers(2) [OF q, of w ?p] by auto
  then show ?thesis
    using ok enter_ok [OF ok q, of ?p "[]" "test_store s"] by (simp add: fetch_run_def tests_ok_def)
qed

lemma stop_run_ok:
  assumes ok: "tests_ok m s" and q: "map_of (running_jobs s) job = Some (Fetched w result)"
  shows "tests_ok m (stop_run env job w result s)"
proof -
  let ?p = "Ready (map_err TestQuality result)" and ?e = "StopCall w (client_stop_worker (ru_netd env) w)"
  have "w \<in> test_workers s" using q by (force simp: test_workers_def)
  moreover have "started_workers (test_calls s) = stopped_workers (test_calls s) \<union> test_workers s"
    using ok by (simp add: tests_ok_def)
  ultimately have "started_workers (test_calls s @ [?e]) = stopped_workers (test_calls s @ [?e]) \<union> test_workers (enter job ?p s)"
    using enter_workers(2) [OF q, of w ?p] by auto
  from enter_ok [OF ok q _ this, of "test_store s"] show ?thesis by (simp add: stop_run_def log_call_def)
qed

lemma finished_completed: "completed_at (fst (finished_state env job result)) \<noteq> None"
  by (simp add: finished_state_def Let_def split: sum.split)

lemma save_ok:
  assumes ok: "tests_ok m s" and q: "map_of (running_jobs s) job = Some (Ready result)"
  shows "tests_ok m (save_run env job result s)"
  using ok finished_completed [of env job result] enter_workers(1) [OF q]
    enter_ok [OF ok q, of "Saved (fst (finished_state env job result))" "[]"]
  by (simp add: save_run_def case_prod_beta tests_ok_def)

lemma report_ok:
  assumes ok: "tests_ok m s" and q: "map_of (running_jobs s) job = Some (Saved st)"
  shows "tests_ok m (report_run job st s)"
proof -
  let ?s = "report_run job st s"
  have d: "distinct (all_jobs s)" and r: "registry_ok (registry s)" using ok by (simp_all add: tests_ok_def)
  have job: "job \<in> set (map fst (running_jobs s))" using q by (force dest: map_of_SomeD)
  have flight: "in_flight (registry s) (job_operation job) (job_node job)"
    using job by (intro job_in_flight [OF ok]) (simp add: all_jobs_def)
  have completed: "completed_at st \<noteq> None" using ok q by (auto simp: tests_ok_def dest: spec [of _ job])
  have keys: "map fst (running_jobs ?s) = remove1 job (map fst (running_jobs s))"
    using d by (simp add: report_run_def all_jobs_def distinct_remove1_removeAll AList.delete_keys removeAll_filter_not_eq)
  have reg: "registry ?s = complete (registry s) (job_operation job) (job_node job) st COMPLETED_OPERATION_HISTORY"
    by (simp add: report_run_def)
  have jobs: "all_jobs ?s = remove1 job (all_jobs s)"
    using job d keys unfolding all_jobs_def
    by (cases "held_job s") (auto simp: remove1_append report_run_def simp del: set_map)
  have "length (running_jobs s) = Suc (length (running_jobs ?s))"
    using arg_cong [OF keys, of length] job length_pos_if_in_set [OF job] by (simp add: length_remove1)
  then have counts: "waiting ?s = waiting s" "permits_used ?s = permits_used s" "counted_tasks ?s = counted_tasks s"
    by (simp_all add: report_run_def waiting_def permits_used_def counted_tasks_def)
  have unique: "i = job_operation job \<longleftrightarrow> job_of i n = job" if "in_flight (registry s) i n" for i n
    using that flight by (cases job) (auto simp: job_of_def in_flight_def)
  have other: "dispatching ?s = dispatching s" "queued_tests ?s = queued_tests s" "running_tests ?s = running_tests s"
    "test_queue ?s = test_queue s" "test_calls ?s = test_calls s"
    "map_of (running_jobs ?s) = (map_of (running_jobs s))(job := None)"
    by (simp_all add: report_run_def delete_conv')
  have held: "test_workers ?s = test_workers s"
    unfolding test_workers_def other(6) using q by (auto split: if_splits) (metis option.inject phase_worker.simps(5) option.distinct(1))
  have "registry_ok (registry ?s)" unfolding reg by (rule complete_ok [OF r flight completed])
  moreover have "in_flight (registry ?s) i n \<longleftrightarrow> in_flight (registry s) i n \<and> job_of i n \<noteq> job" for i n
    unfolding reg in_flight_complete [OF r completed] using unique by blast
  moreover have "job_of (job_operation j) (job_node j) = j" for j by (simp add: job_of_def)
  ultimately show ?thesis using ok d
    unfolding tests_ok_def jobs counts other(1-5) held by (auto simp: other(6) set_remove1_eq)
qed

lemma leave_ok:
  assumes "tests_ok m s"
  shows "0 < reported_tasks s \<Longrightarrow> tests_ok m (uncount_run s)" and "tests_ok m (release_permit s)"
proof -
  show "tests_ok m (release_permit s)"
    using assms by (auto simp: tests_ok_def release_permit_def all_jobs_def waiting_def permits_used_def counted_tasks_def
        test_workers_def)
  assume "0 < reported_tasks s"
  then obtain k where "reported_tasks s = Suc k" using gr0_implies_Suc by blast
  then have counts: "counted_tasks s = Suc (counted_tasks (uncount_run s))" "permits_used (uncount_run s) = permits_used s"
    "waiting (uncount_run s) = waiting s" "all_jobs (uncount_run s) = all_jobs s" "test_workers (uncount_run s) = test_workers s"
    by (simp_all add: uncount_run_def counted_tasks_def permits_used_def waiting_def all_jobs_def test_workers_def)
  have "running_tests s = of_nat (Suc (counted_tasks (uncount_run s)))"
    using assms counts(1) unfolding tests_ok_def by metis
  then have "running_tests s - 1 = of_nat (counted_tasks (uncount_run s))" unfolding of_nat_Suc by (rule ssubst) simp
  moreover have "running_tests (uncount_run s) = running_tests s - 1" by (simp add: uncount_run_def)
  ultimately have "running_tests (uncount_run s) = of_nat (counted_tasks (uncount_run s))" by metis
  then show "tests_ok m (uncount_run s)"
    using assms unfolding tests_ok_def counts(2-5) by (simp add: uncount_run_def)
qed

lemma run_step_ok: "run_step s s' \<Longrightarrow> tests_ok m s \<Longrightarrow> tests_ok m s'"
  by (induction rule: run_step.induct)
     (simp_all add: begin_ok start_ok fetch_ok stop_run_ok save_ok report_ok leave_ok)

interpretation tests: invariant_system "\<lambda>s. s = initial_tests st" "test_step m" "tests_ok m" for st m
proof
  show "tests_ok m s" if "s = initial_tests st" for s
    using that by (simp add: initial_tests_def tests_ok_def all_jobs_def waiting_def permits_used_def
        empty_registry_def registry_ok_def maps_agree_def in_flight_def started_workers_def stopped_workers_def
        counted_tasks_def test_workers_def)
  show "tests_ok m s'" if "tests_ok m s" and "test_step m s s'" for s s'
    using that(2,1)
  proof cases
    case (step_observe current)
    then show ?thesis using that(1)
      by (simp add: tests_ok_def observe_nodes_def all_jobs_def waiting_def permits_used_def retain_ok counted_tasks_def
          test_workers_def)
  next
    case step_stop
    then show ?thesis using that(1)
      by (auto simp: tests_ok_def stop_dispatching_def all_jobs_def permits_used_def counted_tasks_def test_workers_def)
  qed (simp_all add: enqueue_ok receive_ok spawn_ok run_step_ok)
qed

section \<open>Properties of the test queue\<close>

definition sample_enqueue :: "uuid \<Rightarrow> enqueue_env" where
  "sample_enqueue i =
     \<lparr>en_nodes = [(sample_node ''a'' 1)\<lparr>vn_openvpn := Some sample_profile\<rparr>], en_now = 0,
      en_new_operation = OperationId i\<rparr>"

definition sample_tests :: test_service where
  "sample_tests = receive_job (snd (enqueue_test_job (sample_enqueue 5) (NodeId ''a'') (initial_tests migrated)))"

lemma sample_tests_reachable: "reachable (\<lambda>s. s = initial_tests migrated) (test_step 2) sample_tests"
  unfolding sample_tests_def
proof (rule reach_step, rule reach_step)
  show "reachable (\<lambda>s. s = initial_tests migrated) (test_step 2) (initial_tests migrated)" by (rule reach_init) simp
  show "test_step 2 (initial_tests migrated)
      (snd (enqueue_test_job (sample_enqueue 5) (NodeId ''a'') (initial_tests migrated)))"
    by (rule step_enqueue) (simp add: initial_tests_def empty_registry_def)
  show "test_step 2 (snd (enqueue_test_job (sample_enqueue 5) (NodeId ''a'') (initial_tests migrated)))
      (receive_job (snd (enqueue_test_job (sample_enqueue 5) (NodeId ''a'') (initial_tests migrated))))"
    by (rule step_receive) code_simp
qed



text \<open>
  C27.  A refused test leaves no trace.  When a request is refused, because the node is unknown or
  unusable, the queue is full or the dispatcher has stopped, the whole state is exactly what it
  was: the registration and the counter are rolled back and no event is emitted.
\<close>

theorem refused_test_unchanged:
  assumes "reachable (\<lambda>s. s = initial_tests st) (test_step max_parallel) s"
    and "map_of (operations (registry s)) (en_new_operation env) = None"
    and "fst (enqueue_test_job env n s) = Inl e"
  shows "snd (enqueue_test_job env n s) = s"
proof -
  have "registry_ok (registry s)"
    using tests.reachable_inv [OF assms(1)] by (simp add: tests_ok_def)
  then show ?thesis by (rule enqueue_test_job_cases [OF _ assms(2), of n]) (use assms(3) in simp_all)
qed

theorem refused_test_unchanged_witness:
  "snd (enqueue_test_job (sample_enqueue 6) (NodeId ''a'') (stop_dispatching (initial_tests migrated))) =
    stop_dispatching (initial_tests migrated)"
proof (rule refused_test_unchanged)
  show "reachable (\<lambda>s. s = initial_tests migrated) (test_step 1) (stop_dispatching (initial_tests migrated))"
    by (rule reach_step [of _ _ "initial_tests migrated"]) (rule reach_init, simp, rule step_stop)
  show "map_of (operations (registry (stop_dispatching (initial_tests migrated)))) (en_new_operation (sample_enqueue 6)) = None"
    by (simp add: stop_dispatching_def initial_tests_def empty_registry_def)
  show "fst (enqueue_test_job (sample_enqueue 6) (NodeId ''a'') (stop_dispatching (initial_tests migrated))) = Inl QueueFull"
    by (simp add: enqueue_test_job_def usable_node_def sample_enqueue_def sample_node_def ok_or_def queue_def
        register_job_def try_send_job_def stop_dispatching_def initial_tests_def empty_registry_def Let_def)
qed

end
