(* ===== verification/Background.thy ===== *)
theory Background
  imports Test_Queue
begin

text \<open>
  The two background loops of \<open>src/src/service.rs\<close> that drive the quality tests:
  \<open>automatic_test_scheduler\<close>, which answers triggers with new tests, and \<open>test_dispatcher\<close> with the
  tasks it spawns, which must work every accepted test off.
\<close>

section \<open>The scheduler\<close>

text \<open>What one round of the scheduler's \<open>select!\<close> sees.\<close>

datatype scheduler_event =
    SchedulerCancelled
  | TriggersClosed
  | Trigger bool "vpn_node list" "enqueue_env list"

fun automatic_test_scheduler :: "scheduler_event list \<Rightarrow> test_service \<Rightarrow> test_service" where
  "automatic_test_scheduler [] s = s"
| "automatic_test_scheduler (SchedulerCancelled # rest) s = s"
| "automatic_test_scheduler (TriggersClosed # rest) s = s"
| "automatic_test_scheduler (Trigger served nodes envs # rest) s =
     automatic_test_scheduler rest
       (snd (schedule_automatic_tests served nodes envs (s\<lparr>automatic_test_triggered := False\<rparr>)))"

text \<open>The identifiers the scheduler draws are new and distinct (random UUIDs).\<close>

definition fresh_envs :: "enqueue_env list \<Rightarrow> test_service \<Rightarrow> bool" where
  "fresh_envs envs s \<longleftrightarrow>
     distinct (map en_new_operation envs)
     \<and> (\<forall>env \<in> set envs. map_of (operations (registry s)) (en_new_operation env) = None)"

lemma enqueue_keeps_fresh:
  assumes "tests_ok m s" and "fresh_envs (env # envs) s"
  shows "fresh_envs envs (snd (enqueue_test_job env n s))"
proof -
  have r: "registry_ok (registry s)" using assms(1) by (simp add: tests_ok_def)
  have new: "map_of (operations (registry s)) (en_new_operation env) = None"
    using assms(2) by (simp add: fresh_envs_def)
  have queued: "map_of (operations r') i = None"
    if "queue (en_new_operation env) (registry s) n (en_now env) = (New (en_new_operation env) (Queued n (en_now env)), r')"
      "map_of (operations (registry s)) i = None" "i \<noteq> en_new_operation env" for r' i
    using that by (auto simp: queue_def update_conv' Let_def split: option.splits if_splits)
  show ?thesis
    by (rule enqueue_test_job_cases [OF r new, of n])
       (use assms(2) queued in \<open>auto simp: fresh_envs_def image_iff\<close>)
qed

lemma schedule_loop_ok:
  "tests_ok m s \<Longrightarrow> fresh_envs (map fst jobs) s \<Longrightarrow> tests_ok m (snd (schedule_loop k jobs s))"
proof (induction k jobs s rule: schedule_loop.induct)
  case (2 k env n rest s)
  have new: "map_of (operations (registry s)) (en_new_operation env) = None"
    using "2.prems" by (simp add: fresh_envs_def)
  obtain r s' where e: "enqueue_test_job env n s = (r, s')" by fastforce
  have "tests_ok m s'" "fresh_envs (map fst rest) s'"
    using enqueue_ok [OF "2.prems"(1) new, of n] enqueue_keeps_fresh [OF "2.prems"(1), of env "map fst rest" n] "2.prems" e by simp_all
  then show ?case using "2.IH" e
    by (auto split: sum.split prod.split bool.split service_error.split)
qed simp

text \<open>Every round of the scheduler keeps the account of the tests.\<close>

lemma schedule_ok:
  assumes "tests_ok m s" and "fresh_envs envs s"
  shows "tests_ok m (snd (schedule_automatic_tests served nodes envs s))"
proof -
  have "fresh_envs (map fst (zip envs (select_automatic_tests c d k l))) s" for c d k l
    using assms(2) by (auto simp: fresh_envs_def map_fst_zip_take simp flip: take_map dest: in_set_takeD)
  then show ?thesis
    using assms(1) by (auto simp: schedule_automatic_tests_def schedule_loop_ok split: sum.split)
qed

fun fresh_rounds :: "scheduler_event list \<Rightarrow> test_service \<Rightarrow> bool" where
  "fresh_rounds (Trigger served nodes envs # rest) s \<longleftrightarrow>
     (let s = s\<lparr>automatic_test_triggered := False\<rparr>
      in fresh_envs envs s \<and> fresh_rounds rest (snd (schedule_automatic_tests served nodes envs s)))"
| "fresh_rounds _ s \<longleftrightarrow> True"

lemma scheduler_ok:
  "tests_ok m s \<Longrightarrow> fresh_rounds rounds s \<Longrightarrow> tests_ok m (automatic_test_scheduler rounds s)"
proof (induction rounds s rule: automatic_test_scheduler.induct)
  case (4 served nodes envs rest s)
  have "tests_ok m (s\<lparr>automatic_test_triggered := False\<rparr>)"
    using "4.prems"(1) by (simp add: tests_ok_def all_jobs_def waiting_def permits_used_def counted_tasks_def test_workers_def)
  then show ?case using "4.prems"(2) by (auto simp: Let_def intro!: "4.IH" schedule_ok)
qed simp_all

section \<open>The dispatcher works everything off\<close>

text \<open>
  The steps of \<open>test_dispatcher\<close> and of the tasks it spawns that make progress: taking a job from
  the queue, spawning it once a permit is free, and the segments of the spawned tasks.
\<close>

inductive work_step :: "nat \<Rightarrow> test_service \<Rightarrow> test_service \<Rightarrow> bool" for max_parallel :: nat where
  work_receive: "dispatching s \<Longrightarrow> held_job s = None \<Longrightarrow> test_queue s \<noteq> [] \<Longrightarrow> work_step max_parallel s (receive_job s)"
| work_spawn: "dispatching s \<Longrightarrow> held_job s = Some job \<Longrightarrow> permits_used s < max_parallel \<Longrightarrow>
    work_step max_parallel s (spawn_job max_parallel s)"
| work_run: "run_step s s' \<Longrightarrow> work_step max_parallel s s'"

lemma work_step_is_test_step: "work_step m s s' \<Longrightarrow> test_step m s s'"
  by (induction rule: work_step.induct) (auto intro: test_step.intros)

text \<open>The number of steps still to be made for a task in each phase, and for the whole queue.\<close>

fun phase_left :: "run_phase \<Rightarrow> nat" where
  "phase_left Marked = 7"
| "phase_left (Started _ _) = 6"
| "phase_left (Fetched _ _) = 5"
| "phase_left (Ready _) = 4"
| "phase_left (Saved _) = 3"

definition work_left :: "test_service \<Rightarrow> nat" where
  "work_left s =
     10 * length (test_queue s) + (case held_job s of None \<Rightarrow> 0 | Some _ \<Rightarrow> 9)
     + 8 * length (spawned_jobs s) + sum_list (map (phase_left \<circ> snd) (running_jobs s))
     + 2 * reported_tasks s + uncounted_tasks s"

lemma length_remove1_less: "x \<in> set xs \<Longrightarrow> length xs = Suc (length (remove1 x xs))"
  by (simp add: length_remove1) (metis Suc_pred length_pos_if_in_set)

lemma sum_update_less:
  "map_of xs k = Some q \<Longrightarrow> f p < f q \<Longrightarrow>
     sum_list (map (f \<circ> snd) (AList.update k p xs)) < (sum_list (map (f \<circ> snd) xs) :: nat)"
  by (induction xs) (auto split: if_splits)

lemma sum_delete_le: "sum_list (map (f \<circ> snd) (AList.delete k xs)) \<le> (sum_list (map (f \<circ> snd) xs) :: nat)"
  by (induction xs) (auto simp: AList.delete_eq)

lemma sum_delete_less:
  "map_of xs k = Some q \<Longrightarrow> sum_list (map (f \<circ> snd) (AList.delete k xs)) + f q \<le> (sum_list (map (f \<circ> snd) xs) :: nat)"
proof (induction xs)
  case (Cons x xs)
  then show ?case using sum_delete_le [of f k xs] by (cases "fst x = k") (auto simp: AList.delete_eq comp_def split: if_splits)
qed simp

lemma enter_less:
  assumes "map_of (running_jobs s) job = Some q" and "phase_left p < phase_left q"
  shows "work_left (enter job p s) < work_left s"
  using sum_update_less [OF assms] by (simp add: work_left_def enter_def)

lemma work_left_cong [simp]:
  "work_left (log_call e s) = work_left s" "work_left (s\<lparr>test_store := st\<rparr>) = work_left s"
  "running_jobs (log_call e s) = running_jobs s"
  by (simp_all add: work_left_def log_call_def)

lemma enter_less_trans:
  assumes "map_of (running_jobs s) job = Some q" and "phase_left p < phase_left q"
    and "work_left s' = work_left s" and "running_jobs s' = running_jobs s"
  shows "work_left (enter job p s') < work_left s"
  using enter_less [of s' job q p] assms by simp

lemma run_step_less: "run_step s s' \<Longrightarrow> work_left s' < work_left s"
proof (induction rule: run_step.induct)
  case (run_begin job s env)
  then show ?case by (simp add: work_left_def begin_run_def case_prod_beta length_remove1_less)
next
  case (run_report s job st)
  then show ?case using sum_delete_less [of "running_jobs s" job "Saved st" phase_left]
    by (simp add: work_left_def report_run_def)
qed (auto simp: start_run_def fetch_run_def stop_run_def save_run_def uncount_run_def release_permit_def Let_def
      case_prod_beta work_left_def [of "uncount_run _"] intro: enter_less_trans split: option.split sum.split,
      simp_all add: work_left_def)

lemma work_step_less: "work_step m s s' \<Longrightarrow> work_left s' < work_left s"
  by (induction rule: work_step.induct)
     (auto simp: run_step_less, auto simp: work_left_def receive_job_def spawn_job_def neq_Nil_conv split: option.splits)

lemma work_bounded: "(work_step m ^^ n) s s' \<Longrightarrow> n + work_left s' \<le> work_left s"
  by (induction n arbitrary: s') (fastforce dest: work_step_less)+

lemma run_step_dispatching: "run_step s s' \<Longrightarrow> dispatching s' = dispatching s"
  by (induction rule: run_step.induct)
     (simp_all add: begin_run_def start_run_def fetch_run_def stop_run_def save_run_def report_run_def uncount_run_def
       release_permit_def log_call_def case_prod_beta Let_def split: option.split sum.split)

lemma work_step_dispatching: "work_step m s s' \<Longrightarrow> dispatching s' = dispatching s"
  by (induction rule: work_step.induct)
     (auto simp: run_step_dispatching receive_job_def spawn_job_def split: option.splits list.splits)

text \<open>A free permit or a task that holds one: the dispatcher is never stuck.\<close>

definition tasks_left :: "test_service \<Rightarrow> bool" where
  "tasks_left s \<longleftrightarrow> all_jobs s \<noteq> [] \<or> reported_tasks s \<noteq> 0 \<or> uncounted_tasks s \<noteq> 0"

text \<open>Whatever environment its next segment meets, a running task goes on.\<close>

lemma running_goes_on:
  assumes "map_of (running_jobs s) job = Some phase"
  shows "\<exists>s'. run_step s s'"
  using assms run_start [of s job] run_fetch [of s job] run_stop [of s job] run_save [of s job] run_report [of s job]
  by (cases phase) blast+

lemma work_possible:
  assumes "tests_ok m s" and "dispatching s" and "0 < m" and "tasks_left s"
  shows "\<exists>s'. work_step m s s'"
proof (cases "permits_used s = 0")
  case True
  then have "permits_used s < m" using assms(3) by simp
  then show ?thesis using True assms(2,4) work_receive [of s m] work_spawn [of s _ m]
    by (cases "held_job s") (auto simp: tasks_left_def all_jobs_def permits_used_def)
next
  case False
  then consider "spawned_jobs s \<noteq> []" | "running_jobs s \<noteq> []" | "0 < reported_tasks s" | "0 < uncounted_tasks s"
    by (auto simp: permits_used_def)
  then have "\<exists>s'. run_step s s'"
  proof cases
    case 2
    then have "map_of (running_jobs s) (fst (hd (running_jobs s))) \<noteq> None" by (cases "running_jobs s") auto
    then show ?thesis using running_goes_on by blast
  qed (use run_begin run_uncount run_release list.set_sel(1) in blast)+
  then show ?thesis using work_run by blast
qed

text \<open>A job is kept until its task has reported the outcome.\<close>

definition reported :: "test_job \<Rightarrow> test_service \<Rightarrow> bool" where
  "reported job s \<longleftrightarrow>
     (\<exists>e \<in> set (test_events s). case e of
        TestEvent i st \<Rightarrow> i = job_operation job \<and> completed_at st \<noteq> None | _ \<Rightarrow> False)"

lemma enter_report [simp]:
  "map_of (running_jobs s) j = Some q \<Longrightarrow> all_jobs (enter j p s) = all_jobs s"
  "reported job (enter j p s) = reported job s" "all_jobs (log_call e s) = all_jobs s" "reported job (log_call e s) = reported job s"
  using enter_jobs(1) [of s j q p] by (simp_all add: all_jobs_def reported_def log_call_def)

lemma run_step_reports:
  assumes "run_step s s'" and "tests_ok m s" and "job \<in> set (all_jobs s) \<or> reported job s"
  shows "job \<in> set (all_jobs s') \<or> reported job s'"
  using assms(1)
proof cases
  case (run_begin j env)
  then show ?thesis using assms(3)
    by (cases "j = job") (auto simp: begin_run_def case_prod_beta all_jobs_def reported_def split: option.splits)
next
  case (run_report j st)
  then have "completed_at st \<noteq> None" using assms(2) by (auto simp: tests_ok_def dest: spec [of _ j])
  with run_report show ?thesis using assms(3)
    by (cases "j = job") (auto simp: report_run_def all_jobs_def reported_def AList.delete_keys split: option.splits)
next
  case (run_save j outcome env)
  then have "all_jobs s' = all_jobs s" "reported job s' = reported job s"
    using enter_report(1) [of "s\<lparr>test_store := st\<rparr>" j "Ready outcome" for st]
    by (simp_all add: save_run_def case_prod_beta) (simp_all add: all_jobs_def reported_def)
  then show ?thesis using assms(3) by simp
qed (use assms(3) in \<open>auto simp: start_run_def fetch_run_def stop_run_def Let_def split: option.splits sum.splits\<close>,
     use assms(3) in \<open>auto simp: uncount_run_def release_permit_def all_jobs_def reported_def\<close>)

lemma work_step_reports:
  assumes "work_step m s s'" and "tests_ok m s" and "job \<in> set (all_jobs s) \<or> reported job s"
  shows "job \<in> set (all_jobs s') \<or> reported job s'"
  using assms
proof cases
  case work_receive
  then show ?thesis using assms(3) by (auto simp: receive_job_def all_jobs_def reported_def neq_Nil_conv)
next
  case (work_spawn j)
  then show ?thesis using assms(3) by (auto simp: spawn_job_def all_jobs_def reported_def)
qed (use run_step_reports in blast)

interpretation work: terminating_phase "\<lambda>s. tests_ok m s \<and> dispatching s \<and> 0 < m" "work_step m"
    "\<lambda>s. tests_ok m s \<and> dispatching s \<and> 0 < m" tasks_left "\<lambda>s. \<not> tasks_left s" work_left for m
proof
  show "tests_ok m s' \<and> dispatching s' \<and> 0 < m" if "tests_ok m s \<and> dispatching s \<and> 0 < m" "work_step m s s'" for s s'
    using that tests.step_inv [OF _ work_step_is_test_step] work_step_dispatching by blast
  show "\<not> work_step m s s'" if "\<not> tasks_left s" for s s'
    using that by (auto simp: tasks_left_def all_jobs_def elim!: work_step.cases run_step.cases split: option.splits)
qed (auto simp: work_step_less work_possible)

lemma work_steps_report:
  assumes "(work_step m)\<^sup>*\<^sup>* s s'" and "tests_ok m s \<and> dispatching s \<and> 0 < m" and "job \<in> set (all_jobs s)"
  shows "job \<in> set (all_jobs s') \<or> reported job s'"
  using assms(1)
proof (induction rule: rtranclp_induct)
  case (step t u)
  then show ?case using work.steps_inv [OF step.hyps(1) assms(2)] work_step_reports by blast
qed (simp add: assms(3))

section \<open>Accepted tests finish\<close>

text \<open>
  C21.  Every accepted test finishes.  From any reachable state in which the dispatcher runs and at
  least one test may run at a time (the configuration guarantees it), the steps of the dispatcher
  and its tasks cannot go on forever without new requests: a run has at most \<open>work_left s\<close> steps.
  When none is possible any more, the queue is empty, no operation is in flight, both counters of
  the status page are zero, and every test that was waiting or running has reported its outcome in
  an event; such an end is always reached, whatever the nodes, the helper and IPPure answer.
\<close>

theorem accepted_tests_finish:
  assumes "reachable (\<lambda>s. s = initial_tests st) (test_step max_parallel) s" and "dispatching s" and "0 < max_parallel"
  shows "(\<forall>n s'. (work_step max_parallel ^^ n) s s' \<longrightarrow> n \<le> work_left s)
    \<and> (\<exists>s'. (work_step max_parallel)\<^sup>*\<^sup>* s s' \<and> all_jobs s' = [])
    \<and> (\<forall>s'. (work_step max_parallel)\<^sup>*\<^sup>* s s' \<longrightarrow> (\<nexists>u. work_step max_parallel s' u) \<longrightarrow>
        all_jobs s' = [] \<and> (\<forall>i n. \<not> in_flight (registry s') i n) \<and> queued_tests s' = 0 \<and> running_tests s' = 0
        \<and> (\<forall>job \<in> set (all_jobs s). reported job s'))"
proof (intro conjI allI impI)
  have ok: "tests_ok max_parallel s \<and> dispatching s \<and> 0 < max_parallel"
    using tests.reachable_inv [OF assms(1)] assms(2,3) by blast
  have idle: "s' = s" if "(work_step max_parallel)\<^sup>*\<^sup>* s s'" "\<not> tasks_left s" for s'
    using that(1) by (cases rule: converse_rtranclpE) (simp_all add: work.finished_final [OF that(2)])
  show "n \<le> work_left s" if "(work_step max_parallel ^^ n) s s'" for n s'
    using work_bounded [OF that] by simp
  show "\<exists>s'. (work_step max_parallel)\<^sup>*\<^sup>* s s' \<and> all_jobs s' = []"
    using work.reaches_finished [OF ok] by (auto simp: tasks_left_def)
  fix s' assume run: "(work_step max_parallel)\<^sup>*\<^sup>* s s'" and stuck: "\<nexists>u. work_step max_parallel s' u"
  have over: "\<not> tasks_left s'"
    using work.stuck_finished [OF ok _ run] idle [OF run] stuck by blast
  then show empty: "all_jobs s' = []" by (simp add: tasks_left_def)
  have ok': "tests_ok max_parallel s'" "dispatching s'" using work.steps_inv [OF run ok] by blast+
  show "\<not> in_flight (registry s') i n" for i n using ok' empty by (auto simp: tests_ok_def)
  have "waiting s' = 0" "counted_tasks s' = 0"
    using over by (auto simp: tasks_left_def waiting_def counted_tasks_def all_jobs_def split: option.splits)
  then show "queued_tests s' = 0" "running_tests s' = 0" using ok' by (simp_all add: tests_ok_def)
  show "\<forall>job \<in> set (all_jobs s). reported job s'" using work_steps_report [OF run ok] empty by auto
qed

text \<open>With one test in the hand of the dispatcher, nine steps are left, and its outcome is reported.\<close>

theorem accepted_tests_finish_witness:
  "work_left sample_tests = 9 \<and> all_jobs sample_tests \<noteq> []
   \<and> (\<exists>s'. (work_step 2)\<^sup>*\<^sup>* sample_tests s' \<and> all_jobs s' = [] \<and> running_tests s' = 0)"
proof -
  have d: "dispatching sample_tests" and left: "work_left sample_tests = 9" "all_jobs sample_tests \<noteq> []" by code_simp+
  have ok: "tests_ok 2 sample_tests \<and> dispatching sample_tests \<and> 0 < (2::nat)"
    using tests.reachable_inv [OF sample_tests_reachable] d by simp
  obtain s' where run: "(work_step 2)\<^sup>*\<^sup>* sample_tests s'" and "\<not> tasks_left s'"
    using work.reaches_finished [OF ok] by blast
  then have "\<nexists>u. work_step 2 s' u" using work.finished_final by blast
  with accepted_tests_finish [OF sample_tests_reachable d] run left show ?thesis by auto
qed

end
