(* ===== verification/Web_Auth.thy ===== *)
theory Web_Auth
  imports Socks Domain_Nodes
begin

text \<open>
  Login sessions and CSRF protection, \<open>src/src/api/auth.rs\<close>.  A request is its method and the
  two headers the module reads; SHA-256, the clock and the random UUIDs of a login are arguments.
  An API error keeps its status and its stable code, not the localised message.
\<close>

section \<open>Requests, responses and state\<close>

datatype http_method = GET | HEAD | OPTIONS | POST | PUT | DELETE | OtherMethod string

record headers =
  hd_cookie :: "string option"
  hd_csrf_token :: "string option"

record api_error =
  err_status :: nat
  err_code :: string

record session =
  csrf_token :: string
  expires_at :: datetime

record auth_manager =
  auth_credentials :: "credentials option"
  auth_sessions :: "string \<rightharpoonup> session"
  secure_cookie :: bool

record session_response =
  sr_authenticated :: bool
  sr_csrf_token :: "string option"
  sr_set_cookie :: "string option"

definition SESSION_COOKIE :: string where "SESSION_COOKIE = ''vpngate2socks_session''"
definition SESSION_HOURS :: int where "SESSION_HOURS = 8"

definition new_auth :: "credentials option \<Rightarrow> bool \<Rightarrow> auth_manager" where
  "new_auth credentials secure =
     \<lparr>auth_credentials = credentials, auth_sessions = Map.empty, secure_cookie = secure\<rparr>"

definition is_required :: "auth_manager \<Rightarrow> bool" where
  "is_required m \<longleftrightarrow> auth_credentials m \<noteq> None"

section \<open>Cookies\<close>

text \<open>\<open>HeaderValue::to_str\<close> accepts visible ASCII and the tab.\<close>

definition header_to_str :: "string \<Rightarrow> string option" where
  "header_to_str v = (if list_all (\<lambda>c. c = CHR 0x09 \<or> CHR 0x20 \<le> c \<and> c < CHR 0x7F) v then Some v else None)"

fun find_map :: "('a \<Rightarrow> 'b option) \<Rightarrow> 'a list \<Rightarrow> 'b option" where
  "find_map f [] = None"
| "find_map f (x # xs) = (case f x of Some y \<Rightarrow> Some y | None \<Rightarrow> find_map f xs)"

definition cookie :: "headers \<Rightarrow> string \<Rightarrow> string option" where
  "cookie h name =
     Option.bind (Option.bind (hd_cookie h) header_to_str) (\<lambda>value.
       find_map (\<lambda>part. Option.bind (strip_prefix name (trim part)) (strip_prefix ''=''))
         (split_on (CHR '';'') value))"

definition session_cookie :: "string \<Rightarrow> int \<Rightarrow> bool \<Rightarrow> string" where
  "session_cookie token max_age secure =
     SESSION_COOKIE @ ''='' @ token @ ''; Path=/; HttpOnly; SameSite=Strict; Max-Age='' @ show_nat (nat max_age)
     @ (if secure then ''; Secure'' else '''')"

section \<open>Sessions\<close>

text \<open>\<open>AuthManager::session\<close>: an expired session is removed when it is looked up.\<close>

definition lookup_session :: "datetime \<Rightarrow> headers \<Rightarrow> auth_manager \<Rightarrow> session option \<times> auth_manager" where
  "lookup_session now h m =
     (if \<not> is_required m then (None, m)
      else case cookie h SESSION_COOKIE of
        None \<Rightarrow> (None, m)
      | Some token \<Rightarrow>
          (case auth_sessions m token of
             None \<Rightarrow> (None, m)
           | Some s \<Rightarrow>
               if expires_at s \<le> now
               then (None, m\<lparr>auth_sessions := (auth_sessions m)(token := None)\<rparr>)
               else (Some s, m)))"

definition constant_time_equal :: "(bytes \<Rightarrow> bytes) \<Rightarrow> bytes \<Rightarrow> bytes \<Rightarrow> bool" where
  "constant_time_equal sha256 left right \<longleftrightarrow> sha256 left = sha256 right"

definition credentials_match :: "(bytes \<Rightarrow> bytes) \<Rightarrow> credentials \<Rightarrow> string \<Rightarrow> string \<Rightarrow> bool" where
  "credentials_match sha256 expected username password \<longleftrightarrow>
     sha256 (as_bytes username) = sha256 (as_bytes (cr_username expected))
     \<and> sha256 (as_bytes password) = sha256 (as_bytes (expose (cr_password expected)))"

text \<open>\<open>login\<close>: the payload is what JSON extraction made of the body, \<open>None\<close> when it was rejected.\<close>

definition login ::
    "(bytes \<Rightarrow> bytes) \<Rightarrow> datetime \<Rightarrow> uuid \<Rightarrow> uuid \<Rightarrow> (string \<times> string) option \<Rightarrow> auth_manager
     \<Rightarrow> (api_error + session_response) \<times> auth_manager" where
  "login sha256 now token_id csrf_id payload m =
     (case payload of
        None \<Rightarrow> (Inl \<lparr>err_status = 400, err_code = ''invalidJson''\<rparr>, m)
      | Some (username, password) \<Rightarrow>
          (case auth_credentials m of
             None \<Rightarrow> (Inr \<lparr>sr_authenticated = True, sr_csrf_token = None, sr_set_cookie = None\<rparr>, m)
           | Some expected \<Rightarrow>
               if \<not> credentials_match sha256 expected username password
               then (Inl \<lparr>err_status = 401, err_code = ''invalidCredentials''\<rparr>, m)
               else
                 let token = uuid_simple token_id;
                     csrf = uuid_simple csrf_id;
                     s = \<lparr>csrf_token = csrf, expires_at = now + SESSION_HOURS * 3600\<rparr>
                 in (Inr \<lparr>sr_authenticated = True, sr_csrf_token = Some csrf,
                          sr_set_cookie = Some (session_cookie token (SESSION_HOURS * 60 * 60) (secure_cookie m))\<rparr>,
                     m\<lparr>auth_sessions := (auth_sessions m)(token \<mapsto> s)\<rparr>)))"

definition current_session :: "datetime \<Rightarrow> headers \<Rightarrow> auth_manager \<Rightarrow> session_response \<times> auth_manager" where
  "current_session now h m =
     (if \<not> is_required m then (\<lparr>sr_authenticated = True, sr_csrf_token = None, sr_set_cookie = None\<rparr>, m)
      else case lookup_session now h m of
        (s, m) \<Rightarrow>
          (\<lparr>sr_authenticated = is_some s, sr_csrf_token = map_option csrf_token s, sr_set_cookie = None\<rparr>, m))"

definition logout :: "headers \<Rightarrow> auth_manager \<Rightarrow> string \<times> auth_manager" where
  "logout h m =
     (session_cookie '''' 0 (secure_cookie m),
      case cookie h SESSION_COOKIE of
        None \<Rightarrow> m
      | Some token \<Rightarrow> m\<lparr>auth_sessions := (auth_sessions m)(token := None)\<rparr>)"

section \<open>The middleware\<close>

definition safe_method :: "http_method \<Rightarrow> bool" where
  "safe_method method \<longleftrightarrow> method \<in> {GET, HEAD, OPTIONS}"

definition check_csrf :: "(bytes \<Rightarrow> bytes) \<Rightarrow> headers \<Rightarrow> session \<Rightarrow> api_error + unit" where
  "check_csrf sha256 h s =
     (case Option.bind (hd_csrf_token h) header_to_str of
        None \<Rightarrow> Inl \<lparr>err_status = 403, err_code = ''csrfRequired''\<rparr>
      | Some supplied \<Rightarrow>
          ensure (constant_time_equal sha256 (as_bytes supplied) (as_bytes (csrf_token s)))
            \<lparr>err_status = 403, err_code = ''csrfInvalid''\<rparr>)"

text \<open>The verdict of \<open>require_auth\<close>: \<open>Inr\<close> lets the request run.\<close>

definition require_auth ::
    "(bytes \<Rightarrow> bytes) \<Rightarrow> datetime \<Rightarrow> http_method \<Rightarrow> headers \<Rightarrow> auth_manager \<Rightarrow> (api_error + unit) \<times> auth_manager" where
  "require_auth sha256 now method h m =
     (if \<not> is_required m then (Inr (), m)
      else case lookup_session now h m of
        (None, m) \<Rightarrow> (Inl \<lparr>err_status = 401, err_code = ''authenticationRequired''\<rparr>, m)
      | (Some s, m) \<Rightarrow> (if safe_method method then Inr () else check_csrf sha256 h s, m))"

section \<open>Laws\<close>

lemma lookup_session_fields [simp]:
  "auth_credentials (snd (lookup_session now h m)) = auth_credentials m"
  "secure_cookie (snd (lookup_session now h m)) = secure_cookie m"
  by (simp_all add: lookup_session_def split: option.split)

lemma lookup_session_sub: "auth_sessions (snd (lookup_session now h m)) \<subseteq>\<^sub>m auth_sessions m"
  by (simp add: lookup_session_def map_le_def split: option.split)

lemma require_auth_manager:
  "snd (require_auth sha256 now method h m) = (if is_required m then snd (lookup_session now h m) else m)"
  by (simp add: require_auth_def split: prod.split option.split)

lemma require_auth_passes:
  assumes "fst (require_auth sha256 now method h m) = Inr ()" and "is_required m"
  shows "\<exists>token s. cookie h SESSION_COOKIE = Some token \<and> auth_sessions m token = Some s \<and> now < expires_at s
    \<and> (safe_method method \<or> (\<exists>supplied. hd_csrf_token h = Some supplied
        \<and> sha256 (as_bytes supplied) = sha256 (as_bytes (csrf_token s))))"
  using assms
  by (auto simp: require_auth_def lookup_session_def check_csrf_def constant_time_equal_def ensure_def
      header_to_str_def split: option.splits if_splits bind_splits)

lemma login_sessions:
  assumes "auth_credentials m = Some expected"
  shows "auth_sessions (snd (login sha256 now t c payload m)) = auth_sessions m
    \<or> (\<exists>u p. payload = Some (u, p) \<and> credentials_match sha256 expected u p)"
  using assms by (auto simp: login_def Let_def split: option.split)

end
