(* ===== verification/Service.thy ===== *)
theory Service
  imports Test_Queue Socks
begin

text \<open>
  The application state of \<open>src/src/service.rs\<close> and the operations the web interface calls:
  refreshing the node list, changing the automatic connection policy, connecting and
  disconnecting, the status page, and one round of each background loop (refresh, upstream
  monitor).  The connection actor and the test queue are components of the state.  The policy
  mutex makes \<open>set_auto_connect_config\<close> and \<open>disable_auto_connect\<close> atomic.
\<close>

section \<open>State\<close>

record refresh_info =
  ri_at :: datetime
  ri_accepted :: nat
  ri_rejected :: nat
  ri_unsupported :: nat

record app_state =
  nodes :: "vpn_node list"
  last_refresh :: "refresh_info option"
  refreshing :: bool
  auto_connect :: auto_connect_config
  upstream_status :: upstream_state
  connection :: actor
  tests :: test_service
  events :: "app_event list"

definition new_app_state :: "auto_connect_config \<Rightarrow> store \<Rightarrow> app_state" where
  "new_app_state config st =
     \<lparr>nodes = [], last_refresh = None, refreshing = False, auto_connect = config, upstream_status = Checking,
      connection = initial_actor, tests = initial_tests st, events = []\<rparr>"

definition emit :: "app_event \<Rightarrow> app_state \<Rightarrow> app_state" where
  "emit event s = s\<lparr>events := events s @ [event]\<rparr>"

definition with_store :: "(store \<Rightarrow> 'a \<times> store) \<Rightarrow> app_state \<Rightarrow> 'a \<times> app_state" where
  "with_store f s = (case f (test_store (tests s)) of (r, st) \<Rightarrow> (r, s\<lparr>tests := (tests s)\<lparr>test_store := st\<rparr>\<rparr>))"

definition trigger_automatic_tests :: "app_state \<Rightarrow> app_state" where
  "trigger_automatic_tests s = s\<lparr>tests := (tests s)\<lparr>automatic_test_triggered := True\<rparr>\<rparr>"

definition trigger_auto_connect :: "app_state \<Rightarrow> app_state" where
  "trigger_auto_connect s = s\<lparr>tests := (tests s)\<lparr>auto_connect_triggered := True\<rparr>\<rparr>"

definition find_node :: "app_state \<Rightarrow> node_id \<Rightarrow> vpn_node option" where
  "find_node s node_id = find (\<lambda>n. vn_id n = node_id) (nodes s)"

section \<open>Regions\<close>

text \<open>\<open>BTreeMap::entry(code).or_insert(name)\<close> on an ordered association list\<close>

fun or_insert :: "string \<Rightarrow> string \<Rightarrow> (string \<times> string) list \<Rightarrow> (string \<times> string) list" where
  "or_insert code name [] = [(code, name)]"
| "or_insert code name ((c, n) # rest) =
     (if code = c then (c, n) # rest
      else if code < c then (code, name) # (c, n) # rest
      else (c, n) # or_insert code name rest)"

definition region_entry :: "(string \<Rightarrow> string) \<Rightarrow> vpn_node \<Rightarrow> (string \<times> string) option" where
  "region_entry to_uppercase node =
     (let code = to_uppercase (trim (vn_country_short node))
      in if vn_availability node = Available \<and> code \<noteq> [] then Some (code, vn_country_long node) else None)"

definition auto_connect_regions :: "(string \<Rightarrow> string) \<Rightarrow> app_state \<Rightarrow> (string \<times> string) list" where
  "auto_connect_regions to_uppercase s =
     foldl (\<lambda>regions (code, name). or_insert code name regions) []
       (List.map_filter (region_entry to_uppercase) (nodes s))"

section \<open>Policy\<close>

definition set_auto_connect_config ::
    "(string \<Rightarrow> string) \<Rightarrow> bool \<Rightarrow> auto_connect_config \<Rightarrow> app_state
     \<Rightarrow> (service_error + auto_connect_config) \<times> app_state" where
  "set_auto_connect_config to_uppercase served config s =
     (case normalized to_uppercase config of
        Inl message \<Rightarrow> (Inl (InvalidAutoConnect message), s)
      | Inr config \<Rightarrow>
          (case with_store (save_auto_connect_config served config) s of
             (Inl e, s) \<Rightarrow> (Inl (StoreFailed e), s)
           | (Inr _, s) \<Rightarrow>
               (Inr config,
                trigger_auto_connect (emit (AutoConnectionEvent config) (s\<lparr>auto_connect := config\<rparr>)))))"

definition disable_auto_connect :: "bool \<Rightarrow> app_state \<Rightarrow> app_state" where
  "disable_auto_connect served s =
     (if \<not> ac_enabled (auto_connect s) then s
      else
        let config = (auto_connect s)\<lparr>ac_enabled := False\<rparr>;
            s = emit (AutoConnectionEvent config) (s\<lparr>auto_connect := config\<rparr>)
        in snd (with_store (save_auto_connect_config served config) s))"

section \<open>Refreshing\<close>

record refresh_env =
  re_snapshot :: "vpngate_error + parsed_snapshot"
  re_cutoff :: "datetime option"
  re_served :: bool
  re_transaction :: "bool list"
  re_at :: datetime

definition refresh_info_of :: "datetime \<Rightarrow> parse_stats \<Rightarrow> refresh_info" where
  "refresh_info_of now stats =
     \<lparr>ri_at = now, ri_accepted = accepted stats, ri_rejected = rejected stats, ri_unsupported = unsupported stats\<rparr>"

definition cleanup_tests :: "refresh_env \<Rightarrow> node_id set \<Rightarrow> app_state \<Rightarrow> app_state" where
  "cleanup_tests env current_ids s =
     (case re_cutoff env of
        None \<Rightarrow> s
      | Some cutoff \<Rightarrow> snd (with_store (cleanup_stale (re_served env) (re_transaction env) current_ids cutoff) s))"

definition refresh_nodes_inner :: "refresh_env \<Rightarrow> app_state \<Rightarrow> (service_error + refresh_info) \<times> app_state" where
  "refresh_nodes_inner env s =
     (case re_snapshot env of
        Inl e \<Rightarrow> (Inl (Refresh e), s)
      | Inr snapshot \<Rightarrow>
          let current_ids = vn_id ` set (snap_nodes snapshot);
              s = s\<lparr>nodes := snap_nodes snapshot\<rparr>;
              s = s\<lparr>tests := observe_nodes current_ids (tests s)\<rparr>;
              s = cleanup_tests env current_ids s;
              info = refresh_info_of (re_at env) (snap_stats snapshot);
              s = s\<lparr>last_refresh := Some info\<rparr>;
              s = emit (NodesRefreshed (ri_accepted info) (ri_rejected info) (ri_at info)) s
          in (Inr info, trigger_auto_connect (trigger_automatic_tests s)))"

definition refresh_nodes :: "refresh_env \<Rightarrow> app_state \<Rightarrow> (service_error + refresh_info) \<times> app_state" where
  "refresh_nodes env s =
     (if refreshing s then (Inl RefreshBusy, s)
      else case refresh_nodes_inner env (s\<lparr>refreshing := True\<rparr>) of (r, s) \<Rightarrow> (r, s\<lparr>refreshing := False\<rparr>))"

text \<open>One round of the refresh loop: the delay before the next, and the retry delay to use then.\<close>

definition refresh_round ::
    "nat \<Rightarrow> datetime \<Rightarrow> refresh_env \<Rightarrow> nat \<times> app_state \<Rightarrow> nat \<times> nat \<times> app_state" where
  "refresh_round refresh_interval now env rs =
     (case rs of (retry, s) \<Rightarrow>
        (case refresh_nodes env s of
           (Inr _, s) \<Rightarrow> (refresh_interval, 5000, s)
         | (Inl RefreshBusy, s) \<Rightarrow> (1000, retry, s)
         | (Inl error, s) \<Rightarrow>
             (retry, min (2 * retry) refresh_interval,
              emit (RefreshFailed (service_error_message error) now) s)))"

section \<open>Connecting\<close>

text \<open>
  The command channel: a command is answered by the actor while it serves, and with
  \<open>ShuttingDown\<close> once its receiver is gone.
\<close>

definition send_command ::
    "(actor \<Rightarrow> (service_error + connection_state) \<times> actor) \<Rightarrow> app_state
     \<Rightarrow> (service_error + connection_state) \<times> app_state" where
  "send_command command s =
     (if serving (connection s)
      then case command (connection s) of (r, a) \<Rightarrow> (r, s\<lparr>connection := a\<rparr>)
      else (Inl ShuttingDown, s))"

definition connect ::
    "bool \<Rightarrow> switch_env \<Rightarrow> node_id \<Rightarrow> app_state \<Rightarrow> (service_error + connection_state) \<times> app_state" where
  "connect served env node_id s =
     (case usable_node (nodes s) node_id of
        Inl e \<Rightarrow> (Inl e, s)
      | Inr _ \<Rightarrow> send_command (connect_command env node_id) (disable_auto_connect served s))"

definition disconnect ::
    "bool \<Rightarrow> (netd_request \<Rightarrow> netd_client_error + netd_response) \<Rightarrow> app_state
     \<Rightarrow> (service_error + connection_state) \<times> app_state" where
  "disconnect served netd s = send_command (disconnect_command netd) (disable_auto_connect served s)"

section \<open>Status\<close>

record status_snapshot =
  ss_connection :: connection_state
  ss_active_node :: "node_summary option"
  ss_proxy_ready :: bool
  ss_queued_tests :: u64
  ss_running_tests :: u64
  ss_upstream_state :: upstream_state
  ss_last_refresh :: "refresh_info option"
  ss_lan_mode :: bool
  ss_tls_configured :: bool

definition active_node :: "bool \<Rightarrow> app_state \<Rightarrow> connection_state \<Rightarrow> node_summary option" where
  "active_node served s conn =
     Option.bind (connection_node_id conn) (\<lambda>node_id.
     Option.bind (find_node s node_id) (\<lambda>node.
       Some (summary node
         (case latest_test served node_id (test_store (tests s)) of Inl _ \<Rightarrow> None | Inr latest \<Rightarrow> latest))))"

definition status ::
    "(netd_request \<Rightarrow> netd_client_error + netd_response) \<Rightarrow> bool \<Rightarrow> bool \<Rightarrow> bool \<Rightarrow> app_state \<Rightarrow> status_snapshot" where
  "status netd served lan_mode tls_configured s =
     \<lparr>ss_connection = connection_state (connection s),
      ss_active_node = active_node served s (connection_state (connection s)),
      ss_proxy_ready = (active_worker (connection s) \<noteq> None),
      ss_queued_tests = queued_tests (tests s), ss_running_tests = running_tests (tests s),
      ss_upstream_state = (if is_ok (client_ping netd) then upstream_status s else NetdUnavailable),
      ss_last_refresh = last_refresh s, ss_lan_mode = lan_mode, ss_tls_configured = tls_configured\<rparr>"

definition is_ready :: "(netd_request \<Rightarrow> netd_client_error + netd_response) \<Rightarrow> bool \<Rightarrow> app_state \<Rightarrow> bool" where
  "is_ready netd served s \<longleftrightarrow>
     is_ok (client_ping netd) \<and> is_ok (health served) \<and> upstream_status s = UpstreamReady"

text \<open>One round of \<open>upstream_monitor\<close>, on the outcome of the probe.\<close>

definition upstream_round :: "datetime \<Rightarrow> probe_error + unit \<Rightarrow> app_state \<Rightarrow> app_state" where
  "upstream_round now probe s =
     (let next_state =
            (case probe of
               Inr _ \<Rightarrow> UpstreamReady
             | Inl ProbeAuthentication \<Rightarrow> AuthenticationFailed
             | Inl _ \<Rightarrow> Unreachable)
      in if upstream_status s \<noteq> next_state
         then emit (UpstreamEvent next_state now) (s\<lparr>upstream_status := next_state\<rparr>)
         else s)"

section \<open>Laws\<close>

lemma with_store_snd: "snd (with_store f s) = s\<lparr>tests := (tests s)\<lparr>test_store := snd (f (test_store (tests s)))\<rparr>\<rparr>"
  by (simp add: with_store_def case_prod_beta)

lemma cleanup_tests_eq:
  "\<exists>st. cleanup_tests env ids s = s\<lparr>tests := (tests s)\<lparr>test_store := st\<rparr>\<rparr>"
proof (cases "re_cutoff env")
  case None
  then have "cleanup_tests env ids s = s\<lparr>tests := (tests s)\<lparr>test_store := test_store (tests s)\<rparr>\<rparr>"
    by (simp add: cleanup_tests_def)
  then show ?thesis ..
qed (auto simp: cleanup_tests_def with_store_snd)

lemma refresh_nodes_success:
  assumes "\<not> refreshing s" and "re_snapshot env = Inr snap"
  shows "\<exists>st. refresh_nodes env s =
    (Inr (refresh_info_of (re_at env) (snap_stats snap)),
     s\<lparr>nodes := snap_nodes snap,
       last_refresh := Some (refresh_info_of (re_at env) (snap_stats snap)),
       tests := (observe_nodes (vn_id ` set (snap_nodes snap)) (tests s))
         \<lparr>test_store := st, automatic_test_triggered := True, auto_connect_triggered := True\<rparr>,
       events := events s @ [NodesRefreshed (accepted (snap_stats snap)) (rejected (snap_stats snap)) (re_at env)]\<rparr>)"
proof -
  let ?ids = "vn_id ` set (snap_nodes snap)"
  let ?s = "s\<lparr>refreshing := True, nodes := snap_nodes snap, tests := observe_nodes ?ids (tests s)\<rparr>"
  obtain st where "cleanup_tests env ?ids ?s = ?s\<lparr>tests := (tests ?s)\<lparr>test_store := st\<rparr>\<rparr>"
    using cleanup_tests_eq by blast
  then show ?thesis
    using assms
    by (intro exI [of _ st])
       (simp add: refresh_nodes_def refresh_nodes_inner_def Let_def emit_def trigger_auto_connect_def
         trigger_automatic_tests_def refresh_info_of_def)
qed

lemma refresh_round_bounds:
  assumes "retry \<le> refresh_interval" and "5000 \<le> refresh_interval" and "5000 \<le> retry"
  shows "fst (refresh_round refresh_interval now env (retry, s)) \<le> refresh_interval
    \<and> 5000 \<le> fst (snd (refresh_round refresh_interval now env (retry, s)))
    \<and> fst (snd (refresh_round refresh_interval now env (retry, s))) \<le> refresh_interval"
  using assms
  by (auto simp: refresh_round_def min_def split: prod.split sum.split service_error.split)

lemma or_insert_keys: "fst ` set (or_insert code name m) = insert code (fst ` set m)"
  by (induction code name m rule: or_insert.induct) auto

lemma or_insert_sorted: "sorted_wrt (<) (map fst m) \<Longrightarrow> sorted_wrt (<) (map fst (or_insert code name m))"
proof (induction code name m rule: or_insert.induct)
  case (2 code name c n rest)
  have "\<forall>y \<in> fst ` set (or_insert code name rest). c < y" if "c < code"
    unfolding or_insert_keys using 2(2) that by auto
  then show ?case using 2 by (cases code c rule: linorder_cases) (auto intro: order.strict_trans)
qed simp

lemma regions_sorted: "sorted_wrt (<) (map fst (auto_connect_regions up s))"
proof -
  have "sorted_wrt (<) (map fst m) \<Longrightarrow>
    sorted_wrt (<) (map fst (foldl (\<lambda>regions (code, name). or_insert code name regions) m xs))" for m xs
    by (induction xs arbitrary: m) (auto simp: or_insert_sorted)
  then show ?thesis by (simp add: auto_connect_regions_def)
qed

lemma manual_command_disables_policy:
  "\<not> ac_enabled (auto_connect (disable_auto_connect served s))"
  by (simp add: disable_auto_connect_def with_store_snd emit_def Let_def)

lemma policy_change:
  assumes "set_auto_connect_config up served config s = (Inr c, s')" and "normalized up c = Inr c"
  shows "auto_connect s' = c \<and> Storage.auto_connect_config up True (test_store (tests s')) = Inr c"
proof -
  obtain r st where save: "save_auto_connect_config served c (test_store (tests s)) = (r, st)"
    by (cases "save_auto_connect_config served c (test_store (tests s))")
  then have "r = Inr ()" "auto_connect s' = c" "test_store (tests s') = st"
    using assms(1)
    by (auto simp: set_auto_connect_config_def with_store_def trigger_auto_connect_def emit_def
        split: sum.splits prod.splits)
  with save policy_roundtrip [of served c "test_store (tests s)" up] assms(2) show ?thesis by simp
qed

section \<open>Properties of the service\<close>

text \<open>
  C26.  A refresh is all or nothing.  While one is running a second is refused and changes nothing;
  a failed download leaves the whole state as it was; a successful one installs exactly the
  parsed snapshot, keeps the connection, the policy and every test in flight, forgets finished
  tests only of nodes that left the list, and ends with the busy flag clear.
\<close>

theorem refresh_all_or_nothing:
  "case refresh_nodes env s of
     (Inl e, s') \<Rightarrow> s' = s \<and> (if refreshing s then e = RefreshBusy else \<exists>x. re_snapshot env = Inl x \<and> e = Refresh x)
   | (Inr info, s') \<Rightarrow>
       \<not> refreshing s \<and> \<not> refreshing s'
       \<and> (\<exists>snap. re_snapshot env = Inr snap \<and> nodes s' = snap_nodes snap \<and> last_refresh s' = Some info
           \<and> ri_accepted info = accepted (snap_stats snap)
           \<and> observed_nodes (registry (tests s')) = observed_nodes (registry (tests s)) \<inter> vn_id ` set (snap_nodes snap))
       \<and> connection s' = connection s \<and> auto_connect s' = auto_connect s
       \<and> all_jobs (tests s') = all_jobs (tests s)
       \<and> (\<forall>i n. in_flight (registry (tests s')) i n = in_flight (registry (tests s)) i n)"
proof (cases "refreshing s \<or> is_ok (re_snapshot env)")
  case False
  then show ?thesis
    by (cases "re_snapshot env") (simp_all add: refresh_nodes_def refresh_nodes_inner_def is_ok_def)
next
  case True
  show ?thesis
  proof (cases "refreshing s")
    case False
    with True obtain snap where snap: "re_snapshot env = Inr snap" by (cases "re_snapshot env") (simp_all add: is_ok_def)
    from refresh_nodes_success [OF False this] snap False show ?thesis
      by (auto simp: observe_nodes_def all_jobs_def refresh_info_of_def retain_observed_def in_flight_def)
  qed (simp add: refresh_nodes_def)
qed

end
