(* ===== verification/Mihomo.thy ===== *)
theory Mihomo
  imports Domain_Nodes Openvpn_Laws
begin

text \<open>
  The Mihomo proxy-provider of \<open>src/src/mihomo.rs\<close>: the crypto settings and inline blocks are
  read back from the rendered text of each sanitized profile and written as a YAML list.
\<close>

section \<open>Reading a rendered profile\<close>

definition profile_scalar :: "string \<Rightarrow> string \<Rightarrow> string option" where
  "profile_scalar profile directive =
     Option.bind
       (find (\<lambda>line. case split_once (CHR '' '') line of
                Some (name, _) \<Rightarrow> name = directive | None \<Rightarrow> False) (lines profile))
       (\<lambda>line. map_option snd (split_once (CHR '' '') line))"

fun after_line :: "string \<Rightarrow> string list \<Rightarrow> string list option" where
  "after_line opening [] = None"
| "after_line opening (l # ls) = (if l = opening then Some ls else after_line opening ls)"

fun until_line :: "string \<Rightarrow> string \<Rightarrow> string list \<Rightarrow> string option" where
  "until_line closing body [] = None"
| "until_line closing body (l # ls) =
     (if l = closing then (if body \<noteq> [] then Some body else None)
      else until_line closing (body @ l @ [nl]) ls)"

definition inline_block :: "string \<Rightarrow> string \<Rightarrow> string option" where
  "inline_block profile name =
     Option.bind (after_line (''<'' @ name @ ''>'') (lines profile))
       (until_line (''</'' @ name @ ''>'') [])"

definition is_mihomo_cipher :: "string \<Rightarrow> bool" where
  "is_mihomo_cipher value =
     List.member [''AES-CBC'', ''AES-128-CBC'', ''AES-192-CBC'', ''AES-256-CBC'', ''AES-128-GCM'',
       ''AES-192-GCM'', ''AES-256-GCM'', ''CHACHA20-POLY1305''] (to_ascii_uppercase value)"

definition is_mihomo_auth :: "string \<Rightarrow> bool" where
  "is_mihomo_auth value =
     List.member [''MD5'', ''SHA1'', ''SHA256'', ''SHA384'', ''SHA512''] (to_ascii_uppercase value)"

record mihomo_openvpn =
  mo_ca :: string
  mo_cert :: string
  mo_key :: string
  mo_tls_auth :: "string option"
  mo_tls_crypt :: "string option"
  mo_cipher :: "string option"
  mo_auth :: "string option"
  mo_data_ciphers :: "string list"
  mo_data_ciphers_fallback :: "string option"
  mo_key_direction :: "string option"

definition split_ciphers :: "string option \<Rightarrow> string list" where
  "split_ciphers value =
     (case value of
        None \<Rightarrow> []
      | Some v \<Rightarrow> filter (\<lambda>w. w \<noteq> []) (split_by (\<lambda>c. c = CHR '':'' \<or> c = CHR '','') v))"

definition from_sanitized :: "sanitized_openvpn \<Rightarrow> mihomo_openvpn option" where
  "from_sanitized profile =
     (let t = so_rendered profile;
          cipher = profile_scalar t ''cipher'';
          auth = profile_scalar t ''auth'';
          data_ciphers = split_ciphers (profile_scalar t ''data-ciphers'');
          fallback = profile_scalar t ''data-ciphers-fallback'';
          tls_auth = inline_block t ''tls-auth'';
          tls_crypt = inline_block t ''tls-crypt''
      in if is_some_and (\<lambda>v. \<not> is_mihomo_cipher v) cipher
            \<or> list_ex (\<lambda>v. \<not> is_mihomo_cipher v) data_ciphers
            \<or> is_some_and (\<lambda>v. \<not> is_mihomo_cipher v) fallback
            \<or> is_some_and (\<lambda>v. \<not> is_mihomo_auth v) auth
         then None
         else if is_some tls_auth \<and> is_some tls_crypt then None
         else Option.bind (inline_block t ''ca'') (\<lambda>ca.
              Option.bind (inline_block t ''cert'') (\<lambda>cert.
              Option.bind (inline_block t ''key'') (\<lambda>key.
              Some \<lparr>mo_ca = ca, mo_cert = cert, mo_key = key, mo_tls_auth = tls_auth,
                    mo_tls_crypt = tls_crypt, mo_cipher = cipher, mo_auth = auth,
                    mo_data_ciphers = data_ciphers, mo_data_ciphers_fallback = fallback,
                    mo_key_direction = profile_scalar t ''key-direction''\<rparr>))))"

section \<open>Rendering\<close>

definition push_optional_scalar :: "string \<Rightarrow> string \<Rightarrow> string option \<Rightarrow> string" where
  "push_optional_scalar output name value =
     (case value of
        None \<Rightarrow> output
      | Some v \<Rightarrow> output @ ''    '' @ name @ '': '' @ v @ [nl])"

definition push_block :: "string \<Rightarrow> string \<Rightarrow> string \<Rightarrow> string" where
  "push_block output name value =
     output @ ''    '' @ name @ '': |'' @ [nl]
     @ concat (map (\<lambda>line. ''      '' @ line @ [nl]) (lines value))"

definition push_optional_block :: "string \<Rightarrow> string \<Rightarrow> string option \<Rightarrow> string" where
  "push_optional_block output name value =
     (case value of None \<Rightarrow> output | Some v \<Rightarrow> push_block output name v)"

definition render_proxy :: "string \<Rightarrow> vpn_node \<Rightarrow> sanitized_openvpn \<Rightarrow> mihomo_openvpn \<Rightarrow> string" where
  "render_proxy output node openvpn profile =
     (let out = output @ ''  - name: vpngate-'' @ as_str (vn_id node)
            @ [nl] @ ''    type: openvpn'' @ [nl] @ ''    server: '' @ show_ipv4 (sock_ip (so_remote openvpn))
            @ [nl] @ ''    port: '' @ show_nat (unat (sock_port (so_remote openvpn)))
            @ [nl] @ ''    proto: tcp'' @ [nl] @ ''    dev: tun'' @ [nl];
          out = push_optional_scalar out ''cipher'' (mo_cipher profile);
          out = push_optional_scalar out ''auth'' (mo_auth profile);
          out = (if mo_data_ciphers profile \<noteq> []
                 then out @ ''    data-ciphers:'' @ [nl]
                   @ concat (map (\<lambda>cipher. ''      - '' @ cipher @ [nl]) (mo_data_ciphers profile))
                 else out);
          out = push_optional_scalar out ''data-ciphers-fallback'' (mo_data_ciphers_fallback profile);
          out = (case mo_key_direction profile of
                   None \<Rightarrow> out
                 | Some direction \<Rightarrow> out @ ''    key-direction: '' @ [CHR 0x22] @ direction @ [CHR 0x22] @ [nl]);
          out = push_block out ''ca'' (mo_ca profile);
          out = push_block out ''cert'' (mo_cert profile);
          out = push_block out ''key'' (mo_key profile);
          out = push_optional_block out ''tls-auth'' (mo_tls_auth profile);
          out = push_optional_block out ''tls-crypt'' (mo_tls_crypt profile)
      in out @ ''    remote-dns-resolve: true'' @ [nl] @ ''    dns: [1.1.1.1, 8.8.8.8]'' @ [nl])"

fun render_nodes :: "string \<Rightarrow> nat \<Rightarrow> vpn_node list \<Rightarrow> string \<times> nat" where
  "render_nodes output rendered [] = (output, rendered)"
| "render_nodes output rendered (node # nodes) =
     (case vn_openvpn node of
        None \<Rightarrow> render_nodes output rendered nodes
      | Some openvpn \<Rightarrow>
          (case from_sanitized openvpn of
             None \<Rightarrow> render_nodes output rendered nodes
           | Some profile \<Rightarrow>
               render_nodes
                 (render_proxy (if rendered = 0 then output @ [nl] else output) node openvpn profile)
                 (rendered + 1) nodes))"

definition render_provider :: "vpn_node list \<Rightarrow> string" where
  "render_provider nodes =
     (let (output, rendered) = render_nodes ''proxies:'' 0 nodes
      in if rendered = 0 then output @ '' []'' @ [nl] else output)"

section \<open>Laws\<close>

text \<open>The output is a list of entries; what the entries are is shown in the last section but one.\<close>

definition proxy_entry :: "vpn_node \<Rightarrow> string option" where
  "proxy_entry node =
     Option.bind (vn_openvpn node) (\<lambda>openvpn.
       map_option (render_proxy [] node openvpn) (from_sanitized openvpn))"

lemma push_append:
  "push_optional_scalar (a @ b) n v = a @ push_optional_scalar b n v"
  "push_block (a @ b) n w = a @ push_block b n w"
  "push_optional_block (a @ b) n v = a @ push_optional_block b n v"
  by (simp_all add: push_optional_scalar_def push_block_def push_optional_block_def split: option.splits)

lemma render_proxy_append: "render_proxy (a @ b) n p m = a @ render_proxy b n p m"
  unfolding render_proxy_def Let_def
  by (cases "mo_key_direction m"; cases "mo_data_ciphers m = []")
     (simp_all only: append_assoc push_append option.case if_True if_False simp_thms)

lemma render_nodes_entries:
  "render_nodes out k nodes =
     (let entries = List.map_filter proxy_entry nodes
      in (out @ (if k = 0 \<and> entries \<noteq> [] then [nl] else []) @ concat entries, k + length entries))"
proof (induction out k nodes rule: render_nodes.induct)
  case (2 out k node nodes)
  show ?case
  proof (cases "proxy_entry node")
    case None
    with 2 show ?thesis
      by (auto simp: proxy_entry_def List.map_filter_simps split: option.splits)
  next
    case (Some e)
    then obtain o1 m where o1: "vn_openvpn node = Some o1" "from_sanitized o1 = Some m" "e = render_proxy [] node o1 m"
      by (auto simp: proxy_entry_def bind_eq_Some_conv)
    have "render_proxy out' node o1 m = out' @ e" for out'
      using render_proxy_append [of out' "[]" node o1 m] o1 by simp
    with "2.IH"(3) [OF o1(1,2)] o1(1,2) Some show ?thesis by (simp add: List.map_filter_simps Let_def)
  qed
qed (simp add: List.map_filter_simps)

section \<open>Reading back what the sanitizer wrote\<close>

lemma after_line_append: "x \<notin> set a \<Longrightarrow> after_line x (a @ x # b) = Some b"
  by (induction a) auto

lemma after_line_None: "x \<notin> set ls \<Longrightarrow> after_line x ls = None"
  by (induction ls) auto

lemma until_line_append:
  "c \<notin> set a \<Longrightarrow> until_line c body (a @ ls) = until_line c (body @ unlines a) ls"
  by (induction a arbitrary: body) auto

lemma open_tag_not_directive: "directive_line l \<Longrightarrow> l \<noteq> open_tag name"
  by (auto simp: directive_line_def open_tag_def)

lemma open_tag_not_body:
  assumes "name \<in> set block_names" and "body_line_ok name' l"
  shows "l \<noteq> open_tag name"
  using assms block_tags [OF assms(1)] by (auto simp: body_line_ok_def trim_id)

lemma open_tag_elsewhere:
  assumes name: "name \<in> set block_names" and opts: "list_all safe_option options" and blocks: "blocks_ok blocks"
  shows "open_tag name \<notin> set (base_lines remote @ option_lines options)"
    and "name' \<noteq> name \<Longrightarrow> open_tag name \<notin> set (block_lines blocks name')"
proof -
  have "safe_option remote_cert_option" by (simp add: safe_option_def)
  with opts have "list_all safe_option (option_lines options)" by (simp add: option_lines_def)
  then have "open_tag name \<notin> set (option_lines options)"
    using safe_option_line(1) open_tag_not_directive by (auto simp: list_all_iff)
  moreover have "open_tag name \<notin> set (base_lines remote)" by (simp add: base_lines_def open_tag_def)
  ultimately show "open_tag name \<notin> set (base_lines remote @ option_lines options)" by simp
  assume "name' \<noteq> name"
  then have "open_tag name \<noteq> open_tag name'" "open_tag name \<noteq> close_tag name'"
    using block_tags(3) [OF name] by (auto simp: open_tag_def close_tag_def opening_block_def
        strip_prefix_def strip_suffix_def split: if_splits)
  with blocks name open_tag_not_body show "open_tag name \<notin> set (block_lines blocks name')"
    by (force simp: block_lines_def blocks_ok_def body_ok_def list_all_iff split: option.splits)
qed

lemma inline_block_rendered:
  assumes name: "name \<in> set block_names" and opts: "list_all safe_option options" and blocks: "blocks_ok blocks"
  shows "inline_block (render_profile remote options blocks) name = blocks name"
proof -
  from name obtain pre post where split: "block_names = pre @ name # post" by (meson split_list)
  have "distinct block_names" by (simp add: block_names_def)
  then have "distinct (pre @ name # post)" by (simp only: split)
  then have others: "name \<notin> set pre" "name \<notin> set post" by auto
  let ?pre = "base_lines remote @ option_lines options @ concat (map (block_lines blocks) pre)"
  let ?post = "concat (map (block_lines blocks) post)"
  have ls: "lines (render_profile remote options blocks) = ?pre @ block_lines blocks name @ ?post"
    unfolding render_profile_lines [OF blocks] line_end_ok [OF opts blocks] by (simp add: profile_lines_def split)
  have pre: "open_tag name \<notin> set ?pre" and post: "open_tag name \<notin> set ?post"
    using open_tag_elsewhere(1) [OF assms, of remote] open_tag_elsewhere(2) [OF assms] others
    by (auto, metis+)
  show ?thesis
  proof (cases "blocks name")
    case None
    then have "open_tag name \<notin> set (?pre @ block_lines blocks name @ ?post)"
      using pre post by (simp add: block_lines_def)
    then show ?thesis using None after_line_None
      unfolding inline_block_def ls open_tag_def by simp
  next
    case (Some body)
    with blocks have "body_ok name body" by (auto simp: blocks_ok_def)
    moreover have "trim (close_tag name) = close_tag name" using block_tags(2) [OF name] by (rule trim_id)
    moreover have "trim [] = []" by code_simp
    ultimately have body: "unlines (lines body) = body" "close_tag name \<notin> set (lines body)" "body \<noteq> []"
      by (auto simp: body_ok_def list_all_iff body_line_ok_def)
    have "after_line (open_tag name) (?pre @ block_lines blocks name @ ?post)
        = Some (lines body @ close_tag name # ?post)"
      using after_line_append [OF pre] Some by (simp add: block_lines_def)
    then show ?thesis
      unfolding inline_block_def ls
      using Some body until_line_append [OF body(2), of "[]" "close_tag name # ?post"]
      by (simp add: open_tag_def close_tag_def)
  qed
qed

section \<open>Properties of the provider\<close>

text \<open>
  What the provider promises, written down as lines and independently of the code: how a setting
  and a block are found in a profile, which profiles Mihomo can use, and the lines of an entry.
\<close>

definition setting :: "string \<Rightarrow> string \<Rightarrow> string option" where
  "setting t name =
     (case filter (\<lambda>l. take (length name + 1) l = name @ '' '') (lines t) of [] \<Rightarrow> None | l # _ \<Rightarrow> Some (drop (length name + 1) l))"

definition block_between :: "string \<Rightarrow> string \<Rightarrow> string list option" where
  "block_between t name =
     (let rest = tl (dropWhile (\<lambda>l. l \<noteq> ''<'' @ name @ ''>'') (lines t));
          body = takeWhile (\<lambda>l. l \<noteq> ''</'' @ name @ ''>'') rest
      in if body = [] \<or> body = rest then None else Some body)"

definition cipher_list :: "string \<Rightarrow> string list" where
  "cipher_list t =
     (case setting t ''data-ciphers'' of
        None \<Rightarrow> []
      | Some v \<Rightarrow> filter (\<lambda>w. 0 < length w) (split_on (CHR '':'') (map (\<lambda>c. if c = CHR '','' then CHR '':'' else c) v)))"

definition usable_cipher :: "string \<Rightarrow> bool" where
  "usable_cipher v \<longleftrightarrow>
     map ascii_upper v \<in> {''AES-CBC'', ''CHACHA20-POLY1305''}
       \<union> (\<Union>bits \<in> {''128'', ''192'', ''256''}. \<Union>mode \<in> {''CBC'', ''GCM''}. {''AES-'' @ bits @ ''-'' @ mode})"

definition usable_auth :: "string \<Rightarrow> bool" where
  "usable_auth v \<longleftrightarrow> map ascii_upper v \<in> {''MD5''} \<union> (\<Union>bits \<in> {''1'', ''256'', ''384'', ''512''}. {''SHA'' @ bits})"

definition compatible :: "string \<Rightarrow> bool" where
  "compatible t \<longleftrightarrow>
     pred_option usable_cipher (setting t ''cipher'') \<and> list_all usable_cipher (cipher_list t)
     \<and> pred_option usable_cipher (setting t ''data-ciphers-fallback'') \<and> pred_option usable_auth (setting t ''auth'')
     \<and> (block_between t ''tls-auth'' = None \<or> block_between t ''tls-crypt'' = None)
     \<and> block_between t ''ca'' \<noteq> None \<and> block_between t ''cert'' \<noteq> None \<and> block_between t ''key'' \<noteq> None"

definition entry_lines :: "node_id \<times> sanitized_openvpn \<Rightarrow> string list" where
  "entry_lines = (\<lambda>(i, p).
     let t = so_rendered p;
         given = (\<lambda>name. case setting t name of None \<Rightarrow> [] | Some v \<Rightarrow> [''    '' @ name @ '': '' @ v]);
         block = (\<lambda>name. case block_between t name of None \<Rightarrow> []
           | Some body \<Rightarrow> (''    '' @ name @ '': |'') # map (\<lambda>l. ''      '' @ l) (lines (unlines body)))
     in [''  - name: vpngate-'' @ as_str i, ''    type: openvpn'',
         ''    server: '' @ show_ipv4 (sock_ip (so_remote p)), ''    port: '' @ show_nat (unat (sock_port (so_remote p))),
         ''    proto: tcp'', ''    dev: tun''] @ given ''cipher'' @ given ''auth''
       @ (if cipher_list t = [] then [] else ''    data-ciphers:'' # map (\<lambda>c. ''      - '' @ c) (cipher_list t))
       @ given ''data-ciphers-fallback''
       @ (case setting t ''key-direction'' of None \<Rightarrow> []
          | Some v \<Rightarrow> [''    key-direction: '' @ [CHR 0x22] @ v @ [CHR 0x22]])
       @ block ''ca'' @ block ''cert'' @ block ''key'' @ block ''tls-auth'' @ block ''tls-crypt''
       @ [''    remote-dns-resolve: true'', ''    dns: [1.1.1.1, 8.8.8.8]''])"

definition offered :: "vpn_node \<Rightarrow> (node_id \<times> sanitized_openvpn) list" where
  "offered n =
     (case vn_openvpn n of None \<Rightarrow> [] | Some p \<Rightarrow> if compatible (so_rendered p) then [(vn_id n, p)] else [])"

lemma split_once_prefix:
  assumes "d \<notin> set name"
  shows "take (length name + 1) l = name @ [d] \<longleftrightarrow> (\<exists>v. split_once d l = Some (name, v))"
    and "split_once d l = Some (name, v) \<Longrightarrow> v = drop (length name + 1) l"
proof -
  have *: "split_once d (name @ d # r) = Some (name, r)" for r using assms by (induction name) (auto simp: split_once_def)
  have l: "l = a @ d # v" if "split_once d l = Some (a, v)" for a v
    using that takeWhile_dropWhile_id [of "\<lambda>c. c \<noteq> d" l] hd_dropWhile [of "\<lambda>c. c \<noteq> d" l]
    by (cases "dropWhile (\<lambda>c. c \<noteq> d) l") (auto simp: split_once_def dropWhile_eq_Nil_conv split: if_splits)
  have "\<exists>v. split_once d l = Some (name, v)" if "take (length name + 1) l = name @ [d]"
    using * [of "drop (length name + 1) l"] append_take_drop_id [of "length name + 1" l] unfolding that by auto
  then show "take (length name + 1) l = name @ [d] \<longleftrightarrow> (\<exists>v. split_once d l = Some (name, v))"
    using l by fastforce
  show "split_once d l = Some (name, v) \<Longrightarrow> v = drop (length name + 1) l" using l by auto
qed

lemma setting_scalar:
  assumes "CHR '' '' \<notin> set name"
  shows "profile_scalar t name = setting t name"
proof -
  have "Option.bind (find (\<lambda>line. case split_once (CHR '' '') line of Some (n, _) \<Rightarrow> n = name | None \<Rightarrow> False) ls)
      (\<lambda>line. map_option snd (split_once (CHR '' '') line))
    = (case filter (\<lambda>l. take (length name + 1) l = name @ '' '') ls of [] \<Rightarrow> None | l # _ \<Rightarrow> Some (drop (length name + 1) l))" for ls
    using split_once_prefix [OF assms] by (induction ls) (auto split: option.splits)
  then show ?thesis by (simp add: profile_scalar_def setting_def)
qed

lemma until_line_between:
  "until_line c acc ls = (let body = takeWhile (\<lambda>l. l \<noteq> c) ls
     in if acc @ unlines body = [] \<or> body = ls then None else Some (acc @ unlines body))"
  by (induction c acc ls rule: until_line.induct) (auto simp: Let_def)

lemma after_line_between: "after_line x ls = (if x \<in> set ls then Some (tl (dropWhile (\<lambda>l. l \<noteq> x) ls)) else None)"
  by (induction ls) auto

lemma inline_block_between: "inline_block t name = map_option unlines (block_between t name)"
proof (cases "''<'' @ name @ ''>'' \<in> set (lines t)")
  case True
  have empty: "unlines ls = [] \<longleftrightarrow> ls = []" for ls by (cases ls) auto
  show ?thesis
    unfolding inline_block_def after_line_between until_line_between block_between_def Let_def append_Nil empty
    using True by (simp only: if_True bind.simps) (simp only: option.map if_distrib [of "map_option unlines"])
next
  case False
  then have "dropWhile (\<lambda>l. l \<noteq> ''<'' @ name @ ''>'') (lines t) = []" by auto
  then have "block_between t name = None" by (simp only: block_between_def Let_def) simp
  moreover have "inline_block t name = None"
    unfolding inline_block_def after_line_between using False by (simp only: if_False bind.simps)
  ultimately show ?thesis by simp
qed

lemma split_ciphers_list: "split_ciphers (setting t ''data-ciphers'') = cipher_list t"
proof -
  have "split_on (CHR '':'') (map (\<lambda>c. if c = CHR '','' then CHR '':'' else c) v)
      = split_by (\<lambda>c. c = CHR '':'' \<or> c = CHR '','') v" for v
    unfolding split_on_def by (induction v) (auto split: list.split)
  then show ?thesis by (simp add: split_ciphers_def cipher_list_def split: option.split)
qed

lemma usable_iff: "is_mihomo_cipher = usable_cipher" "is_mihomo_auth = usable_auth"
  by (intro ext; auto simp: is_mihomo_cipher_def usable_cipher_def is_mihomo_auth_def usable_auth_def
      to_ascii_uppercase_def)+

lemma from_sanitized_compatible:
  "from_sanitized p =
     (let t = so_rendered p; block = (\<lambda>name. map_option unlines (block_between t name))
      in if compatible t
         then Some \<lparr>mo_ca = the (block ''ca''), mo_cert = the (block ''cert''), mo_key = the (block ''key''),
           mo_tls_auth = block ''tls-auth'', mo_tls_crypt = block ''tls-crypt'', mo_cipher = setting t ''cipher'',
           mo_auth = setting t ''auth'', mo_data_ciphers = cipher_list t,
           mo_data_ciphers_fallback = setting t ''data-ciphers-fallback'', mo_key_direction = setting t ''key-direction''\<rparr>
         else None)"
proof -
  have "is_some_and P x \<longleftrightarrow> \<not> pred_option (\<lambda>v. \<not> P v) x" for P and x :: "string option"
    by (cases x) (simp_all add: is_some_and_def)
  then show ?thesis
    unfolding from_sanitized_def Let_def inline_block_between usable_iff
    by (auto simp: setting_scalar split_ciphers_list compatible_def list_all_iff list_ex_iff is_some_def split: option.splits)
qed

lemma push_lines:
  "push_optional_scalar out name v = out @ unlines (case v of None \<Rightarrow> [] | Some v \<Rightarrow> [''    '' @ name @ '': '' @ v])"
  "push_block out name w = out @ unlines ((''    '' @ name @ '': |'') # map (\<lambda>l. ''      '' @ l) (lines w))"
  "push_optional_block out name (map_option unlines b) = out @ unlines (case b of None \<Rightarrow> []
     | Some body \<Rightarrow> (''    '' @ name @ '': |'') # map (\<lambda>l. ''      '' @ l) (lines (unlines body)))"
  by (simp_all add: push_optional_scalar_def push_block_def push_optional_block_def unlines_def comp_def split: option.split)

lemma render_entry:
  assumes "compatible (so_rendered p)" and "from_sanitized p = Some m"
  shows "render_proxy [] n p m = unlines (entry_lines (vn_id n, p))"
proof -
  obtain ca cert key where blocks: "block_between (so_rendered p) ''ca'' = Some ca"
    "block_between (so_rendered p) ''cert'' = Some cert" "block_between (so_rendered p) ''key'' = Some key"
    using assms(1) by (auto simp: compatible_def)
  have list: "(if cs \<noteq> [] then out @ ''    data-ciphers:'' @ [nl] @ concat (map (\<lambda>c. ''      - '' @ c @ [nl]) cs) else out)
      = out @ unlines (if cs = [] then [] else ''    data-ciphers:'' # map (\<lambda>c. ''      - '' @ c) cs)" for out and cs :: "string list"
    by (simp add: unlines_def comp_def)
  have direction: "(case v of None \<Rightarrow> out | Some d \<Rightarrow> out @ ''    key-direction: '' @ [CHR 0x22] @ d @ [CHR 0x22] @ [nl])
      = out @ unlines (case v of None \<Rightarrow> [] | Some d \<Rightarrow> [''    key-direction: '' @ [CHR 0x22] @ d @ [CHR 0x22]])" for out v
    by (simp split: option.split)
  have m: "m = \<lparr>mo_ca = unlines ca, mo_cert = unlines cert, mo_key = unlines key,
      mo_tls_auth = map_option unlines (block_between (so_rendered p) ''tls-auth''),
      mo_tls_crypt = map_option unlines (block_between (so_rendered p) ''tls-crypt''),
      mo_cipher = setting (so_rendered p) ''cipher'', mo_auth = setting (so_rendered p) ''auth'',
      mo_data_ciphers = cipher_list (so_rendered p),
      mo_data_ciphers_fallback = setting (so_rendered p) ''data-ciphers-fallback'',
      mo_key_direction = setting (so_rendered p) ''key-direction''\<rparr>"
    using assms blocks by (simp add: from_sanitized_compatible Let_def)
  show ?thesis
    unfolding m render_proxy_def entry_lines_def Let_def mihomo_openvpn.simps list direction push_lines blocks
      prod.case option.case unlines_simps append_assoc by simp
qed

lemma proxy_entry_offered:
  "List.map_filter proxy_entry nodes = map (unlines \<circ> entry_lines) (concat (map offered nodes))"
proof (induction nodes)
  case (Cons n nodes)
  have "proxy_entry n = (case offered n of [] \<Rightarrow> None | e # _ \<Rightarrow> Some (unlines (entry_lines e)))"
    using render_entry [of _ _ n]
    by (auto simp: proxy_entry_def offered_def from_sanitized_compatible Let_def split: option.split)
  then show ?case using Cons by (auto simp: List.map_filter_simps offered_def split: option.splits if_splits)
qed (simp add: List.map_filter_simps)

text \<open>
  C35.  The Mihomo provider is exactly this YAML list: one entry for every node whose profile Mihomo
  can use (every cipher and digest it names is supported, whatever the case of its letters, the
  three certificate blocks are there, and not both kinds of TLS key), in the order of the list,
  with the lines of \<open>entry_lines\<close>: name, server and port of the sanitized remote, the settings the
  profile has, and its blocks indented; with no such node it is the empty list.
\<close>

theorem render_provider_entries:
  "render_provider nodes =
     (let entries = concat (map offered nodes)
      in unlines (if entries = [] then [''proxies: []''] else ''proxies:'' # concat (map entry_lines entries)))"
proof -
  have "unlines (concat (map entry_lines es)) = concat (map (unlines \<circ> entry_lines) es)" for es
    by (induction es) auto
  then show ?thesis
    by (simp add: render_provider_def render_nodes_entries proxy_entry_offered Let_def)
qed

text \<open>
  The inline blocks read back from an accepted profile are the ones the sanitizer kept:
  reading a block of the rendered text returns its stored body, and nothing for an absent block.
\<close>

lemma inline_block_of_sanitized:
  assumes "sanitize_openvpn blake3 input ip = Inr p"
  shows "\<exists>blocks. blocks_ok blocks \<and> {''ca'', ''cert'', ''key''} \<subseteq> dom blocks
    \<and> list_all (\<lambda>name. inline_block (so_rendered p) name = blocks name) block_names"
  using assms
proof (rule sanitize_parsed)
  fix st
  assume st: "state_ok ip st" "\<forall>name \<in> {''ca'', ''cert'', ''key''}. ps_blocks st name \<noteq> None"
    "so_rendered p = render_profile (so_remote p) (ps_options st) (ps_blocks st)"
  then have ok: "list_all safe_option (ps_options st)" "blocks_ok (ps_blocks st)"
    by (simp_all add: state_ok_def)
  then have "list_all (\<lambda>name. inline_block (so_rendered p) name = ps_blocks st name) block_names"
    using inline_block_rendered [OF _ ok] by (simp add: st(3) list_all_iff)
  with ok st(2) show ?thesis by blast
qed

section \<open>A limit of reading settings back\<close>

text \<open>
  \<open>scalar\<close> searches every line of the rendered profile, the bodies of inline blocks included.
  When the profile has no such option, a line of a certificate block is taken for one, and a
  \<open>key-direction\<close> value taken this way is not validated before it is written between quotes.
\<close>

definition quoted_ca :: "string list" where
  "quoted_ca = [''A'', ''key-direction 1'' @ [CHR 0x22] @ '' # x'']"

text \<open>
  Settings are also read from certificate bodies.  For an accepted profile without a
  \<open>key-direction\<close> option, a body line of the \<open>ca\<close> block supplies its value, quote included.
\<close>

lemma scalar_from_block_body:
  "sanitize_openvpn id (as_bytes (sample_profile quoted_ca)) (Ipv4Addr 1 2 3 4)
     = Inr (sample_sanitized id quoted_ca)
   \<and> profile_scalar (so_rendered (sample_sanitized id quoted_ca)) ''key-direction''
     = Some (''1'' @ [CHR 0x22] @ '' # x'')"
proof
  have ls: "lines (unlines quoted_ca) = quoted_ca" "trim (unlines quoted_ca) \<noteq> []"
    "list_all utf8_str quoted_ca"
    "list_all (\<lambda>l. trim l \<noteq> close_tag ''ca'' \<and> opening_block (trim l) = None) quoted_ca" by code_simp+
  then have ok: "body_ok ''ca'' (unlines quoted_ca)"
    unfolding body_ok_def ls body_line_ok_def MAX_BLOCK_BYTES_def MAX_LINE_BYTES_def
    by (simp add: quoted_ca_def)
  have len: "length (unlines quoted_ca) \<le> 1000" by (simp add: quoted_ca_def)
  show "sanitize_openvpn id (as_bytes (sample_profile quoted_ca)) (Ipv4Addr 1 2 3 4)
     = Inr (sample_sanitized id quoted_ca)" by (rule sanitize_sample [OF ok len])
  note blocks = sample_blocks_ok [OF ok]
  have "lines (sample_profile quoted_ca) = profile_lines sample_remote sample_options (sample_blocks quoted_ca)"
    unfolding sample_profile_def render_profile_lines [OF blocks]
    by (rule line_end_ok [OF sample_options_ok(1) blocks])
  then show "profile_scalar (so_rendered (sample_sanitized id quoted_ca)) ''key-direction''
     = Some (''1'' @ [CHR 0x22] @ '' # x'')"
    using ls(1)
    by (simp add: profile_scalar_def sample_sanitized_def profile_lines_def base_lines_def option_lines_def
        sample_options_def remote_cert_option_def block_names_def block_lines_def sample_blocks_def
        open_tag_def close_tag_def split_once_def quoted_ca_def)
qed

end
