(* ===== verification/App_Config.thy ===== *)
theory App_Config
  imports Socks Domain_Nodes
begin

text \<open>
  Startup configuration, \<open>src/src/config.rs\<close>.  The process environment and the secret files it
  names are a record of functions; the textual parsers of IPv6 socket addresses and of URLs are
  arguments of the functions that use them.  An error keeps its kind and the variable it names,
  not the explanatory text.
\<close>

section \<open>Data\<close>

datatype socket_addr = V4 socket_addr_v4 | V6 "128 word" u16

record url =
  url_scheme :: string
  url_text :: string

record tls_config =
  tls_certificate :: string
  tls_private_key :: string

record app_config =
  web_bind :: socket_addr
  socks_bind :: socket_addr
  database_url :: string
  runtime_dir :: string
  netd_socket :: string
  web_dist_dir :: string
  vpngate_url :: url
  ippure_url :: url
  upstream :: upstream_endpoint
  refresh_interval :: nat
  connect_timeout :: nat
  ippure_timeout :: nat
  max_parallel_tests :: nat
  lan_mode :: bool
  container_bind :: bool
  web_credentials :: "credentials option"
  socks_credentials :: "credentials option"
  tls :: "tls_config option"
  unprivileged_uid :: nat
  unprivileged_gid :: nat
  openvpn_uid :: nat

datatype config_error = Missing string | Invalid string | LanCredential string

text \<open>
  \<open>env_var\<close> is \<open>env::var(name).ok()\<close>; \<open>file_len\<close> and \<open>file_text\<close> are
  \<open>metadata(path).len()\<close> and \<open>read_to_string(path)\<close> where they succeed.
\<close>

record process_env =
  env_var :: "string \<Rightarrow> string option"
  file_len :: "string \<Rightarrow> nat option"
  file_text :: "string \<Rightarrow> string option"

section \<open>Socket addresses\<close>

definition parse_port :: "string \<Rightarrow> u16 option" where
  "parse_port s =
     (if s \<noteq> [] \<and> list_all is_ascii_digit s \<and> dec_value s \<le> 65535 then Some (of_nat (dec_value s)) else None)"

definition parse_socket_v4 :: "string \<Rightarrow> socket_addr_v4 option" where
  "parse_socket_v4 s =
     Option.bind (split_once (CHR '':'') s) (\<lambda>(ip, port).
     Option.bind (parse_ipv4 ip) (\<lambda>ip.
     map_option (\<lambda>port. \<lparr>sock_ip = ip, sock_port = port\<rparr>) (parse_port port)))"

definition parse_socket_addr :: "(string \<Rightarrow> (128 word \<times> u16) option) \<Rightarrow> string \<Rightarrow> socket_addr option" where
  "parse_socket_addr parse_v6 s =
     (case parse_socket_v4 s of
        Some a \<Rightarrow> Some (V4 a)
      | None \<Rightarrow> map_option (\<lambda>(ip, port). V6 ip port) (parse_v6 s))"

fun is_loopback :: "socket_addr \<Rightarrow> bool" where
  "is_loopback (V4 a) \<longleftrightarrow> first_octet (sock_ip a) = 127"
| "is_loopback (V6 ip port) \<longleftrightarrow> ip = 1"

fun is_unspecified :: "socket_addr \<Rightarrow> bool" where
  "is_unspecified (V4 a) \<longleftrightarrow> sock_ip a = Ipv4Addr 0 0 0 0"
| "is_unspecified (V6 ip port) \<longleftrightarrow> ip = 0"

section \<open>Reading variables\<close>

definition required :: "process_env \<Rightarrow> string \<Rightarrow> config_error + string" where
  "required env name = ok_or (Missing name) (option_filter (\<lambda>v. v \<noteq> []) (env_var env name))"

definition env_or :: "process_env \<Rightarrow> string \<Rightarrow> string \<Rightarrow> string" where
  "env_or env name fallback = (case env_var env name of None \<Rightarrow> fallback | Some v \<Rightarrow> v)"

definition parse_or :: "(string \<Rightarrow> 'a option) \<Rightarrow> process_env \<Rightarrow> string \<Rightarrow> string \<Rightarrow> config_error + 'a" where
  "parse_or from_str env name fallback = ok_or (Invalid name) (from_str (env_or env name fallback))"

definition parse_url :: "(string \<Rightarrow> url option) \<Rightarrow> process_env \<Rightarrow> string \<Rightarrow> string \<Rightarrow> config_error + url" where
  "parse_url url_parse env name fallback =
     and_then (ok_or (Invalid name) (url_parse (env_or env name fallback))) (\<lambda>url.
     and_then (ensure (url_scheme url = ''https'') (Invalid name)) (\<lambda>_. Inr url))"

definition bool_from_str :: "string \<Rightarrow> bool option" where
  "bool_from_str v = (if v = ''true'' then Some True else if v = ''false'' then Some False else None)"

definition parse_bool :: "process_env \<Rightarrow> string \<Rightarrow> bool \<Rightarrow> config_error + bool" where
  "parse_bool env name fallback =
     (case env_var env name of Some v \<Rightarrow> ok_or (Invalid name) (bool_from_str v) | None \<Rightarrow> Inr fallback)"

definition parse_u64_in :: "process_env \<Rightarrow> string \<Rightarrow> nat \<Rightarrow> nat \<Rightarrow> nat \<Rightarrow> config_error + nat" where
  "parse_u64_in env name fallback minimum maximum =
     and_then (case env_var env name of
         Some v \<Rightarrow> ok_or (Invalid name) (parse_u64 v)
       | None \<Rightarrow> Inr fallback) (\<lambda>value.
     and_then (ensure (minimum \<le> value \<and> value \<le> maximum) (Invalid name)) (\<lambda>_. Inr value))"

definition read_secret_file :: "process_env \<Rightarrow> string \<Rightarrow> string \<Rightarrow> config_error + string" where
  "read_secret_file env name path =
     and_then (ok_or (Invalid name) (file_len env path)) (\<lambda>len.
     and_then (ensure (len \<le> 16 * 1024) (Invalid name)) (\<lambda>_.
     and_then (ok_or (Invalid name) (file_text env path)) (\<lambda>value.
     Inr (trim_end_matches (\<lambda>c. c \<in> {cr, nl}) value))))"

definition config_value :: "process_env \<Rightarrow> string \<Rightarrow> config_error + string option" where
  "config_value env name =
     (case (env_var env name, env_var env (name @ ''_FILE'')) of
        (Some _, Some _) \<Rightarrow> Inl (Invalid name)
      | (Some value, None) \<Rightarrow> Inr (option_filter (\<lambda>v. v \<noteq> []) (Some value))
      | (None, Some path) \<Rightarrow>
          and_then (read_secret_file env name path) (\<lambda>value. Inr (option_filter (\<lambda>v. v \<noteq> []) (Some value)))
      | (None, None) \<Rightarrow> Inr None)"

definition valid_listener_credential :: "string \<Rightarrow> bool" where
  "valid_listener_credential value \<longleftrightarrow>
     value \<noteq> [] \<and> length value \<le> 255 \<and> \<not> list_ex (\<lambda>c. c \<in> {nul, cr, nl}) value"

definition credentials_from_env ::
    "process_env \<Rightarrow> bool \<Rightarrow> string \<Rightarrow> string \<Rightarrow> config_error + credentials option" where
  "credentials_from_env env required_in_lan_mode user_name password_name =
     and_then (config_value env user_name) (\<lambda>username.
     and_then (config_value env password_name) (\<lambda>password.
     (case (username, password) of
        (Some u, Some p) \<Rightarrow>
          if valid_listener_credential u \<and> valid_listener_credential p
          then Inr (Some \<lparr>cr_username = u, cr_password = SecretString p\<rparr>)
          else Inl (Invalid user_name)
      | (None, None) \<Rightarrow> if \<not> required_in_lan_mode then Inr None else Inl (LanCredential user_name)
      | _ \<Rightarrow> Inl (Invalid user_name))))"

definition parse_upstream_authority :: "string \<Rightarrow> config_error + string \<times> u16" where
  "parse_upstream_authority value =
     and_then (ok_or (Invalid ''VPNGATE2SOCKS_UPSTREAM'') (rsplit_once (CHR '':'') value)) (\<lambda>(host, port).
     and_then (ensure (\<not> (host = [] \<or> CHR '':'' \<in> set host \<or> starts_with ''['' host \<or> ends_with '']'' host))
       (Invalid ''VPNGATE2SOCKS_UPSTREAM'')) (\<lambda>_.
     and_then (ok_or (Invalid ''VPNGATE2SOCKS_UPSTREAM'') (parse_u16 port)) (\<lambda>port.
     and_then (ensure (port \<noteq> 0) (Invalid ''VPNGATE2SOCKS_UPSTREAM'')) (\<lambda>_.
     Inr (host, of_nat port)))))"

section \<open>Paths\<close>

datatype path_component = RootDir | CurDir | ParentDir | NormalDir string

fun component_of :: "string \<Rightarrow> path_component option" where
  "component_of s = (if s = [] \<or> s = ''.'' then None else if s = ''..'' then Some ParentDir else Some (NormalDir s))"

definition components :: "string \<Rightarrow> path_component list" where
  "components path =
     (let parts = split_on (CHR ''/'') path
      in (if starts_with ''/'' path then [RootDir] else if hd parts = ''.'' then [CurDir] else [])
         @ List.map_filter component_of parts)"

fun is_normal :: "path_component \<Rightarrow> bool" where
  "is_normal (NormalDir _) = True"
| "is_normal _ = False"

definition validate_runtime_dir :: "string \<Rightarrow> config_error + unit" where
  "validate_runtime_dir path =
     ensure
       (\<not> (\<not> starts_with ''/'' path
           \<or> length (filter is_normal (components path)) < 2
           \<or> \<not> list_all (\<lambda>c. c = RootDir \<or> is_normal c) (components path)
           \<or> 48 < length path
           \<or> \<not> list_all (\<lambda>c. is_ascii_alphanumeric c \<or> c \<in> {CHR ''/'', CHR ''.'', CHR ''_'', CHR ''-''}) path))
       (Invalid ''VPNGATE2SOCKS_RUNTIME_DIR'')"

definition path_join :: "string \<Rightarrow> string \<Rightarrow> string" where
  "path_join dir name = (if ends_with ''/'' dir then dir @ name else dir @ ''/'' @ name)"

section \<open>The configuration\<close>

text \<open>The parts of \<open>from_env\<close>, in the order of the source.\<close>

record listeners =
  ls_web :: socket_addr
  ls_socks :: socket_addr
  ls_lan :: bool
  ls_container :: bool

definition listeners_from_env ::
    "(string \<Rightarrow> (128 word \<times> u16) option) \<Rightarrow> process_env \<Rightarrow> config_error + listeners" where
  "listeners_from_env parse_v6 env =
     and_then (parse_or (parse_socket_addr parse_v6) env ''VPNGATE2SOCKS_WEB_BIND'' ''127.0.0.1:8080'') (\<lambda>web.
     and_then (parse_or (parse_socket_addr parse_v6) env ''VPNGATE2SOCKS_SOCKS_BIND'' ''127.0.0.1:1080'') (\<lambda>socks.
     and_then (parse_bool env ''VPNGATE2SOCKS_LAN_MODE'' False) (\<lambda>lan.
     and_then (parse_bool env ''VPNGATE2SOCKS_CONTAINER_BIND'' False) (\<lambda>container.
     and_then (ensure (\<not> (\<not> lan \<and> \<not> container \<and> (\<not> is_loopback web \<or> \<not> is_loopback socks)))
       (Invalid ''listener address'')) (\<lambda>_.
     and_then (ensure (\<not> (container \<and> (\<not> is_unspecified web \<or> \<not> is_unspecified socks)))
       (Invalid ''container listener address'')) (\<lambda>_.
     Inr \<lparr>ls_web = web, ls_socks = socks, ls_lan = lan, ls_container = container\<rparr>))))))"

definition upstream_from_env :: "process_env \<Rightarrow> config_error + upstream_endpoint" where
  "upstream_from_env env =
     and_then (required env ''VPNGATE2SOCKS_UPSTREAM'') (\<lambda>authority.
     and_then (parse_upstream_authority authority) (\<lambda>(host, port).
     and_then (config_value env ''VPNGATE2SOCKS_UPSTREAM_USER'') (\<lambda>user.
     and_then (config_value env ''VPNGATE2SOCKS_UPSTREAM_PASSWORD'') (\<lambda>password.
     map_err (\<lambda>_. Invalid ''VPNGATE2SOCKS_UPSTREAM'')
       (new_host host port user (map_option SecretString password))))))"

definition tls_from_env :: "process_env \<Rightarrow> config_error + tls_config option" where
  "tls_from_env env =
     (case (env_var env ''VPNGATE2SOCKS_TLS_CERT'', env_var env ''VPNGATE2SOCKS_TLS_KEY'') of
        (Some c, Some k) \<Rightarrow> Inr (Some \<lparr>tls_certificate = c, tls_private_key = k\<rparr>)
      | (None, None) \<Rightarrow> Inr None
      | _ \<Rightarrow> Inl (Invalid ''TLS configuration''))"

definition ids_from_env :: "process_env \<Rightarrow> config_error + nat \<times> nat \<times> nat" where
  "ids_from_env env =
     and_then (parse_u64_in env ''VPNGATE2SOCKS_UNPRIVILEGED_UID'' 10001 1 4294967295) (\<lambda>uid.
     and_then (parse_u64_in env ''VPNGATE2SOCKS_UNPRIVILEGED_GID'' 10001 1 4294967295) (\<lambda>gid.
     and_then (parse_u64_in env ''VPNGATE2SOCKS_OPENVPN_UID'' 10002 1 4294967295) (\<lambda>openvpn.
     and_then (ensure (openvpn \<noteq> uid) (Invalid ''VPNGATE2SOCKS_OPENVPN_UID'')) (\<lambda>_.
     Inr (uid, gid, openvpn)))))"

text \<open>The fields of the final record that are still fallible.\<close>

record limits =
  li_vpngate_url :: url
  li_ippure_url :: url
  li_refresh :: nat
  li_connect :: nat
  li_ippure :: nat
  li_parallel :: nat

definition limits_from_env :: "(string \<Rightarrow> url option) \<Rightarrow> process_env \<Rightarrow> config_error + limits" where
  "limits_from_env url_parse env =
     and_then (parse_url url_parse env ''VPNGATE2SOCKS_VPNGATE_URL'' ''https://www.vpngate.net/api/iphone/'') (\<lambda>gate.
     and_then (parse_url url_parse env ''VPNGATE2SOCKS_IPPURE_URL'' ''https://my.ippure.com/v1/info'') (\<lambda>ippure.
     and_then (parse_u64_in env ''VPNGATE2SOCKS_REFRESH_SECONDS'' 600 30 86400) (\<lambda>refresh.
     and_then (parse_u64_in env ''VPNGATE2SOCKS_CONNECT_TIMEOUT_SECONDS'' 45 5 300) (\<lambda>timeout.
     and_then (parse_u64_in env ''VPNGATE2SOCKS_IPPURE_TIMEOUT_SECONDS'' 15 1 120) (\<lambda>ippure_t.
     and_then (parse_u64_in env ''VPNGATE2SOCKS_MAX_PARALLEL_TESTS'' 3 1 32) (\<lambda>parallel.
     Inr \<lparr>li_vpngate_url = gate, li_ippure_url = ippure, li_refresh = refresh, li_connect = timeout,
          li_ippure = ippure_t, li_parallel = parallel\<rparr>))))))"

definition from_env ::
    "(string \<Rightarrow> (128 word \<times> u16) option) \<Rightarrow> (string \<Rightarrow> url option) \<Rightarrow> process_env \<Rightarrow> config_error + app_config" where
  "from_env parse_v6 url_parse env =
     and_then (listeners_from_env parse_v6 env) (\<lambda>ls.
     and_then (upstream_from_env env) (\<lambda>up.
     let dir = env_or env ''VPNGATE2SOCKS_RUNTIME_DIR'' ''/run/vpngate2socks'' in
     and_then (validate_runtime_dir dir) (\<lambda>_.
     and_then (credentials_from_env env (ls_lan ls) ''VPNGATE2SOCKS_WEB_USER'' ''VPNGATE2SOCKS_WEB_PASSWORD'') (\<lambda>web.
     and_then (credentials_from_env env (ls_lan ls) ''VPNGATE2SOCKS_SOCKS_USER'' ''VPNGATE2SOCKS_SOCKS_PASSWORD'') (\<lambda>socks.
     and_then (tls_from_env env) (\<lambda>tls_pair.
     and_then (ids_from_env env) (\<lambda>ids.
     and_then (limits_from_env url_parse env) (\<lambda>li.
     Inr \<lparr>web_bind = ls_web ls, socks_bind = ls_socks ls,
          database_url = env_or env ''VPNGATE2SOCKS_DATABASE_URL'' ''sqlite:///var/lib/vpngate2socks/state.db?mode=rwc'',
          runtime_dir = dir, netd_socket = path_join dir ''netd.sock'',
          web_dist_dir = env_or env ''VPNGATE2SOCKS_WEB_DIST'' ''/opt/vpngate2socks/web'',
          vpngate_url = li_vpngate_url li, ippure_url = li_ippure_url li, upstream = up,
          refresh_interval = li_refresh li, connect_timeout = li_connect li, ippure_timeout = li_ippure li,
          max_parallel_tests = li_parallel li, lan_mode = ls_lan ls, container_bind = ls_container ls,
          web_credentials = web, socks_credentials = socks, tls = tls_pair, unprivileged_uid = fst ids,
          unprivileged_gid = fst (snd ids), openvpn_uid = snd (snd ids)\<rparr>))))))))"

section \<open>Laws\<close>

lemma and_thenE:
  assumes "and_then r f = Inr y" obtains x where "r = Inr x" "f x = Inr y"
  using assms by (auto simp: and_then_eq_Inr)

lemma listeners_bound:
  assumes "listeners_from_env v6 env = Inr ls"
  shows "ls_lan ls \<or> ls_container ls \<or> is_loopback (ls_web ls) \<and> is_loopback (ls_socks ls)"
    and "ls_container ls \<Longrightarrow> is_unspecified (ls_web ls) \<and> is_unspecified (ls_socks ls)"
  using assms by (auto simp: listeners_from_env_def result_simps)

lemma parse_u64_in_range: "parse_u64_in env n d lo hi = Inr v \<Longrightarrow> lo \<le> v \<and> v \<le> hi"
  by (auto simp: parse_u64_in_def result_simps)

lemma parse_url_https: "parse_url p env n d = Inr u \<Longrightarrow> url_scheme u = ''https''"
  by (auto simp: parse_url_def result_simps)

definition credential_text :: "string \<Rightarrow> bool" where
  "credential_text v \<longleftrightarrow> length v \<in> {1..255} \<and> set v \<inter> {CHR 0x00, CHR 0x0A, CHR 0x0D} = {}"

definition credential_ok :: "credentials \<Rightarrow> bool" where
  "credential_ok c \<longleftrightarrow> credential_text (cr_username c) \<and> credential_text (expose (cr_password c))"

lemma valid_credential_text: "valid_listener_credential v \<Longrightarrow> credential_text v"
  by (cases v) (auto simp: valid_listener_credential_def credential_text_def list_ex_iff)

lemma credentials_checked:
  assumes "credentials_from_env env lan u p = Inr c"
  shows "pred_option credential_ok c" and "lan \<Longrightarrow> c \<noteq> None"
  using assms
  by (auto simp: credentials_from_env_def result_simps credential_ok_def valid_credential_text split: option.splits if_splits)

lemma ids_distinct:
  "ids_from_env env = Inr ids \<Longrightarrow>
   snd (snd ids) \<noteq> fst ids \<and> 1 \<le> fst ids \<and> 1 \<le> fst (snd ids) \<and> 1 \<le> snd (snd ids)"
  by (auto simp: ids_from_env_def result_simps dest!: parse_u64_in_range)

lemma limits_in_range:
  assumes "limits_from_env p env = Inr li"
  shows "url_scheme (li_vpngate_url li) = ''https''" "url_scheme (li_ippure_url li) = ''https''"
    "li_refresh li \<in> {30..86400}" "li_connect li \<in> {5..300}" "li_ippure li \<in> {1..120}" "li_parallel li \<in> {1..32}"
  using assms parse_u64_in_range parse_url_https
  by (auto simp only: limits_from_env_def and_then_eq_Inr sum.inject limits.simps atLeastAtMost_iff)

definition upstream_ok :: "upstream_endpoint \<Rightarrow> bool" where
  "upstream_ok u \<longleftrightarrow>
     ue_port u \<noteq> 0 \<and> is_some (ue_username u) = is_some (ue_password u)
     \<and> pred_option credential_text (ue_username u) \<and> pred_option (\<lambda>p. credential_text (expose p)) (ue_password u)"

lemma not_invalid_credential_text: "\<not> invalid_socks_credential v \<Longrightarrow> credential_text v"
  by (cases v) (auto simp: invalid_socks_credential_def credential_text_def list_ex_iff)

lemma authority_port:
  assumes "parse_upstream_authority v = Inr (host, port)" shows "port \<noteq> 0"
proof -
  from assms obtain s n where n: "parse_u16 s = Some n" "n \<noteq> 0" "port = of_nat n"
    by (auto simp: parse_upstream_authority_def result_simps)
  then have "unat port = n" using parse_uint_bound [OF n(1)] by (simp add: unat_of_nat take_bit_nat_eq_self)
  with n(2) show ?thesis by auto
qed

lemma upstream_checked:
  assumes "upstream_from_env env = Inr up" shows "upstream_ok up"
proof -
  from assms obtain v host port user password where
    "parse_upstream_authority v = Inr (host, port)"
    "new_host host port user (map_option SecretString password) = Inr up"
    by (auto simp: upstream_from_env_def result_simps)
  then show ?thesis
    using authority_port not_invalid_credential_text
    by (auto simp: new_host_def upstream_ok_def result_simps is_some_and_def split: option.splits)
qed

section \<open>Property of the configuration\<close>

text \<open>
  A safe runtime directory: an absolute path of at most 48 letters, digits, slashes, dots,
  underscores and hyphens, no part of which is \<open>..\<close> and two parts of which are names.
\<close>

definition directory_ok :: "string \<Rightarrow> bool" where
  "directory_ok path \<longleftrightarrow>
     take 1 path = ''/'' \<and> length path \<le> 48
     \<and> set path \<subseteq> {CHR ''0''..CHR ''9''} \<union> {CHR ''A''..CHR ''Z''} \<union> {CHR ''a''..CHR ''z''} \<union> set ''/._-''
     \<and> (let parts = split_on (CHR ''/'') path
        in ''..'' \<notin> set parts \<and> 2 \<le> length (filter (\<lambda>part. part \<noteq> [] \<and> part \<noteq> ''.'') parts))"

lemma map_filter_components:
  "length (filter is_normal (List.map_filter component_of ps)) = length (filter (\<lambda>p. p \<notin> {[], ''.'', ''..''}) ps)"
  "list_all (\<lambda>c. c = RootDir \<or> is_normal c) (List.map_filter component_of ps) \<longleftrightarrow> ''..'' \<notin> set ps"
  by (induction ps) (auto simp: List.map_filter_simps)

lemma runtime_dir_checked:
  assumes "validate_runtime_dir path = Inr ()"
  shows "directory_ok path"
proof -
  let ?ps = "split_on (CHR ''/'') path"
  have v: "starts_with ''/'' path" "2 \<le> length (filter is_normal (components path))"
    "list_all (\<lambda>c. c = RootDir \<or> is_normal c) (components path)" "length path \<le> 48"
    "list_all (\<lambda>c. is_ascii_alphanumeric c \<or> c \<in> {CHR ''/'', CHR ''.'', CHR ''_'', CHR ''-''}) path"
    using assms by (auto simp: validate_runtime_dir_def result_simps)
  then have "''..'' \<notin> set ?ps" "2 \<le> length (filter (\<lambda>p. p \<notin> {[], ''.'', ''..''}) ?ps)"
    by (simp_all add: components_def Let_def map_filter_components)
  moreover from this(1) have "filter (\<lambda>p. p \<notin> {[], ''.'', ''..''}) ?ps = filter (\<lambda>p. p \<noteq> [] \<and> p \<noteq> ''.'') ?ps"
    by (intro filter_cong) auto
  ultimately show ?thesis using v
    by (auto simp: directory_ok_def starts_with_def Let_def list_all_iff is_ascii_alphanumeric_def is_ascii_digit_def
        is_ascii_lowercase_def is_ascii_uppercase_def)
qed

text \<open>What the rest of the program relies on.\<close>

definition config_ok :: "app_config \<Rightarrow> bool" where
  "config_ok c \<longleftrightarrow>
     (if container_bind c then is_unspecified (web_bind c) \<and> is_unspecified (socks_bind c)
      else lan_mode c \<or> is_loopback (web_bind c) \<and> is_loopback (socks_bind c))
     \<and> (if lan_mode c then web_credentials c \<noteq> None \<and> socks_credentials c \<noteq> None else True)
     \<and> pred_option credential_ok (web_credentials c) \<and> pred_option credential_ok (socks_credentials c)
     \<and> url_scheme (vpngate_url c) = ''https'' \<and> url_scheme (ippure_url c) = ''https''
     \<and> upstream_ok (upstream c) \<and> directory_ok (runtime_dir c)
     \<and> netd_socket c = path_join (runtime_dir c) ''netd.sock''
     \<and> refresh_interval c \<in> {30..86400} \<and> connect_timeout c \<in> {5..300} \<and> ippure_timeout c \<in> {1..120}
     \<and> max_parallel_tests c \<in> {1..32}
     \<and> 1 \<le> unprivileged_uid c \<and> 1 \<le> unprivileged_gid c \<and> 1 \<le> openvpn_uid c
     \<and> openvpn_uid c \<noteq> unprivileged_uid c"

text \<open>
  C19.  An accepted configuration is well formed.  Without LAN or container mode both listeners
  are on loopback addresses, container mode binds both to the unspecified address, and LAN mode
  has credentials for both listeners; credentials are 1 to 255 bytes without NUL or line breaks,
  both service URLs are HTTPS, the upstream has a non-zero port and complete credentials, the
  runtime directory is an absolute path of at most 48 plain characters with at least two names and
  no \<open>..\<close> in it, intervals, timeouts and parallelism are in range,
  and the control plane and OpenVPN run under different non-zero users.
\<close>

theorem from_env_well_formed:
  assumes "from_env parse_v6 url_parse env = Inr c"
  shows "config_ok c"
proof -
  from assms obtain ls up web socks tls_pair ids li where parts:
    "listeners_from_env parse_v6 env = Inr ls" "upstream_from_env env = Inr up"
    "validate_runtime_dir (env_or env ''VPNGATE2SOCKS_RUNTIME_DIR'' ''/run/vpngate2socks'') = Inr ()"
    "credentials_from_env env (ls_lan ls) ''VPNGATE2SOCKS_WEB_USER'' ''VPNGATE2SOCKS_WEB_PASSWORD'' = Inr web"
    "credentials_from_env env (ls_lan ls) ''VPNGATE2SOCKS_SOCKS_USER'' ''VPNGATE2SOCKS_SOCKS_PASSWORD'' = Inr socks"
    "ids_from_env env = Inr ids" "limits_from_env url_parse env = Inr li"
    and c: "lan_mode c = ls_lan ls" "container_bind c = ls_container ls" "web_bind c = ls_web ls"
    "socks_bind c = ls_socks ls" "web_credentials c = web" "socks_credentials c = socks" "upstream c = up"
    "runtime_dir c = env_or env ''VPNGATE2SOCKS_RUNTIME_DIR'' ''/run/vpngate2socks''"
    "netd_socket c = path_join (runtime_dir c) ''netd.sock''" "vpngate_url c = li_vpngate_url li"
    "ippure_url c = li_ippure_url li" "refresh_interval c = li_refresh li" "connect_timeout c = li_connect li"
    "ippure_timeout c = li_ippure li" "max_parallel_tests c = li_parallel li" "unprivileged_uid c = fst ids"
    "unprivileged_gid c = fst (snd ids)" "openvpn_uid c = snd (snd ids)"
    unfolding from_env_def Let_def by (elim and_thenE) (simp only: sum.inject, clarsimp)
  show ?thesis
    unfolding config_ok_def c
    using listeners_bound [OF parts(1)] upstream_checked [OF parts(2)] runtime_dir_checked [OF parts(3)]
      credentials_checked [OF parts(4)] credentials_checked [OF parts(5)] ids_distinct [OF parts(6)]
      limits_in_range [OF parts(7)] by simp blast
qed

definition sample_env :: process_env where
  "sample_env =
     \<lparr>env_var = (\<lambda>name. if name = ''VPNGATE2SOCKS_UPSTREAM'' then Some ''10.0.0.1:99'' else None),
      file_len = (\<lambda>_. None), file_text = (\<lambda>_. None)\<rparr>"

definition sample_url :: "string \<Rightarrow> url option" where
  "sample_url s = Some \<lparr>url_scheme = ''https'', url_text = s\<rparr>"

lemma sample_hosts:
  "split_once (CHR '':'') ''127.0.0.1:8080'' = Some (''127.0.0.1'', ''8080'')"
  "split_once (CHR '':'') ''127.0.0.1:1080'' = Some (''127.0.0.1'', ''1080'')"
  "parse_ipv4 ''127.0.0.1'' = Some (Ipv4Addr 127 0 0 1)"
  "rsplit_once (CHR '':'') ''10.0.0.1:99'' = Some (''10.0.0.1'', ''99'')"
  "check_upstream_host ''10.0.0.1'' = Inr ()"
  "validate_runtime_dir ''/run/vpngate2socks'' = Inr ()"
  by code_simp+

lemma sample_env_vars:
  "env_var sample_env name = (if name = ''VPNGATE2SOCKS_UPSTREAM'' then Some ''10.0.0.1:99'' else None)"
  by (simp add: sample_env_def)

lemma sample_listeners:
  "listeners_from_env v6 sample_env =
     Inr \<lparr>ls_web = V4 \<lparr>sock_ip = Ipv4Addr 127 0 0 1, sock_port = 8080\<rparr>,
          ls_socks = V4 \<lparr>sock_ip = Ipv4Addr 127 0 0 1, sock_port = 1080\<rparr>, ls_lan = False, ls_container = False\<rparr>"
  by (simp add: listeners_from_env_def parse_or_def env_or_def sample_env_def parse_bool_def parse_socket_addr_def
      parse_socket_v4_def parse_port_def sample_hosts ok_or_def ensure_def is_ascii_digit_def dec_value_def
      digit_value_def)

lemma sample_upstream:
  "upstream_from_env sample_env = Inr \<lparr>ue_host = to_ascii_lowercase ''10.0.0.1'', ue_port = 99, ue_username = None, ue_password = None\<rparr>"
  by (simp add: upstream_from_env_def required_def sample_env_def parse_upstream_authority_def sample_hosts ok_or_def
      ensure_def config_value_def new_host_def map_err_def starts_with_def ends_with_def parse_uint_def
      is_ascii_digit_def dec_value_def digit_value_def is_some_def)

theorem from_env_well_formed_witness:
  "\<exists>c. from_env (\<lambda>_. None) sample_url sample_env = Inr c \<and> config_ok c \<and> \<not> lan_mode c"
proof -
  have "\<exists>c. from_env (\<lambda>_. None) sample_url sample_env = Inr c \<and> \<not> lan_mode c"
    by (simp add: from_env_def sample_listeners sample_upstream Let_def env_or_def sample_env_vars
        sample_hosts credentials_from_env_def config_value_def tls_from_env_def ids_from_env_def limits_from_env_def parse_u64_in_def
        parse_url_def sample_url_def ok_or_def ensure_def)
  then obtain c where "from_env (\<lambda>_. None) sample_url sample_env = Inr c" "\<not> lan_mode c" by blast
  with from_env_well_formed [OF this(1)] show ?thesis by blast
qed

end
