(* ===== verification/Web_Api.thy ===== *)
theory Web_Api
  imports Web_Auth Service Mihomo App_Config
begin

text \<open>
  The REST interface, \<open>src/src/api/mod.rs\<close>: the routing table with the session middleware around
  the protected routes, every handler, and the filtering, sorting and paging of the node list.
  What axum and serde extract from a request (path, query, JSON body) is the request record; what
  a handler reads from the outside world is the environment record.
\<close>

section \<open>Errors\<close>

definition api_error :: "nat \<Rightarrow> string \<Rightarrow> api_error" where
  "api_error http_status code = \<lparr>err_status = http_status, err_code = code\<rparr>"

fun api_error_of :: "service_error \<Rightarrow> api_error" where
  "api_error_of NodeNotFound = api_error 404 ''notFound''"
| "api_error_of OperationNotFound = api_error 404 ''notFound''"
| "api_error_of NodeUnavailable = api_error 409 ''nodeUnavailable''"
| "api_error_of RefreshBusy = api_error 409 ''refreshBusy''"
| "api_error_of QueueFull = api_error 429 ''testQueueFull''"
| "api_error_of ShuttingDown = api_error 503 ''shuttingDown''"
| "api_error_of (InvalidAutoConnect _) = api_error 400 ''invalidAutoConnectConfig''"
| "api_error_of (Refresh _) = api_error 502 ''refreshFailed''"
| "api_error_of (WorkerFailed _) = api_error 502 ''workerFailed''"
| "api_error_of (StoreFailed _) = api_error 500 ''storageFailed''"

section \<open>The node list\<close>

datatype sort_key = SortScore | SortPing | SortSpeed | SortSessions | SortFraud

datatype availability_filter = AnyAvailability | OnlyAvailable

fun availability_matches :: "availability_filter \<Rightarrow> node_availability \<Rightarrow> bool" where
  "availability_matches AnyAvailability _ = True"
| "availability_matches OnlyAvailable a = (a = Available)"

datatype sort_order = Asc | Desc

record nodes_query =
  nq_page :: nat
  nq_page_size :: nat
  nq_search :: string
  nq_sort :: sort_key
  nq_order :: sort_order
  nq_region :: "string option"
  nq_ip_type :: ip_type_filter
  nq_residential :: residential_filter
  nq_availability :: availability_filter

record nodes_page =
  np_items :: "node_summary list"
  np_page :: nat
  np_page_size :: nat
  np_total :: nat

text \<open>The values of \<open>serde(default)\<close>.\<close>

definition default_query :: nodes_query where
  "default_query =
     \<lparr>nq_page = 1, nq_page_size = 50, nq_search = [], nq_sort = SortScore, nq_order = Desc, nq_region = None,
      nq_ip_type = AnyType, nq_residential = AnyResidential, nq_availability = AnyAvailability\<rparr>"

definition fraud_score :: "(node_id \<rightharpoonup> test_record) \<Rightarrow> node_id \<Rightarrow> f64 option" where
  "fraud_score records node_id = map_option ip_fraud_score (Option.bind (records node_id) tr_result)"

fun value_unknown :: "(node_id \<rightharpoonup> test_record) \<Rightarrow> sort_key \<Rightarrow> vpn_node \<Rightarrow> bool" where
  "value_unknown records SortPing n \<longleftrightarrow> vn_ping_ms n = None"
| "value_unknown records SortFraud n \<longleftrightarrow> fraud_score records (vn_id n) = None"
| "value_unknown records _ n \<longleftrightarrow> False"

definition unwrap_or_zero :: "f64 option \<Rightarrow> f64" where
  "unwrap_or_zero x = (case x of None \<Rightarrow> 0 | Some v \<Rightarrow> v)"

fun compare_key :: "(node_id \<rightharpoonup> test_record) \<Rightarrow> sort_key \<Rightarrow> vpn_node \<Rightarrow> vpn_node \<Rightarrow> ordering" where
  "compare_key records SortScore left right = cmp (vn_score left) (vn_score right)"
| "compare_key records SortPing left right = cmp_option (vn_ping_ms left) (vn_ping_ms right)"
| "compare_key records SortSpeed left right = cmp (vn_speed_bps left) (vn_speed_bps right)"
| "compare_key records SortSessions left right = cmp (vn_sessions left) (vn_sessions right)"
| "compare_key records SortFraud left right =
     f64_total_cmp (unwrap_or_zero (fraud_score records (vn_id left))) (unwrap_or_zero (fraud_score records (vn_id right)))"

definition compare_nodes ::
    "(node_id \<rightharpoonup> test_record) \<Rightarrow> sort_key \<Rightarrow> sort_order \<Rightarrow> vpn_node \<Rightarrow> vpn_node \<Rightarrow> ordering" where
  "compare_nodes records key order left right =
     (case (value_unknown records key left, value_unknown records key right) of
        (False, True) \<Rightarrow> Less
      | (True, False) \<Rightarrow> Greater
      | _ \<Rightarrow>
          then_with
            (case order of
               Asc \<Rightarrow> compare_key records key left right
             | Desc \<Rightarrow> reverse_ordering (compare_key records key left right))
            (cmp (vn_id left) (vn_id right)))"

definition query_region :: "nodes_query \<Rightarrow> string option" where
  "query_region q = option_filter (\<lambda>r. r \<noteq> []) (map_option trim (nq_region q))"

definition node_listed ::
    "(string \<Rightarrow> string) \<Rightarrow> (node_id \<rightharpoonup> test_record) \<Rightarrow> nodes_query \<Rightarrow> vpn_node \<Rightarrow> bool" where
  "node_listed to_lowercase records q node \<longleftrightarrow>
     availability_matches (nq_availability q) (vn_availability node)
     \<and> (case query_region q of None \<Rightarrow> True | Some region \<Rightarrow> eq_ignore_ascii_case (vn_country_short node) region)
     \<and> matches_ip_traits (records (vn_id node)) (nq_ip_type q) (nq_residential q)
     \<and> matches_search to_lowercase node (nq_search q)"

definition query_valid :: "nodes_query \<Rightarrow> bool" where
  "query_valid q \<longleftrightarrow>
     \<not> (nq_page q = 0 \<or> \<not> (1 \<le> nq_page_size q \<and> nq_page_size q \<le> 200) \<or> 256 < length (nq_search q)
        \<or> is_some_and (\<lambda>r. 8 < length r) (nq_region q))"

definition sorted_nodes ::
    "(string \<Rightarrow> string) \<Rightarrow> (node_id \<rightharpoonup> test_record) \<Rightarrow> nodes_query \<Rightarrow> vpn_node list \<Rightarrow> vpn_node list" where
  "sorted_nodes to_lowercase records q snapshot =
     sort_by (compare_nodes records (nq_sort q) (nq_order q)) (filter (node_listed to_lowercase records q) snapshot)"

definition list_nodes ::
    "(string \<Rightarrow> string) \<Rightarrow> bool \<Rightarrow> nodes_query option \<Rightarrow> app_state \<Rightarrow> api_error + nodes_page" where
  "list_nodes to_lowercase served query s =
     and_then (ok_or (api_error 400 ''invalidQuery'') query) (\<lambda>q.
     and_then (ensure (query_valid q) (api_error 400 ''invalidPagination'')) (\<lambda>_.
     and_then (map_err (api_error_of \<circ> StoreFailed) (latest_tests served (test_store (tests s)))) (\<lambda>records.
       let ns = sorted_nodes to_lowercase records q (nodes s);
           offset = saturating_mul (saturating_sub (nq_page q) 1) (nq_page_size q)
       in Inr \<lparr>np_items = map (\<lambda>n. summary n (records (vn_id n))) (take (nq_page_size q) (drop offset ns)),
               np_page = nq_page q, np_page_size = nq_page_size q, np_total = length ns\<rparr>)))"

section \<open>Requests\<close>

datatype payload =
    RejectedJson
  | LoginPayload string string
  | ConnectPayload node_id
  | PolicyPayload auto_connect_config

record request =
  rq_method :: http_method
  rq_path :: "string list"
  rq_headers :: headers
  rq_query :: "nodes_query option"
  rq_payload :: payload

datatype body =
    EmptyBody
  | ErrorBody string
  | SessionBody bool "string option"
  | NodesBody nodes_page
  | YamlBody string
  | RefreshBody refresh_info
  | ConnectionBody connection_state
  | SettingsBody auto_connect_config "(string \<times> string) list"
  | OperationBody operation_id
  | TestBody test_state
  | StatusBody status_snapshot
  | EventStream
  | TextBody string

record response =
  rs_status :: nat
  rs_body :: body
  rs_headers :: "(string \<times> string) list"

record api_state =
  app :: app_state
  auth :: auth_manager

record api_env =
  ap_sha256 :: "bytes \<Rightarrow> bytes"
  ap_to_lowercase :: "string \<Rightarrow> string"
  ap_to_uppercase :: "string \<Rightarrow> string"
  ap_parse_uuid :: "string \<Rightarrow> uuid option"
  ap_now :: datetime
  ap_token :: uuid
  ap_csrf :: uuid
  ap_served :: bool
  ap_netd :: "netd_request \<Rightarrow> netd_client_error + netd_response"
  ap_refresh :: refresh_env
  ap_switch :: switch_env
  ap_enqueue :: enqueue_env
  ap_lan_mode :: bool
  ap_tls :: bool
  ap_web_index :: bool
  ap_web_ui :: "request \<Rightarrow> response"

definition reply :: "nat \<Rightarrow> body \<Rightarrow> response" where
  "reply http_status b = \<lparr>rs_status = http_status, rs_body = b, rs_headers = []\<rparr>"

definition add_header :: "string \<Rightarrow> string \<Rightarrow> response \<Rightarrow> response" where
  "add_header name value r = r\<lparr>rs_headers := rs_headers r @ [(name, value)]\<rparr>"

definition error_reply :: "api_error \<Rightarrow> response" where
  "error_reply e = reply (err_status e) (ErrorBody (err_code e))"

definition answer :: "nat \<Rightarrow> ('a \<Rightarrow> body) \<Rightarrow> api_error + 'a \<Rightarrow> response" where
  "answer http_status f r = (case r of Inl e \<Rightarrow> error_reply e | Inr x \<Rightarrow> reply http_status (f x))"

text \<open>A service operation run by a handler, its error turned into an API error by \<open>?\<close>.\<close>

definition run_service ::
    "nat \<Rightarrow> ('a \<Rightarrow> body) \<Rightarrow> (app_state \<Rightarrow> (service_error + 'a) \<times> app_state) \<Rightarrow> app_state \<Rightarrow> response \<times> app_state" where
  "run_service http_status f operation s =
     (case operation s of (r, s) \<Rightarrow> (answer http_status f (map_err api_error_of r), s))"

section \<open>Events\<close>

text \<open>An item of the broadcast channel: an event, or the note that the receiver fell behind.\<close>

datatype broadcast_item = Received app_event | Lagged nat

definition sse_frame :: "(app_event \<Rightarrow> string option) \<Rightarrow> broadcast_item \<Rightarrow> (string \<times> string) option" where
  "sse_frame to_json item =
     (case item of
        Received event \<Rightarrow> map_option (\<lambda>json. (''update'', json)) (to_json event)
      | Lagged _ \<Rightarrow> Some (''resync'', ''{}''))"

definition event_stream :: "(app_event \<Rightarrow> string option) \<Rightarrow> broadcast_item list \<Rightarrow> (string \<times> string) list" where
  "event_stream to_json items = List.map_filter (sse_frame to_json) items"

section \<open>Handlers\<close>

datatype endpoint =
    ListNodes
  | RefreshNodes
  | MihomoProvider
  | ConnectNode
  | DisconnectNode
  | GetAutoConnection
  | UpdateAutoConnection
  | StartTest string
  | TestStatus string
  | StatusPage
  | EventsPage
  | Logout

definition auto_connect_settings :: "api_env \<Rightarrow> app_state \<Rightarrow> body" where
  "auto_connect_settings env s = SettingsBody (auto_connect s) (auto_connect_regions (ap_to_uppercase env) s)"

definition mihomo_provider :: "app_state \<Rightarrow> response" where
  "mihomo_provider s =
     add_header ''cache-control'' ''no-store''
       (add_header ''content-type'' ''application/yaml; charset=utf-8'' (reply 200 (YamlBody (render_provider (nodes s)))))"

definition handle_connect :: "api_env \<Rightarrow> payload \<Rightarrow> app_state \<Rightarrow> response \<times> app_state" where
  "handle_connect env p s =
     (case p of
        ConnectPayload node_id \<Rightarrow>
          run_service 200 ConnectionBody (connect (ap_served env) (ap_switch env) node_id) s
      | _ \<Rightarrow> (error_reply (api_error 400 ''invalidJson''), s))"

definition handle_update_auto_connection :: "api_env \<Rightarrow> payload \<Rightarrow> app_state \<Rightarrow> response \<times> app_state" where
  "handle_update_auto_connection env p s =
     (case p of
        PolicyPayload config \<Rightarrow>
          (case set_auto_connect_config (ap_to_uppercase env) (ap_served env) config s of
             (Inl e, s) \<Rightarrow> (error_reply (api_error_of e), s)
           | (Inr _, s) \<Rightarrow> (reply 200 (auto_connect_settings env s), s))
      | _ \<Rightarrow> (error_reply (api_error 400 ''invalidJson''), s))"

definition with_tests :: "(test_service \<Rightarrow> 'a \<times> test_service) \<Rightarrow> app_state \<Rightarrow> 'a \<times> app_state" where
  "with_tests f s = (case f (tests s) of (r, ts) \<Rightarrow> (r, s\<lparr>tests := ts\<rparr>))"

definition handle_start_test :: "api_env \<Rightarrow> string \<Rightarrow> app_state \<Rightarrow> response \<times> app_state" where
  "handle_start_test env segment s =
     (case node_id_from_str segment of
        Inl _ \<Rightarrow> (error_reply (api_error 400 ''invalidNodeId''), s)
      | Inr node_id \<Rightarrow>
          run_service 202 OperationBody (with_tests (enqueue_test (ap_enqueue env) node_id)) s)"

definition handle_test_status :: "api_env \<Rightarrow> string \<Rightarrow> app_state \<Rightarrow> response" where
  "handle_test_status env segment s =
     (case ap_parse_uuid env segment of
        None \<Rightarrow> error_reply (api_error 400 ''invalidOperationId'')
      | Some u \<Rightarrow> answer 200 TestBody (map_err api_error_of (test_state_of (OperationId u) (tests s))))"

fun run_endpoint :: "api_env \<Rightarrow> request \<Rightarrow> endpoint \<Rightarrow> api_state \<Rightarrow> response \<times> api_state" where
  "run_endpoint env rq ListNodes s =
     (answer 200 NodesBody (list_nodes (ap_to_lowercase env) (ap_served env) (rq_query rq) (app s)), s)"
| "run_endpoint env rq RefreshNodes s =
     (case run_service 200 RefreshBody (refresh_nodes (ap_refresh env)) (app s) of (r, a) \<Rightarrow> (r, s\<lparr>app := a\<rparr>))"
| "run_endpoint env rq MihomoProvider s =
     (mihomo_provider (app s), s)"
| "run_endpoint env rq ConnectNode s =
     (case handle_connect env (rq_payload rq) (app s) of (r, a) \<Rightarrow> (r, s\<lparr>app := a\<rparr>))"
| "run_endpoint env rq DisconnectNode s =
     (case run_service 200 ConnectionBody (disconnect (ap_served env) (ap_netd env)) (app s) of
        (r, a) \<Rightarrow> (r, s\<lparr>app := a\<rparr>))"
| "run_endpoint env rq GetAutoConnection s = (reply 200 (auto_connect_settings env (app s)), s)"
| "run_endpoint env rq UpdateAutoConnection s =
     (case handle_update_auto_connection env (rq_payload rq) (app s) of (r, a) \<Rightarrow> (r, s\<lparr>app := a\<rparr>))"
| "run_endpoint env rq (StartTest segment) s =
     (case handle_start_test env segment (app s) of (r, a) \<Rightarrow> (r, s\<lparr>app := a\<rparr>))"
| "run_endpoint env rq (TestStatus segment) s = (handle_test_status env segment (app s), s)"
| "run_endpoint env rq StatusPage s =
     (reply 200 (StatusBody (status (ap_netd env) (ap_served env) (ap_lan_mode env) (ap_tls env) (app s))), s)"
| "run_endpoint env rq EventsPage s = (reply 200 EventStream, s)"
| "run_endpoint env rq Logout s =
     (case logout (rq_headers rq) (auth s) of
        (c, m) \<Rightarrow> (add_header ''set-cookie'' c (reply 204 EmptyBody), s\<lparr>auth := m\<rparr>))"

section \<open>Routing\<close>

datatype route = LoginRoute | SessionRoute | Protected endpoint | HealthRoute | ReadyRoute | WrongMethod | PlainWrongMethod
  | NoApiRoute | WebUi

definition by_method :: "(http_method \<times> route) list \<Rightarrow> http_method \<Rightarrow> route" where
  "by_method table m =
     (case map_of table (if m = HEAD \<and> map_of table GET \<noteq> None then GET else m) of
        Some r \<Rightarrow> r
      | None \<Rightarrow> WrongMethod)"

text \<open>The JSON answer to a wrong method is the fallback of the API router only.\<close>

definition page_method :: "route \<Rightarrow> http_method \<Rightarrow> route" where
  "page_method r m = (if m = GET \<or> m = HEAD then r else PlainWrongMethod)"

definition api_route :: "http_method \<Rightarrow> string list \<Rightarrow> route" where
  "api_route m path =
     (if path = [''nodes''] then by_method [(GET, Protected ListNodes)] m
      else if path = [''nodes'', ''refresh''] then by_method [(POST, Protected RefreshNodes)] m
      else if path = [''mihomo'', ''provider.yaml''] then by_method [(GET, Protected MihomoProvider)] m
      else if path = [''connection'']
      then by_method [(PUT, Protected ConnectNode), (DELETE, Protected DisconnectNode)] m
      else if path = [''auto-connection'']
      then by_method [(GET, Protected GetAutoConnection), (PUT, Protected UpdateAutoConnection)] m
      else if length path = 3 \<and> path ! 0 = ''nodes'' \<and> path ! 2 = ''tests''
      then by_method [(POST, Protected (StartTest (path ! 1)))] m
      else if length path = 2 \<and> path ! 0 = ''tests'' then by_method [(GET, Protected (TestStatus (path ! 1)))] m
      else if path = [''status''] then by_method [(GET, Protected StatusPage)] m
      else if path = [''events''] then by_method [(GET, Protected EventsPage)] m
      else if path = [''auth'', ''session'']
      then by_method [(DELETE, Protected Logout), (GET, SessionRoute)] m
      else if path = [''auth'', ''login''] then by_method [(POST, LoginRoute)] m
      else NoApiRoute)"

definition route_of :: "http_method \<Rightarrow> string list \<Rightarrow> route" where
  "route_of m path =
     (if take 2 path = [''api'', ''v1''] then api_route m (drop 2 path)
      else if path = [''healthz''] then page_method HealthRoute m
      else if path = [''readyz''] then page_method ReadyRoute m
      else WebUi)"

definition login_payload :: "payload \<Rightarrow> (string \<times> string) option" where
  "login_payload p = (case p of LoginPayload u w \<Rightarrow> Some (u, w) | _ \<Rightarrow> None)"

definition session_reply :: "session_response \<Rightarrow> response" where
  "session_reply r =
     (let body = reply 200 (SessionBody (sr_authenticated r) (sr_csrf_token r))
      in case sr_set_cookie r of None \<Rightarrow> body | Some c \<Rightarrow> add_header ''set-cookie'' c body)"

definition protected_request :: "api_env \<Rightarrow> request \<Rightarrow> endpoint \<Rightarrow> api_state \<Rightarrow> response \<times> api_state" where
  "protected_request env rq e s =
     (case require_auth (ap_sha256 env) (ap_now env) (rq_method rq) (rq_headers rq) (auth s) of
        (Inl err, m) \<Rightarrow> (error_reply err, s\<lparr>auth := m\<rparr>)
      | (Inr _, m) \<Rightarrow> run_endpoint env rq e (s\<lparr>auth := m\<rparr>))"

definition health_check :: response where
  "health_check = reply 200 EmptyBody"

definition readiness :: "api_env \<Rightarrow> app_state \<Rightarrow> response" where
  "readiness env s = reply (if is_ready (ap_netd env) (ap_served env) s then 200 else 503) EmptyBody"

definition api_not_found :: response where
  "api_not_found = error_reply (api_error 404 ''notFound'')"

definition api_method_not_allowed :: response where
  "api_method_not_allowed = error_reply (api_error 405 ''methodNotAllowed'')"

definition missing_webui :: response where
  "missing_webui =
     reply 503 (TextBody (map char_of [0x57 :: nat, 0x65, 0x62, 0x55, 0x49, 0x20, 0xe5, 0xb0, 0x9a, 0xe6, 0x9c, 0xaa,
       0xe6, 0x9e, 0x84, 0xe5, 0xbb, 0xba, 0xef, 0xbc, 0x9b, 0xe8, 0xaf, 0xb7, 0xe8, 0xbf, 0x90, 0xe8, 0xa1, 0x8c]
       @ '' npm --prefix web run build''))"

text \<open>
  The fallback: the static file service when the page has been built, which is not modelled, else
  a \<open>get\<close> route with the notice that it has not.
\<close>

definition web_ui :: "api_env \<Rightarrow> request \<Rightarrow> response" where
  "web_ui env rq =
     (if ap_web_index env then ap_web_ui env rq
      else if rq_method rq = GET \<or> rq_method rq = HEAD then missing_webui
      else reply 405 EmptyBody)"

definition dispatch :: "api_env \<Rightarrow> request \<Rightarrow> route \<Rightarrow> api_state \<Rightarrow> response \<times> api_state" where
  "dispatch env rq r s =
     (case r of
        LoginRoute \<Rightarrow>
          (case login (ap_sha256 env) (ap_now env) (ap_token env) (ap_csrf env) (login_payload (rq_payload rq)) (auth s) of
             (Inl e, m) \<Rightarrow> (error_reply e, s\<lparr>auth := m\<rparr>)
           | (Inr r, m) \<Rightarrow> (session_reply r, s\<lparr>auth := m\<rparr>))
      | SessionRoute \<Rightarrow>
          (case current_session (ap_now env) (rq_headers rq) (auth s) of (r, m) \<Rightarrow> (session_reply r, s\<lparr>auth := m\<rparr>))
      | Protected e \<Rightarrow> protected_request env rq e s
      | HealthRoute \<Rightarrow> (health_check, s)
      | ReadyRoute \<Rightarrow> (readiness env (app s), s)
      | WrongMethod \<Rightarrow> (api_method_not_allowed, s)
      | PlainWrongMethod \<Rightarrow> (reply 405 EmptyBody, s)
      | NoApiRoute \<Rightarrow> (api_not_found, s)
      | WebUi \<Rightarrow> (web_ui env rq, s))"

definition security_headers :: "response \<Rightarrow> response" where
  "security_headers r =
     add_header ''permissions-policy'' ''camera=(), microphone=(), geolocation=()''
       (add_header ''referrer-policy'' ''no-referrer''
         (add_header ''x-content-type-options'' ''nosniff''
           (add_header ''content-security-policy''
             (''default-src '' @ [CHR 0x27] @ ''self'' @ [CHR 0x27] @ ''; base-uri '' @ [CHR 0x27] @ ''none'' @ [CHR 0x27]
              @ ''; frame-ancestors '' @ [CHR 0x27] @ ''none'' @ [CHR 0x27] @ ''; form-action '' @ [CHR 0x27] @ ''self''
              @ [CHR 0x27]) r)))"

text \<open>
  The layers are added to the router before its fallback, and axum applies a layer only to the
  routes and fallback that exist at that point: replies of the fallback (the user interface, or
  the notice that it is not built) pass through none of them.
\<close>

definition handle_request :: "api_env \<Rightarrow> request \<Rightarrow> api_state \<Rightarrow> response \<times> api_state" where
  "handle_request env rq s =
     (let r = route_of (rq_method rq) (rq_path rq)
      in case dispatch env rq r s of
           (resp, s) \<Rightarrow> (if r = WebUi then resp else security_headers resp, s))"

text \<open>A sequence of requests, each in its own environment, with the replies.\<close>

fun serve :: "(api_env \<times> request) list \<Rightarrow> api_state \<Rightarrow> response list \<times> api_state" where
  "serve [] s = ([], s)"
| "serve ((env, rq) # rest) s =
     (case handle_request env rq s of
        (r, s) \<Rightarrow> (case serve rest s of (rs, s) \<Rightarrow> (r # rs, s)))"

definition new_api :: "app_state \<Rightarrow> app_config \<Rightarrow> api_state" where
  "new_api s config = \<lparr>app = s, auth = new_auth (web_credentials config) (tls config \<noteq> None)\<rparr>"

section \<open>Which replies carry the security headers\<close>

lemma api_replies_secured:
  "route_of (rq_method rq) (rq_path rq) \<noteq> WebUi \<Longrightarrow>
   {''content-security-policy'', ''x-content-type-options'', ''referrer-policy'', ''permissions-policy''}
     \<subseteq> fst ` set (rs_headers (fst (handle_request env rq s)))"
  by (simp add: handle_request_def Let_def case_prod_beta security_headers_def add_header_def)

lemma web_ui_replies_plain:
  "route_of (rq_method rq) (rq_path rq) = WebUi \<Longrightarrow> handle_request env rq s = (web_ui env rq, s)"
  by (simp add: handle_request_def dispatch_def)

section \<open>Laws of the node list\<close>

lemma comparator_total_cmp: "comparator f64_total_cmp"
  unfolding f64_total_cmp_def [abs_def] by (rule comparator_key [OF comparator_cmp])

lemma compare_key_abs:
  "compare_key records SortScore = (\<lambda>l r. cmp (vn_score l) (vn_score r))"
  "compare_key records SortPing = (\<lambda>l r. cmp_option (vn_ping_ms l) (vn_ping_ms r))"
  "compare_key records SortSpeed = (\<lambda>l r. cmp (vn_speed_bps l) (vn_speed_bps r))"
  "compare_key records SortSessions = (\<lambda>l r. cmp (vn_sessions l) (vn_sessions r))"
  "compare_key records SortFraud = (\<lambda>l r. f64_total_cmp (unwrap_or_zero (fraud_score records (vn_id l)))
      (unwrap_or_zero (fraud_score records (vn_id r))))"
  by (intro ext, simp)+

lemma comparator_compare_key: "comparator (compare_key records key)"
  by (cases key; simp only: compare_key_abs)
     (rule comparator_key [OF comparator_cmp] comparator_key [OF comparator_option]
       comparator_key [OF comparator_total_cmp])+

lemma compare_nodes_alt:
  "compare_nodes records key order left right =
     then_with (cmp (value_unknown records key left) (value_unknown records key right))
       (then_with (case order of Asc \<Rightarrow> compare_key records key left right
                     | Desc \<Rightarrow> compare_key records key right left)
         (cmp (vn_id left) (vn_id right)))"
proof -
  have "compare_key records key right left = reverse_ordering (compare_key records key left right)"
    by (rule comparator.anti [OF comparator_compare_key])
  then show ?thesis
    by (cases "value_unknown records key left"; cases "value_unknown records key right")
       (simp_all add: compare_nodes_def cmp_def split: sort_order.split)
qed

interpretation listing: comparator "compare_nodes records key order" for records key order
proof -
  have "comparator (\<lambda>l r. case order of Asc \<Rightarrow> compare_key records key l r | Desc \<Rightarrow> compare_key records key r l)"
    using comparator_compare_key comparator_reverse [OF comparator_compare_key] by (cases order) simp_all
  then have "comparator (\<lambda>l r. compare_nodes records key order l r)"
    unfolding compare_nodes_alt by (intro comparator_then comparator_key [OF comparator_cmp])
  then show "comparator (compare_nodes records key order)" .
qed

lemma compare_unknown_last:
  "compare_nodes records key order a b \<noteq> Greater \<Longrightarrow> value_unknown records key a \<Longrightarrow> value_unknown records key b"
  by (cases "value_unknown records key b") (simp_all add: compare_nodes_def)

lemma concat_blocks: "concat (map (\<lambda>i. take n (drop (i * n) xs)) [0..<k]) = take (k * n) xs"
proof (induction k)
  case (Suc k)
  have "take (k * n) xs @ take n (drop (k * n) xs) = take (k * n + n) xs" by (simp add: take_add)
  with Suc show ?case by (simp add: add.commute)
qed simp

lemma page_offset:
  assumes "length ns \<le> usize_max" and "0 < n"
  shows "take n (drop (saturating_mul (saturating_sub p 1) n) ns) = take n (drop ((p - 1) * n) ns)"
  using assms by (simp add: saturating_mul_def saturating_sub_def min_def)

definition page_items ::
    "(string \<Rightarrow> string) \<Rightarrow> nodes_query \<Rightarrow> app_state \<Rightarrow> nat \<Rightarrow> node_summary list" where
  "page_items low q s p =
     (case list_nodes low True (Some (q\<lparr>nq_page := p\<rparr>)) s of Inl _ \<Rightarrow> [] | Inr page \<Rightarrow> np_items page)"

lemma listed_any_page [simp]: "node_listed low records (q\<lparr>nq_page := p\<rparr>) = node_listed low records q"
  by (intro ext) (simp add: node_listed_def query_region_def)

lemma sorted_any_page [simp]: "sorted_nodes low records (q\<lparr>nq_page := p\<rparr>) = sorted_nodes low records q"
  by (intro ext) (simp add: sorted_nodes_def)

lemma page_items_block:
  assumes "query_valid q" and "latest_tests True (test_store (tests s)) = Inr records"
    and "length (nodes s) \<le> usize_max"
  shows "page_items low q s (Suc p) =
    map (\<lambda>n. summary n (records (vn_id n)))
      (take (nq_page_size q) (drop (p * nq_page_size q) (sorted_nodes low records q (nodes s))))"
proof -
  let ?ns = "sorted_nodes low records q (nodes s)"
  have "length ?ns \<le> length (nodes s)" by (simp add: sorted_nodes_def)
  then have len: "length ?ns \<le> usize_max" using assms(3) by simp
  have size: "0 < nq_page_size q" and valid: "query_valid (q\<lparr>nq_page := Suc p\<rparr>)"
    using assms(1) by (auto simp: query_valid_def)
  show ?thesis
    using page_offset [OF len size, of "Suc p"]
    by (simp add: page_items_def list_nodes_def ok_or_def ensure_def valid assms(2) map_err_def Let_def)
qed

section \<open>Properties of the web interface\<close>

text \<open>
  C28.  The node list is paged without loss.  For a valid query the matching nodes have one sorted
  arrangement under the requested order, in which nodes without the sorted measurement come last
  in both directions, and the pages taken one after another give exactly that arrangement, each
  node once.
\<close>

theorem list_nodes_pages:
  assumes "query_valid q" and "latest_tests True (test_store (tests s)) = Inr records"
    and "length (nodes s) \<le> usize_max"
    and "length (filter (node_listed low records q) (nodes s)) \<le> k * nq_page_size q"
  shows "\<exists>ns. mset ns = mset (filter (node_listed low records q) (nodes s))
    \<and> sorted_wrt (\<lambda>a b. compare_nodes records (nq_sort q) (nq_order q) a b \<noteq> Greater
        \<and> (value_unknown records (nq_sort q) a \<longrightarrow> value_unknown records (nq_sort q) b)) ns
    \<and> concat (map (page_items low q s) [1..<Suc k]) = map (\<lambda>n. summary n (records (vn_id n))) ns"
proof (intro exI conjI)
  let ?ns = "sorted_nodes low records q (nodes s)"
  show m: "mset ?ns = mset (filter (node_listed low records q) (nodes s))" by (simp add: sorted_nodes_def)
  show "sorted_wrt (\<lambda>a b. compare_nodes records (nq_sort q) (nq_order q) a b \<noteq> Greater
        \<and> (value_unknown records (nq_sort q) a \<longrightarrow> value_unknown records (nq_sort q) b)) ?ns"
    unfolding sorted_nodes_def
    by (rule sorted_wrt_mono_rel [OF _ listing.sorted_sort_by]) (blast intro: compare_unknown_last)
  have "concat (map (page_items low q s) [1..<Suc k]) = concat (map (\<lambda>p. page_items low q s (Suc p)) [0..<k])"
    by (simp only: map_Suc_upt [symmetric] map_map comp_def One_nat_def)
  also have "\<dots> = map (\<lambda>n. summary n (records (vn_id n)))
      (concat (map (\<lambda>p. take (nq_page_size q) (drop (p * nq_page_size q) ?ns)) [0..<k]))"
    by (simp add: page_items_block [OF assms(1-3)] map_concat comp_def)
  also have "\<dots> = map (\<lambda>n. summary n (records (vn_id n))) ?ns"
    using assms(4) mset_eq_length [OF m] by (simp add: concat_blocks)
  finally show "concat (map (page_items low q s) [1..<Suc k]) = map (\<lambda>n. summary n (records (vn_id n))) ?ns" .
qed

definition sample_app :: app_state where
  "sample_app = (new_app_state default_auto_connect migrated)\<lparr>nodes := [sample_node ''a'' 1, sample_node ''b'' 2]\<rparr>"

theorem list_nodes_pages_witness:
  "\<exists>ns. mset ns = {#sample_node ''a'' 1, sample_node ''b'' 2#}
    \<and> page_items (\<lambda>c. c) default_query sample_app 1 = map (\<lambda>n. summary n None) ns"
proof -
  have filtered: "filter (node_listed (\<lambda>c. c) Map.empty default_query) (nodes sample_app) =
      [sample_node ''a'' 1, sample_node ''b'' 2]"
    by (simp add: sample_app_def node_listed_def default_query_def query_region_def matches_ip_traits_def
        matches_search_def)
  have "query_valid default_query" by (simp add: query_valid_def default_query_def)
  moreover have "latest_tests True (test_store (tests sample_app)) = Inr Map.empty"
    by (simp add: sample_app_def new_app_state_def initial_tests_def migrated_def latest_tests_def)
  moreover have "length (nodes sample_app) \<le> usize_max" by (simp add: sample_app_def usize_max_def)
  moreover have "length (filter (node_listed (\<lambda>c. c) Map.empty default_query) (nodes sample_app))
      \<le> 1 * nq_page_size default_query"
    unfolding filtered by (simp add: default_query_def)
  ultimately show ?thesis using list_nodes_pages [of default_query sample_app Map.empty "\<lambda>c. c" 1]
    unfolding filtered by auto
qed

text \<open>A login request that carries the configured credentials (equal SHA-256 digests).\<close>

definition valid_login :: "credentials \<Rightarrow> api_env \<Rightarrow> request \<Rightarrow> bool" where
  "valid_login c env rq =
     (case login_payload (rq_payload rq) of
        Some (u, p) \<Rightarrow>
          route_of (rq_method rq) (rq_path rq) = LoginRoute \<and> credentials_match (ap_sha256 env) c u p
      | None \<Rightarrow> False)"

fun is_protected :: "route \<Rightarrow> bool" where
  "is_protected (Protected _) = True"
| "is_protected _ = False"

lemma status_kept [simp]: "rs_status (security_headers r) = rs_status r" "rs_status (add_header n v r) = rs_status r"
  by (simp_all add: security_headers_def add_header_def)

lemma handle_request_parts:
  "snd (handle_request env rq s) = snd (dispatch env rq (route_of (rq_method rq) (rq_path rq)) s)"
  "rs_status (fst (handle_request env rq s)) = rs_status (fst (dispatch env rq (route_of (rq_method rq) (rq_path rq)) s))"
  by (simp_all add: handle_request_def Let_def case_prod_beta)

text \<open>With no session, a request that is not a valid login changes neither sessions nor the service.\<close>

lemma outsider_step:
  assumes cred: "auth_credentials (auth s) = Some c" and none: "auth_sessions (auth s) = Map.empty"
    and bad: "\<not> valid_login c env rq"
  shows "snd (handle_request env rq s) = s"
    and "is_protected (route_of (rq_method rq) (rq_path rq)) \<Longrightarrow> rs_status (fst (handle_request env rq s)) = 401"
proof -
  have lookup: "lookup_session now h (auth s) = (None, auth s)" for now h
    using none by (simp add: lookup_session_def split: option.split)
  have req: "is_required (auth s)" using cred by (simp add: is_required_def)
  have blocked: "protected_request env rq e s = (error_reply \<lparr>err_status = 401, err_code = ''authenticationRequired''\<rparr>, s)"
    for e
    by (simp add: protected_request_def require_auth_def req lookup)
  have "snd (login sha now t i (login_payload (rq_payload rq)) (auth s)) = auth s"
    if "route_of (rq_method rq) (rq_path rq) = LoginRoute" "sha = ap_sha256 env" for sha now t i
    using that bad cred by (auto simp: login_def valid_login_def split: option.splits)
  then have "snd (dispatch env rq (route_of (rq_method rq) (rq_path rq)) s) = s"
    by (auto simp: dispatch_def blocked current_session_def req lookup case_prod_beta
        split: route.split sum.split prod.split)
  then show "snd (handle_request env rq s) = s" by (simp add: handle_request_parts)
  assume "is_protected (route_of (rq_method rq) (rq_path rq))"
  then obtain e where "route_of (rq_method rq) (rq_path rq) = Protected e"
    by (cases "route_of (rq_method rq) (rq_path rq)") auto
  then show "rs_status (fst (handle_request env rq s)) = 401"
    by (simp add: handle_request_parts dispatch_def blocked error_reply_def reply_def)
qed

lemma outsider_serve:
  assumes "auth_credentials (auth s) = Some c" and "auth_sessions (auth s) = Map.empty"
    and "list_all (\<lambda>(env, rq). \<not> valid_login c env rq) requests"
  shows "snd (serve requests s) = s
    \<and> list_all2 (\<lambda>(env, rq) r. is_protected (route_of (rq_method rq) (rq_path rq)) \<longrightarrow> rs_status r = 401)
        requests (fst (serve requests s))"
  using assms(3)
proof (induction requests)
  case (Cons x requests)
  obtain env rq where x: "x = (env, rq)" by (cases x)
  then have bad: "\<not> valid_login c env rq" using Cons.prems by simp
  note step = outsider_step [OF assms(1,2) bad]
  obtain r where r: "handle_request env rq s = (r, s)" using step(1) by (cases "handle_request env rq s") simp
  show ?case using Cons step(2) by (simp add: x r case_prod_beta)
qed simp

definition sample_api_env :: api_env where
  "sample_api_env =
     \<lparr>ap_sha256 = (\<lambda>b. b), ap_to_lowercase = (\<lambda>s. s), ap_to_uppercase = (\<lambda>s. s), ap_parse_uuid = (\<lambda>_. None),
      ap_now = 0, ap_token = 1, ap_csrf = 2, ap_served = True, ap_netd = (\<lambda>_. Inl Unavailable),
      ap_refresh = \<lparr>re_snapshot = Inl Client, re_cutoff = None, re_served = True, re_transaction = [], re_at = 0\<rparr>,
      ap_switch = sample_switch sample_start 7, ap_enqueue = sample_enqueue 5, ap_lan_mode = True, ap_tls = False,
      ap_web_index = True, ap_web_ui = (\<lambda>_. reply 200 EmptyBody)\<rparr>"

definition sample_request :: "http_method \<Rightarrow> string \<Rightarrow> headers \<Rightarrow> payload \<Rightarrow> request" where
  "sample_request m path h p =
     \<lparr>rq_method = m, rq_path = ''api'' # ''v1'' # [path], rq_headers = h, rq_query = None, rq_payload = p\<rparr>"

definition sample_credentials :: credentials where
  "sample_credentials = \<lparr>cr_username = ''admin'', cr_password = SecretString ''secret''\<rparr>"

text \<open>
  C18.  Every protected request is guarded by a live session and, if it can change anything, by the
  session's CSRF token.  In any state with credentials configured, a request to a protected route
  is either refused with 401 or 403 and leaves the service untouched, or it carries the cookie of
  an unexpired session, and its method is safe or its CSRF header has the digest of that
  session's token.
\<close>

theorem protected_guard:
  assumes "is_required (auth s)" and "is_protected (route_of (rq_method rq) (rq_path rq))"
  shows "rs_status (fst (handle_request env rq s)) \<in> {401, 403} \<and> app (snd (handle_request env rq s)) = app s
    \<or> (\<exists>token sess. cookie (rq_headers rq) SESSION_COOKIE = Some token
        \<and> auth_sessions (auth s) token = Some sess \<and> ap_now env < expires_at sess
        \<and> (rq_method rq \<in> {GET, HEAD, OPTIONS}
           \<or> (\<exists>supplied. hd_csrf_token (rq_headers rq) = Some supplied
               \<and> ap_sha256 env (as_bytes supplied) = ap_sha256 env (as_bytes (csrf_token sess)))))"
proof -
  let ?g = "require_auth (ap_sha256 env) (ap_now env) (rq_method rq) (rq_headers rq) (auth s)"
  obtain e where e: "route_of (rq_method rq) (rq_path rq) = Protected e"
    using assms(2) by (cases "route_of (rq_method rq) (rq_path rq)") auto
  show ?thesis
  proof (cases "fst ?g")
    case (Inr u)
    then show ?thesis
      using require_auth_passes [of "ap_sha256 env" "ap_now env" "rq_method rq" "rq_headers rq" "auth s"] assms(1)
      by (auto simp: safe_method_def)
  next
    case (Inl err)
    then have "err_status err \<in> {401, 403}"
      using assms(1)
      by (auto simp: require_auth_def check_csrf_def ensure_def split: prod.splits option.splits if_splits)
    moreover have "dispatch env rq (Protected e) s = (error_reply err, s\<lparr>auth := snd ?g\<rparr>)"
      using Inl by (cases ?g) (simp add: dispatch_def protected_request_def)
    ultimately show ?thesis by (simp add: handle_request_parts e error_reply_def reply_def)
  qed
qed

theorem protected_guard_witness:
  "let rq = sample_request DELETE ''connection'' \<lparr>hd_cookie = None, hd_csrf_token = None\<rparr> RejectedJson;
       s = \<lparr>app = sample_app, auth = new_auth (Some sample_credentials) True\<rparr>
   in rs_status (fst (handle_request sample_api_env rq s)) \<in> {401, 403}"
proof -
  have "is_protected (route_of DELETE [''api'', ''v1'', ''connection''])"
    by (simp add: route_of_def api_route_def by_method_def)
  then show ?thesis
    using protected_guard [of "\<lparr>app = sample_app, auth = new_auth (Some sample_credentials) True\<rparr>"
      "sample_request DELETE ''connection'' \<lparr>hd_cookie = None, hd_csrf_token = None\<rparr> RejectedJson" sample_api_env]
    by (simp add: sample_request_def new_auth_def is_required_def Let_def)
qed

end
