(* ===== verification/Control_Plane.thy ===== *)
theory Control_Plane
  imports Web_Api
begin

text \<open>
  Start-up of the control plane, \<open>run_control_plane\<close> of \<open>src/src/lib.rs\<close>, up to the point where
  the listeners are bound: the upstream address is the one the helper has pinned, it must agree
  with the configuration, and the stored policy is loaded before any actor runs.
\<close>

datatype startup_error =
    NetdUnreachable netd_client_error
  | InconsistentUpstream upstream_resolve_error
  | DatabaseFailed store_error
  | PolicyFailed store_error

record control_plane =
  cp_upstream :: resolved_upstream
  cp_request_timeout :: nat
  cp_api :: api_state

definition run_control_plane ::
    "(string \<Rightarrow> string) \<Rightarrow> (netd_request \<Rightarrow> netd_client_error + netd_response) \<Rightarrow> store_error + store \<Rightarrow> bool
     \<Rightarrow> app_config \<Rightarrow> startup_error + control_plane" where
  "run_control_plane to_uppercase netd opened served config =
     and_then (map_err NetdUnreachable (client_ping netd)) (\<lambda>address.
     and_then (map_err InconsistentUpstream (resolve_to (upstream config) address)) (\<lambda>up.
     and_then (map_err DatabaseFailed opened) (\<lambda>st.
     and_then (map_err PolicyFailed (Storage.auto_connect_config to_uppercase served st)) (\<lambda>policy.
     Inr \<lparr>cp_upstream = up, cp_request_timeout = connect_timeout config + 10,
          cp_api = new_api (new_app_state policy st) config\<rparr>))))"

text \<open>
  A started control plane uses exactly the address the helper answered, which agrees with the
  configured port; it starts disconnected, with no tests, and with a session manager that
  requires a login exactly when web credentials are configured.
\<close>

lemma started_control_plane:
  assumes "run_control_plane up netd opened served config = Inr cp"
  shows "client_ping netd = Inr (ru_address (cp_upstream cp))"
    and "sock_port (ru_address (cp_upstream cp)) = ue_port (upstream config)"
    and "is_valid_upstream_ipv4 (sock_ip (ru_address (cp_upstream cp)))"
    and "is_required (auth (cp_api cp)) \<longleftrightarrow> web_credentials config \<noteq> None"
    and "connection (app (cp_api cp)) = initial_actor"
  using assms
  by (auto simp: run_control_plane_def result_simps resolve_to_def ensure_def new_api_def new_auth_def
      is_required_def new_app_state_def split: if_splits option.splits)

lemma lan_mode_requires_login:
  assumes "run_control_plane up netd opened served config = Inr cp"
    and "from_env parse_v6 url_parse env = Inr config" and "lan_mode config"
  shows "is_required (auth (cp_api cp))"
proof -
  have "web_credentials config \<noteq> None"
    using assms(2,3) credentials_checked(2)
    unfolding from_env_def Let_def by (elim and_thenE) (simp only: sum.inject, force)
  then show ?thesis using started_control_plane(4) [OF assms(1)] by simp
qed

lemma started_auth:
  assumes "run_control_plane up netd opened served config = Inr cp"
  shows "auth (cp_api cp) = new_auth (web_credentials config) (tls config \<noteq> None)"
  using assms by (auto simp: run_control_plane_def result_simps new_api_def)

section \<open>A LAN configuration\<close>

definition lan_env :: process_env where
  "lan_env =
     \<lparr>env_var = (\<lambda>name.
        if name = ''VPNGATE2SOCKS_UPSTREAM'' then Some ''10.0.0.1:99''
        else if name = ''VPNGATE2SOCKS_LAN_MODE'' then Some ''true''
        else if name = ''VPNGATE2SOCKS_WEB_USER'' then Some ''admin''
        else if name = ''VPNGATE2SOCKS_WEB_PASSWORD'' then Some ''secret''
        else if name = ''VPNGATE2SOCKS_SOCKS_USER'' then Some ''user''
        else if name = ''VPNGATE2SOCKS_SOCKS_PASSWORD'' then Some ''word''
        else None),
      file_len = (\<lambda>_. None), file_text = (\<lambda>_. None)\<rparr>"

lemma lan_config_accepted:
  "\<exists>config. from_env (\<lambda>_. None) sample_url lan_env = Inr config \<and> lan_mode config
     \<and> web_credentials config = Some sample_credentials
     \<and> upstream config = \<lparr>ue_host = ''10.0.0.1'', ue_port = 99, ue_username = None, ue_password = None\<rparr>"
proof -
  have listeners: "listeners_from_env (\<lambda>_. None) lan_env =
     Inr \<lparr>ls_web = V4 \<lparr>sock_ip = Ipv4Addr 127 0 0 1, sock_port = 8080\<rparr>,
          ls_socks = V4 \<lparr>sock_ip = Ipv4Addr 127 0 0 1, sock_port = 1080\<rparr>, ls_lan = True, ls_container = False\<rparr>"
    by (simp add: listeners_from_env_def parse_or_def env_or_def lan_env_def parse_bool_def bool_from_str_def
        parse_socket_addr_def parse_socket_v4_def parse_port_def sample_hosts ok_or_def ensure_def
        is_ascii_digit_def dec_value_def digit_value_def)
  have low: "to_ascii_lowercase ''10.0.0.1'' = ''10.0.0.1''" by code_simp
  have up: "upstream_from_env lan_env =
      Inr \<lparr>ue_host = ''10.0.0.1'', ue_port = 99, ue_username = None, ue_password = None\<rparr>"
    by (simp add: upstream_from_env_def required_def lan_env_def parse_upstream_authority_def sample_hosts ok_or_def
        ensure_def config_value_def new_host_def map_err_def starts_with_def ends_with_def parse_uint_def
        is_ascii_digit_def dec_value_def digit_value_def low)
  have creds: "credentials_from_env lan_env True ''VPNGATE2SOCKS_WEB_USER'' ''VPNGATE2SOCKS_WEB_PASSWORD'' = Inr (Some sample_credentials)"
    "\<exists>c. credentials_from_env lan_env True ''VPNGATE2SOCKS_SOCKS_USER'' ''VPNGATE2SOCKS_SOCKS_PASSWORD'' = Inr c"
    by (simp_all add: credentials_from_env_def config_value_def lan_env_def valid_listener_credential_def
        sample_credentials_def)
  have unset: "env_var lan_env ''VPNGATE2SOCKS_RUNTIME_DIR'' = None" "env_var lan_env ''VPNGATE2SOCKS_TLS_CERT'' = None"
    "env_var lan_env ''VPNGATE2SOCKS_TLS_KEY'' = None"
    by (simp_all add: lan_env_def)
  have "tls_from_env lan_env = Inr None" using unset by (simp add: tls_from_env_def)
  moreover have "ids_from_env lan_env = Inr (10001, 10001, 10002)"
    by (simp add: ids_from_env_def parse_u64_in_def ensure_def lan_env_def)
  moreover have "\<exists>li. limits_from_env sample_url lan_env = Inr li"
    by (simp add: limits_from_env_def parse_u64_in_def parse_url_def sample_url_def ok_or_def ensure_def lan_env_def)
  ultimately show ?thesis
    using creds by (auto simp: from_env_def listeners up Let_def env_or_def unset sample_hosts)
qed

end
