(* ===== verification/Listener.thy ===== *)
theory Listener
  imports Socks_Laws Netd_System
begin

text \<open>
  The accept loops of \<open>src/src/socks.rs\<close>: \<open>run_gateway\<close> with 512 permits and \<open>run_worker\<close> with
  256, one round of the loop per event of its \<open>select!\<close>, and the set-up and clean-up of the
  worker's socket as system calls.  A spawned task holds its permit until it ends; a client that
  finds no permit is dropped.
\<close>

section \<open>The loop\<close>

datatype socks_server_error = SocksBind | SocksAccept | SocksSocket

record 'c listener =
  li_returned :: "(socks_server_error + unit) option"
  li_permits :: nat
  li_sessions :: "'c list"

datatype 'c select_event = ShutdownSeen | AcceptError | Incoming 'c

definition listening :: "nat \<Rightarrow> 'c listener" where
  "listening capacity = \<lparr>li_returned = None, li_permits = capacity, li_sessions = []\<rparr>"

definition GATEWAY_CLIENTS :: nat where "GATEWAY_CLIENTS = 512"
definition WORKER_CLIENTS :: nat where "WORKER_CLIENTS = 256"

fun accept_round :: "'c select_event \<Rightarrow> 'c listener \<Rightarrow> 'c listener" where
  "accept_round ShutdownSeen l = l\<lparr>li_returned := Some (Inr ())\<rparr>"
| "accept_round AcceptError l = l\<lparr>li_returned := Some (Inl SocksAccept)\<rparr>"
| "accept_round (Incoming c) l =
     (if li_permits l = 0 then l
      else l\<lparr>li_permits := li_permits l - 1, li_sessions := li_sessions l @ [c]\<rparr>)"

text \<open>A task ends: it drops its stream and its permit.\<close>

definition session_over :: "'c list \<Rightarrow> 'c list \<Rightarrow> 'c listener \<Rightarrow> 'c listener" where
  "session_over before after l = l\<lparr>li_permits := li_permits l + 1, li_sessions := before @ after\<rparr>"

inductive listener_step :: "'c listener \<Rightarrow> 'c listener \<Rightarrow> bool" where
  li_round: "li_returned l = None \<Longrightarrow> listener_step l (accept_round e l)"
| li_over: "li_sessions l = before @ c # after \<Longrightarrow> listener_step l (session_over before after l)"

definition permits_ok :: "nat \<Rightarrow> 'c listener \<Rightarrow> bool" where
  "permits_ok capacity l \<longleftrightarrow> li_permits l + length (li_sessions l) = capacity"

lemma accept_round_permits: "permits_ok n l \<Longrightarrow> permits_ok n (accept_round e l)"
  by (cases e) (auto simp: permits_ok_def)

lemma session_over_permits:
  "permits_ok n l \<Longrightarrow> li_sessions l = before @ c # after \<Longrightarrow> permits_ok n (session_over before after l)"
  by (simp add: permits_ok_def session_over_def)

interpretation listener: invariant_system "\<lambda>l. l = listening n" listener_step "permits_ok n" for n
proof
  show "permits_ok n s" if "s = listening n" for s using that by (simp add: permits_ok_def listening_def)
  show "permits_ok n s'" if "permits_ok n s" and "listener_step s s'" for s s'
    using that(2,1) by cases (auto intro: accept_round_permits session_over_permits)
qed

section \<open>The worker's socket\<close>

definition worker_listen :: "os \<Rightarrow> string \<Rightarrow> (log, socks_server_error, 'c listener) state_io" where
  "worker_listen os socket l =
     (case call os (RemoveFile socket) l of
        (a, l1) \<Rightarrow>
          if a = Done \<or> a = Missing then
            io_then (must_all os (\<lambda>_. SocksSocket) [Bind socket, SetMode socket (octal 6 0 0)])
              (\<lambda>_. io_return (listening WORKER_CLIENTS)) l1
          else (Inl SocksSocket, l1))"

text \<open>
  Only shutdown breaks the loop and removes the socket; a failed accept returns at once.
\<close>

definition worker_end :: "os \<Rightarrow> string \<Rightarrow> socks_server_error + unit \<Rightarrow> log \<Rightarrow> (socks_server_error + unit) \<times> log" where
  "worker_end os socket r l =
     (case r of
        Inl e \<Rightarrow> (Inl e, l)
      | Inr _ \<Rightarrow> (Inr (), attempt_call os (RemoveFile socket) l))"

definition gateway_listen :: "bool \<Rightarrow> socks_server_error + 'c listener" where
  "gateway_listen bound = and_then (ensure bound SocksBind) (\<lambda>_. Inr (listening GATEWAY_CLIENTS))"

text \<open>The loop on the events it sees, up to the one that makes it return.\<close>

fun accept_loop :: "'c select_event list \<Rightarrow> 'c listener \<Rightarrow> 'c listener" where
  "accept_loop [] l = l"
| "accept_loop (e # es) l = (if li_returned l = None then accept_loop es (accept_round e l) else l)"

definition run_worker ::
    "os \<Rightarrow> string \<Rightarrow> 'c select_event list \<Rightarrow> log \<Rightarrow> (socks_server_error + unit) option \<times> log" where
  "run_worker os socket events l =
     (case worker_listen os socket l of
        (Inl e, l1) \<Rightarrow> (Some (Inl e), l1)
      | (Inr li, l1) \<Rightarrow>
          (case li_returned (accept_loop events (li :: 'c listener)) of
             None \<Rightarrow> (None, l1)
           | Some r \<Rightarrow> (case worker_end os socket r l1 of (r, l2) \<Rightarrow> (Some r, l2))))"

definition run_gateway :: "bool \<Rightarrow> 'c select_event list \<Rightarrow> (socks_server_error + unit) option" where
  "run_gateway bound events =
     (case gateway_listen bound of
        Inl e \<Rightarrow> Some (Inl e)
      | Inr li \<Rightarrow> li_returned (accept_loop events (li :: 'c listener)))"

section \<open>When a listener returns\<close>

lemma accept_loop_returned:
  assumes "li_returned l = None"
  shows "li_returned (accept_loop es l) =
    map_option (\<lambda>e. if e = ShutdownSeen then Inr () else Inl SocksAccept)
      (find (\<lambda>e. e = ShutdownSeen \<or> e = AcceptError) es)"
  using assms
proof (induction es arbitrary: l)
  case (Cons e es)
  have stop: "li_returned l' \<noteq> None \<Longrightarrow> accept_loop es l' = l'" for l' :: "'a listener" by (cases es) auto
  from Cons show ?case by (cases e) (auto simp: stop)
qed simp

text \<open>
  The gateway runs until the first shutdown or accept failure among the events, and only a bind
  or accept failure makes it return an error.
\<close>

lemma run_gateway_result:
  "run_gateway bound es =
     (if \<not> bound then Some (Inl SocksBind)
      else map_option (\<lambda>e. if e = ShutdownSeen then Inr () else Inl SocksAccept)
        (find (\<lambda>e. e = ShutdownSeen \<or> e = AcceptError) es))"
  by (simp add: run_gateway_def gateway_listen_def ensure_def accept_loop_returned listening_def)

text \<open>A worker that returns without an error has tried to remove its socket last.\<close>

lemma run_worker_removes_socket:
  assumes "run_worker os socket es l = (Some (Inr ()), l')"
  shows "\<exists>l1 a. l' = l1 @ [(RemoveFile socket, a)] \<and> (SetMode socket (octal 6 0 0), Done) \<in> set l1"
  using assms
  by (auto simp: run_worker_def worker_listen_def worker_end_def attempt_call_def call_def must_def io_then_def
      split: prod.splits sum.splits if_splits option.splits)

end
