(* ===== verification/Proxy_System.thy ===== *)
theory Proxy_System
  imports Connection_Actor Listener
begin

text \<open>
  The proxy as clients see it: the connection actor, which publishes the socket of the active
  worker, and the gateway, whose sessions read that socket.  The two run concurrently.  A branch
  of the actor is one step of \<open>Connection_Actor\<close>, but its effects become visible one by one
  (\<open>px_seen\<close> counts them), so that a session may read the watch channel between any two of them.
  What a session finds behind a socket is arbitrary.
\<close>

section \<open>State and steps\<close>

record relay =
  rl_client :: conn
  rl_worker :: conn
  rl_path :: string
  rl_at :: nat

datatype session = Handshake conn | Relaying relay

record proxy =
  px_actor :: actor
  px_seen :: nat
  px_gateway :: "session listener"

definition visible :: "proxy \<Rightarrow> effect list" where
  "visible px = take (px_seen px) (effects (px_actor px))"

definition initial_proxy :: proxy where
  "initial_proxy = \<lparr>px_actor = initial_actor, px_seen = 0, px_gateway = listening GATEWAY_CLIENTS\<rparr>"

text \<open>
  A session up to its relay, which keeps the permit.  Connecting to a socket opens a stream to
  which nothing has been written yet.
\<close>

definition open_socket :: "(string \<Rightarrow> conn option) \<Rightarrow> string \<Rightarrow> conn option" where
  "open_socket sockets path = map_option (\<lambda>w. w\<lparr>c_out := []\<rparr>) (sockets path)"

definition gateway_session ::
    "(bytes \<Rightarrow> bytes) \<Rightarrow> credentials option \<Rightarrow> (string \<Rightarrow> conn option) \<Rightarrow> session list \<Rightarrow> conn \<Rightarrow> session list
     \<Rightarrow> proxy \<Rightarrow> proxy" where
  "gateway_session sha256 credentials sockets before c after px =
     (case handle_gateway_connection sha256 credentials (published (visible px)) (open_socket sockets) c of
        (Inr _, c', Some w) \<Rightarrow>
          px\<lparr>px_gateway := (px_gateway px)\<lparr>li_sessions := before @ Relaying
             \<lparr>rl_client = c, rl_worker = w, rl_path = the (published (visible px)), rl_at = px_seen px\<rparr> # after\<rparr>\<rparr>
      | _ \<Rightarrow> px\<lparr>px_gateway := session_over before after (px_gateway px)\<rparr>)"

inductive proxy_step :: "(bytes \<Rightarrow> bytes) \<Rightarrow> credentials option \<Rightarrow> proxy \<Rightarrow> proxy \<Rightarrow> bool"
  for sha256 :: "bytes \<Rightarrow> bytes" and credentials :: "credentials option" where
  px_branch: "px_seen px = length (effects (px_actor px)) \<Longrightarrow> actor_step (px_actor px) a
    \<Longrightarrow> proxy_step sha256 credentials px (px\<lparr>px_actor := a\<rparr>)"
| px_effect: "px_seen px < length (effects (px_actor px))
    \<Longrightarrow> proxy_step sha256 credentials px (px\<lparr>px_seen := px_seen px + 1\<rparr>)"
| px_round: "li_returned (px_gateway px) = None \<Longrightarrow> e \<in> {ShutdownSeen, AcceptError, Incoming (Handshake c)}
    \<Longrightarrow> proxy_step sha256 credentials px (px\<lparr>px_gateway := accept_round e (px_gateway px)\<rparr>)"
| px_session: "li_sessions (px_gateway px) = before @ Handshake c # after
    \<Longrightarrow> proxy_step sha256 credentials px (gateway_session sha256 credentials sockets before c after px)"
| px_relayed: "li_sessions (px_gateway px) = before @ Relaying r # after
    \<Longrightarrow> proxy_step sha256 credentials px (px\<lparr>px_gateway := session_over before after (px_gateway px)\<rparr>)"

section \<open>The actor only adds to its log\<close>

definition extends :: "actor \<Rightarrow> actor \<Rightarrow> bool" where
  "extends a b \<longleftrightarrow> (\<exists>new. effects b = effects a @ new)"

lemma extends_refl: "effects b = effects a \<Longrightarrow> extends a b"
  by (simp add: extends_def)

lemma extends_trans: "extends a b \<Longrightarrow> extends b c \<Longrightarrow> extends a c"
  by (auto simp: extends_def)

lemma extends_perform [simp]: "effects a = effects b \<Longrightarrow> extends a (perform e b)"
  by (simp add: extends_def perform_def)

lemmas branch_defs = start_worker_def start_failed_def start_succeeded_def drain_old_def publish_defs perform_def
  tunnel_lost_def health_tick_def disconnect_command_def stop_active_def shut_down_def drained_def timer_defs

lemma start_worker_extends: "extends a (snd (start_worker env n p a))"
  by (auto simp: extends_def branch_defs Let_def split: sum.split option.split)

lemma switch_extends: "extends a (snd (switch_connection env n a))"
  using switch_connection_outcome [of n a env] start_worker_extends extends_refl by auto

lemma try_candidate_extends: "extends a (snd (try_candidate env n a))"
  using switch_extends [of a "at_switch env" n]
  by (auto simp: try_candidate_def extends_def timer_defs split: prod.split sum.split)

lemma attempt_extends: "extends a (attempt env a)"
proof -
  have "extends a (snd (attempt_auto_connect env a))"
    using try_candidate_extends [of "retain_after (at_now env) a" env]
    by (auto simp: attempt_auto_connect_def Let_def extends_def timer_defs split: sum.split option.split)
  then show ?thesis by (auto simp: attempt_def extends_def split: prod.split)
qed

lemma connection_actor_extends: "extends a (connection_actor i a)"
proof (cases i)
  case (ConfigChanged env)
  then show ?thesis
    using attempt_extends [of "reset_delay (a\<lparr>auto_failures := []\<rparr>)" env]
    by (simp add: config_changed_def extends_def timer_defs)
next
  case (ConnectTo n env)
  then show ?thesis using switch_extends [of a env n]
    by (auto simp: connect_command_def extends_def timer_defs split: prod.split)
qed (use attempt_extends in \<open>auto simp: extends_def branch_defs Let_def split: option.split\<close>)

lemma actor_step_extends: "actor_step a b \<Longrightarrow> extends a b"
  by (erule actor_step.cases) (auto simp: connection_actor_extends, simp add: extends_def branch_defs)

section \<open>What is relayed\<close>

definition relay_ok :: "(bytes \<Rightarrow> bytes) \<Rightarrow> credentials option \<Rightarrow> effect list \<Rightarrow> relay \<Rightarrow> bool" where
  "relay_ok sha256 credentials tr r \<longleftrightarrow>
     rl_at r \<le> length tr \<and> published (take (rl_at r) tr) = Some (rl_path r) \<and> live_at (take (rl_at r) tr)
     \<and> client_admitted sha256 credentials (rl_client r)
     \<and> (\<exists>t. validate_target t = Inr () \<and> c_out (rl_worker r) = [5, 1, 0] @ request_bytes t)"

definition proxy_ok :: "(bytes \<Rightarrow> bytes) \<Rightarrow> credentials option \<Rightarrow> proxy \<Rightarrow> bool" where
  "proxy_ok sha256 credentials px \<longleftrightarrow>
     actor_ok (px_actor px) \<and> px_seen px \<le> length (effects (px_actor px)) \<and> permits_ok GATEWAY_CLIENTS (px_gateway px)
     \<and> (\<forall>r. Relaying r \<in> set (li_sessions (px_gateway px)) \<longrightarrow> relay_ok sha256 credentials (effects (px_actor px)) r)"

lemma relay_ok_extends:
  "relay_ok sha256 credentials (effects a) r \<Longrightarrow> extends a b \<Longrightarrow> relay_ok sha256 credentials (effects b) r"
  by (auto simp: relay_ok_def extends_def)

lemma gateway_session_ok:
  assumes "proxy_ok sha256 credentials px" and "li_sessions (px_gateway px) = before @ Handshake c # after"
  shows "proxy_ok sha256 credentials (gateway_session sha256 credentials sockets before c after px)"
proof -
  obtain r c' w where h: "handle_gateway_connection sha256 credentials (published (visible px)) (open_socket sockets) c = (r, c', w)"
    by (metis prod.exhaust)
  have over: "proxy_ok sha256 credentials (px\<lparr>px_gateway := session_over before after (px_gateway px)\<rparr>)"
    using assms session_over_permits [of GATEWAY_CLIENTS "px_gateway px"] by (auto simp: proxy_ok_def session_over_def)
  show ?thesis
  proof (cases "\<exists>w'. r = Inr () \<and> w = Some w'")
    case True
    then obtain w' where r: "r = Inr ()" "w = Some w'" by blast
    from gateway_success [of sha256 credentials "published (visible px)" "open_socket sockets" c c' w] h r
    obtain path t where p: "published (visible px) = Some path" "validate_target t = Inr ()"
      "c_out w' = [5, 1, 0] @ request_bytes t" "client_admitted sha256 credentials c" by (auto simp: open_socket_def)
    have "live_at (visible px)" using assms(1) routes_live_at by (simp add: proxy_ok_def actor_ok_def visible_def)
    with p assms h r show ?thesis
      by (auto simp: gateway_session_def proxy_ok_def permits_ok_def relay_ok_def visible_def)
  next
    case False
    then show ?thesis using over h by (auto simp: gateway_session_def split: sum.split option.split)
  qed
qed

interpretation proxy: invariant_system "\<lambda>px. px = initial_proxy" "proxy_step sha256 credentials"
  "proxy_ok sha256 credentials" for sha256 credentials
proof
  show "proxy_ok sha256 credentials s" if "s = initial_proxy" for s
    using that actor.init_inv [of initial_actor]
    by (simp add: proxy_ok_def initial_proxy_def permits_ok_def listening_def)
  show "proxy_ok sha256 credentials s'" if "proxy_ok sha256 credentials s" and "proxy_step sha256 credentials s s'" for s s'
    using that(2,1)
  proof cases
    case (px_branch a)
    have "actor_ok a" using px_branch(3) that(1) actor.step_inv by (auto simp: proxy_ok_def)
    moreover have ext: "extends (px_actor s) a" by (rule actor_step_extends [OF px_branch(3)])
    moreover from ext have "length (effects (px_actor s)) \<le> length (effects a)" by (auto simp: extends_def)
    ultimately show ?thesis using that(1) px_branch relay_ok_extends [OF _ ext] by (auto simp: proxy_ok_def)
  next
    case (px_round e c)
    then show ?thesis using that(1) accept_round_permits [of GATEWAY_CLIENTS "px_gateway s" e]
      by (auto simp: proxy_ok_def split: if_splits)
  next
    case (px_session before c after sockets)
    then show ?thesis using that(1) gateway_session_ok by blast
  next
    case (px_relayed before r after)
    then show ?thesis using that(1) session_over_permits [of GATEWAY_CLIENTS "px_gateway s"]
      by (auto simp: proxy_ok_def session_over_def)
  qed (simp add: proxy_ok_def)
qed

section \<open>Properties of the proxy\<close>

lemma reveal_all:
  assumes "reachable I (proxy_step sha256 credentials) px"
    and "px_seen px + n = length (effects (px_actor px))"
  shows "reachable I (proxy_step sha256 credentials) (px\<lparr>px_seen := length (effects (px_actor px))\<rparr>)"
  using assms
proof (induction n arbitrary: px)
  case (Suc n)
  have "reachable I (proxy_step sha256 credentials) (px\<lparr>px_seen := px_seen px + 1\<rparr>)"
    by (rule reach_step [OF Suc.prems(1) px_effect]) (use Suc.prems(2) in simp)
  from Suc.IH [OF this] Suc.prems(2) show ?case by simp
next
  case 0
  then have "px\<lparr>px_seen := length (effects (px_actor px))\<rparr> = px" by (cases px) simp
  with 0(1) show ?case by (simp only:)
qed

definition sample_client :: conn where
  "sample_client = stream_of ([5, 1, 0] @ request_bytes (TargetIpv4 (Ipv4Addr 1 1 1 1) 443))"

text \<open>The proxy connected by \<open>sample_actor\<close>, with one client that has just been accepted.\<close>

definition sample_proxy :: proxy where
  "sample_proxy =
     \<lparr>px_actor = sample_actor, px_seen = length (effects sample_actor),
      px_gateway = \<lparr>li_returned = None, li_permits = 511, li_sessions = [Handshake sample_client]\<rparr>\<rparr>"

lemma sample_proxy_reachable: "reachable (\<lambda>px. px = initial_proxy) (proxy_step sha256 credentials) sample_proxy"
proof -
  let ?R = "reachable (\<lambda>px. px = initial_proxy) (proxy_step sha256 credentials)"
  let ?a = "initial_proxy\<lparr>px_actor := sample_actor\<rparr>"
  have "actor_step initial_actor sample_actor"
    unfolding sample_actor_def by (rule step_input) (simp_all add: fresh_worker_def initial_actor_def)
  then have "proxy_step sha256 credentials initial_proxy ?a"
    by (intro px_branch) (simp_all add: initial_proxy_def initial_actor_def)
  then have a: "?R ?a" by (rule reach_step [OF reach_init, rotated]) simp
  have b: "?R (?a\<lparr>px_seen := length (effects sample_actor)\<rparr>)"
    using reveal_all [OF a, of "length (effects sample_actor)"] by (simp add: initial_proxy_def)
  have "sample_proxy = (?a\<lparr>px_seen := length (effects sample_actor)\<rparr>)
      \<lparr>px_gateway := accept_round (Incoming (Handshake sample_client)) (listening GATEWAY_CLIENTS)\<rparr>"
    by (simp add: sample_proxy_def initial_proxy_def listening_def GATEWAY_CLIENTS_def)
  moreover have "?R \<dots>"
    using reach_step [OF b px_round [of _ "Incoming (Handshake sample_client)" sample_client]]
    by (simp add: initial_proxy_def listening_def)
  ultimately show ?thesis by simp
qed

lemma sample_published: "published (visible sample_proxy) = Some ''/run/w/socks.sock''"
  by code_simp

text \<open>
  C3.  Only live workers, only admitted clients, only checked targets.  However the gateway's
  sessions interleave with the effects of the connection actor, at most 512 sessions hold a
  permit, and for every session that is being relayed: when it read the watch channel, the path
  it found was the socket the helper had returned for a worker that was started, was the one
  routed to and had not been sent a stop request; its client had logged in if credentials are
  configured; and that worker's socket was sent the greeting and the request for a target that
  passed validation, and nothing else.
\<close>

theorem relayed_through_live_worker:
  assumes "reachable (\<lambda>px. px = initial_proxy) (proxy_step sha256 credentials) px"
    and "Relaying r \<in> set (li_sessions (px_gateway px))"
  shows "length (li_sessions (px_gateway px)) \<le> 512
    \<and> (\<exists>w tr. tr = take (rl_at r) (effects (px_actor px)) \<and> published tr = Some (rl_path r)
         \<and> routed tr = Some w \<and> StartCall w (Inr (rl_path r)) \<in> set tr \<and> w \<notin> stopped_workers tr)
    \<and> client_admitted sha256 credentials (rl_client r)
    \<and> (\<exists>t. validate_target t = Inr () \<and> c_out (rl_worker r) = [5, 1, 0] @ request_bytes t)"
proof -
  have ok: "proxy_ok sha256 credentials px" using assms(1) by (rule proxy.reachable_inv)
  then have "relay_ok sha256 credentials (effects (px_actor px)) r" using assms(2) by (simp add: proxy_ok_def)
  moreover have "length (li_sessions (px_gateway px)) \<le> 512"
    using ok by (auto simp: proxy_ok_def permits_ok_def GATEWAY_CLIENTS_def)
  ultimately show ?thesis by (auto simp: relay_ok_def live_at_def)
qed

theorem relayed_through_live_worker_witness:
  "\<exists>px r w. reachable (\<lambda>px. px = initial_proxy) (proxy_step id None) px \<and> li_sessions (px_gateway px) = [Relaying r]
     \<and> StartCall w (Inr ''/run/w/socks.sock'') \<in> set (effects (px_actor px))"
proof -
  let ?sockets = "\<lambda>_. Some (stream_of ([5, 0] @ reply_bytes 0 None))"
  obtain c w where h: "handle_gateway_connection id None (Some ''/run/w/socks.sock'') (open_socket ?sockets) sample_client = (Inr (), c, w)"
    using gateway_sample [of "''/run/w/socks.sock''"] by (auto simp: sample_client_def open_socket_def [abs_def] stream_of_def)
  obtain w' where w: "w = Some w'" using gateway_success [OF h] by blast
  let ?px = "gateway_session id None ?sockets [] sample_client [] sample_proxy"
  have px: "reachable (\<lambda>px. px = initial_proxy) (proxy_step id None) ?px"
    by (rule reach_step [OF sample_proxy_reachable px_session [of _ "[]" _ "[]"]]) (simp add: sample_proxy_def)
  have s: "li_sessions (px_gateway ?px) = [Relaying \<lparr>rl_client = sample_client, rl_worker = w',
      rl_path = ''/run/w/socks.sock'', rl_at = px_seen sample_proxy\<rparr>]"
    using h w sample_published by (simp add: gateway_session_def)
  have "\<exists>v. StartCall v (Inr ''/run/w/socks.sock'') \<in> set (effects (px_actor ?px))"
    using relayed_through_live_worker [OF px, of "\<lparr>rl_client = sample_client, rl_worker = w',
      rl_path = ''/run/w/socks.sock'', rl_at = px_seen sample_proxy\<rparr>"] s by (auto dest: in_set_takeD)
  with px s show ?thesis by blast
qed

end
