(* ===== verification/Process.thy ===== *)
theory Process
  imports Control_Plane Proxy_System
begin

text \<open>
  The process roles and the end of the control plane, \<open>src/src/lib.rs\<close>: which role the command
  line selects and what it reads, the listeners \<open>run_control_plane\<close> waits for after its start-up,
  the result it returns, and the signal handler.  What the servers of other crates return is an
  argument; the SOCKS gateway is the one of \<open>Listener\<close>.
\<close>

section \<open>Roles\<close>

datatype command = Serve | Netd | Worker string bool | NamespaceSetup

datatype role =
    ControlPlaneRole app_config
  | HelperRole app_config
  | WorkerRole string bool
  | NamespaceRole

text \<open>Only the control plane and the helper read the environment; serving is the default.\<close>

definition run_role ::
    "(string \<Rightarrow> (128 word \<times> u16) option) \<Rightarrow> (string \<Rightarrow> url option) \<Rightarrow> process_env \<Rightarrow> command option
     \<Rightarrow> config_error + role" where
  "run_role parse_v6 url_parse env c =
     (case (case c of None \<Rightarrow> Serve | Some c \<Rightarrow> c) of
        Serve \<Rightarrow> and_then (from_env parse_v6 url_parse env) (\<lambda>config. Inr (ControlPlaneRole config))
      | Netd \<Rightarrow> and_then (from_env parse_v6 url_parse env) (\<lambda>config. Inr (HelperRole config))
      | Worker socket require_tun \<Rightarrow> Inr (WorkerRole socket require_tun)
      | NamespaceSetup \<Rightarrow> Inr NamespaceRole)"

section \<open>Signals\<close>

text \<open>
  Without a SIGTERM listener only Ctrl-C is waited for; a failure to listen for Ctrl-C counts
  as a signal.
\<close>

datatype signal_event = CtrlC bool | Terminate

fun signal_handler :: "bool \<Rightarrow> signal_event list \<Rightarrow> bool" where
  "signal_handler sigterm_installed [] = False"
| "signal_handler sigterm_installed (CtrlC ok # later) = True"
| "signal_handler sigterm_installed (Terminate # later) = (sigterm_installed \<or> signal_handler sigterm_installed later)"

section \<open>The control plane after its start-up\<close>

datatype web_error = TlsNotLoaded | HttpsFailed | HttpFailed

definition serve_web :: "(tls_config \<Rightarrow> bool) \<Rightarrow> bool \<Rightarrow> tls_config option \<Rightarrow> web_error + unit" where
  "serve_web loads served t =
     (case t of
        Some files \<Rightarrow> and_then (ensure (loads files) TlsNotLoaded) (\<lambda>_. ensure served HttpsFailed)
      | None \<Rightarrow> ensure served HttpFailed)"

datatype listener_end =
    WebEnded "web_error + unit"
  | SocksEnded "socks_server_error + unit"
  | ShutdownRequested

datatype run_error = StartupFailed startup_error | WebFailed web_error | SocksFailed socks_server_error

text \<open>
  The result, and whether the shutdown token is cancelled when \<open>run_control_plane\<close> returns: an
  error of a listener returns before the call of \<open>cancel\<close>.
\<close>

fun after_listeners :: "listener_end \<Rightarrow> (run_error + unit) \<times> bool" where
  "after_listeners (WebEnded (Inl e)) = (Inl (WebFailed e), False)"
| "after_listeners (SocksEnded (Inl e)) = (Inl (SocksFailed e), False)"
| "after_listeners _ = (Inr (), True)"

definition run_control_plane_to_end ::
    "(string \<Rightarrow> string) \<Rightarrow> (netd_request \<Rightarrow> netd_client_error + netd_response) \<Rightarrow> store_error + store \<Rightarrow> bool
     \<Rightarrow> app_config \<Rightarrow> listener_end \<Rightarrow> run_error + unit" where
  "run_control_plane_to_end to_uppercase netd opened served config ending =
     and_then (map_err StartupFailed (run_control_plane to_uppercase netd opened served config))
       (\<lambda>cp. fst (after_listeners ending))"

section \<open>The end of the process\<close>

text \<open>
  When \<open>run_control_plane\<close> returns, the runtime is dropped and with it every task that is still
  running, the connection actor among them: from then on nothing happens.
\<close>

record process =
  pr_proxy :: proxy
  pr_cancelled :: bool
  pr_result :: "(run_error + unit) option"

inductive process_step :: "(bytes \<Rightarrow> bytes) \<Rightarrow> credentials option \<Rightarrow> process \<Rightarrow> process \<Rightarrow> bool"
  for sha256 :: "bytes \<Rightarrow> bytes" and credentials :: "credentials option" where
  pr_task: "pr_result p = None \<Longrightarrow> proxy_step sha256 credentials (pr_proxy p) px
    \<Longrightarrow> process_step sha256 credentials p (p\<lparr>pr_proxy := px\<rparr>)"
| pr_signal: "pr_result p = None \<Longrightarrow> signal_handler installed seen
    \<Longrightarrow> process_step sha256 credentials p (p\<lparr>pr_cancelled := True\<rparr>)"
| pr_return: "pr_result p = None \<Longrightarrow> (e = ShutdownRequested \<Longrightarrow> pr_cancelled p)
    \<Longrightarrow> after_listeners e = (r, c)
    \<Longrightarrow> process_step sha256 credentials p (p\<lparr>pr_result := Some r, pr_cancelled := pr_cancelled p \<or> c\<rparr>)"

definition initial_process :: process where
  "initial_process = \<lparr>pr_proxy = initial_proxy, pr_cancelled = False, pr_result = None\<rparr>"

text \<open>
  The process does not wait for the actor: after a signal it can return without an error while the
  worker of the active connection has been sent no stop request, although the actor would send
  one (\<open>shut_down\<close>).
\<close>

lemma exit_may_skip_stop:
  "\<exists>p c. reachable (\<lambda>p. p = initial_process) (process_step sha256 None) p \<and> pr_result p = Some (Inr ())
     \<and> active (px_actor (pr_proxy p)) = Some c \<and> con_worker c \<notin> stopped_workers (effects (px_actor (pr_proxy p)))"
proof -
  let ?R = "reachable (\<lambda>p. p = initial_process) (process_step sha256 None)"
  let ?p = "\<lambda>px. \<lparr>pr_proxy = px, pr_cancelled = False, pr_result = None\<rparr>"
  have run: "?R (?p px)" if "reachable (\<lambda>px. px = initial_proxy) (proxy_step sha256 None) px" for px
    using that
  proof induction
    case (reach_step px px')
    have "process_step sha256 None (?p px) ((?p px)\<lparr>pr_proxy := px'\<rparr>)"
      by (rule pr_task) (use reach_step in simp_all)
    then show ?case using reachable.reach_step [OF reach_step.IH] by simp
  qed (auto intro: reach_init simp: initial_process_def)
  have a: "?R (?p sample_proxy)" by (rule run [OF sample_proxy_reachable])
  have b: "?R ((?p sample_proxy)\<lparr>pr_cancelled := True\<rparr>)"
    by (rule reach_step [OF a pr_signal [of _ True "[Terminate]"]]) simp_all
  have c: "?R ((?p sample_proxy)\<lparr>pr_cancelled := True, pr_result := Some (Inr ())\<rparr>)"
    using reach_step [OF b pr_return [of _ ShutdownRequested]] by simp
  have "actor_ok sample_actor" by (rule actor.reachable_inv [OF sample_actor_reachable])
  then have "WorkerId 7 \<notin> stopped_workers (effects sample_actor)"
    by (simp add: actor_ok_def sample_actor_value)
  with c show ?thesis
    by (intro exI [of _ "(?p sample_proxy)\<lparr>pr_cancelled := True, pr_result := Some (Inr ())\<rparr>"])
       (simp add: sample_proxy_def sample_actor_value)
qed

end
