(* ===== verification/Store_Open.thy ===== *)
theory Store_Open
  imports Storage
begin

text \<open>
  \<open>Store::open\<close> of \<open>src/src/storage.rs\<close> with the migrations of \<open>src/migrations\<close>.  A database file
  is the set of migrations recorded in it and the tables that exist.  Parsing the URL and opening
  the pool are arguments, as is whether SQLite executes a migration; which tables a migration
  leaves behind is read off its statements.
\<close>

section \<open>Databases\<close>

record database =
  db_applied :: "nat list"
  db_node_tests :: "test_row list option"
  db_auto_connect :: "policy_row option option"

definition default_policy_row :: policy_row where
  "default_policy_row = \<lparr>row_enabled = False, row_region = None, row_ip_type = ''any'', row_residential = ''any''\<rparr>"

definition create_node_tests :: "database \<Rightarrow> database" where
  "create_node_tests db =
     db\<lparr>db_node_tests := Some (case db_node_tests db of None \<Rightarrow> [] | Some rows \<Rightarrow> rows)\<rparr>"

text \<open>\<open>INSERT OR IGNORE\<close> of the row with identifier 1, the only one the table admits.\<close>

definition create_auto_connect :: "database \<Rightarrow> database" where
  "create_auto_connect db =
     db\<lparr>db_auto_connect := Some (Some (case db_auto_connect db of
          Some (Some row) \<Rightarrow> row
        | _ \<Rightarrow> default_policy_row))\<rparr>"

definition migrations :: "(nat \<times> (database \<Rightarrow> database)) list" where
  "migrations = [(1, create_node_tests), (2, create_auto_connect)]"

text \<open>The migrations that are not recorded run in order, each in its own transaction.\<close>

fun run_migrations ::
    "(nat \<Rightarrow> bool) \<Rightarrow> (nat \<times> (database \<Rightarrow> database)) list \<Rightarrow> database \<Rightarrow> (store_error + unit) \<times> database" where
  "run_migrations served [] db = (Inr (), db)"
| "run_migrations served ((version, statements) # rest) db =
     (if version \<in> set (db_applied db) then run_migrations served rest db
      else if \<not> served version then (Inl Migration, db)
      else run_migrations served rest ((statements db)\<lparr>db_applied := db_applied db @ [version]\<rparr>))"

definition tables_of :: "database \<Rightarrow> store option" where
  "tables_of db =
     (case (db_node_tests db, db_auto_connect db) of
        (Some rows, Some (Some row)) \<Rightarrow> Some \<lparr>node_tests = rows, policy = row\<rparr>
      | _ \<Rightarrow> None)"

definition database_of :: "store \<Rightarrow> database" where
  "database_of st =
     \<lparr>db_applied = [1, 2], db_node_tests = Some (node_tests st), db_auto_connect = Some (Some (policy st))\<rparr>"

definition empty_database :: database where
  "empty_database = \<lparr>db_applied = [], db_node_tests = None, db_auto_connect = None\<rparr>"

section \<open>Opening\<close>

text \<open>
  Every connection to an in-memory database is a database of its own, so such a pool has one.
\<close>

definition max_connections :: "string \<Rightarrow> nat" where
  "max_connections database_url = (if contains '':memory:'' database_url then 1 else 5)"

definition open_store ::
    "(string \<Rightarrow> 'o option) \<Rightarrow> ('o \<Rightarrow> nat \<Rightarrow> database option) \<Rightarrow> (nat \<Rightarrow> bool) \<Rightarrow> string
     \<Rightarrow> store_error + database" where
  "open_store parse connect served database_url =
     and_then (ok_or Sql (parse database_url)) (\<lambda>options.
     and_then (ok_or Sql (connect options (max_connections database_url))) (\<lambda>db.
       case run_migrations served migrations db of
         (Inl e, db) \<Rightarrow> Inl e
       | (Inr _, db) \<Rightarrow> Inr db))"

text \<open>
  Opening is complete, keeps what is stored and can be repeated: whatever tables a database has,
  the opened one has both, with the rows that were there; a database that was opened before is not
  changed; a new one is the \<open>migrated\<close> store; and an interrupted migration is made up for by the
  next successful opening.
\<close>

lemma run_migrations_complete:
  assumes "set (db_applied db) \<subseteq> {1, 2}" and "1 \<in> set (db_applied db) \<longrightarrow> db_node_tests db \<noteq> None"
    and "2 \<in> set (db_applied db) \<longrightarrow> (\<exists>row. db_auto_connect db = Some (Some row))"
  shows "\<exists>db' st. run_migrations (\<lambda>_. True) migrations db = (Inr (), db') \<and> tables_of db' = Some st
    \<and> (\<forall>rows. db_node_tests db = Some rows \<longrightarrow> node_tests st = rows)
    \<and> (\<forall>row. db_auto_connect db = Some (Some row) \<longrightarrow> policy st = row)
    \<and> run_migrations served migrations db' = (Inr (), db')"
  using assms
  by (auto simp: migrations_def tables_of_def create_node_tests_def create_auto_connect_def split: option.split)

lemma open_new: "run_migrations (\<lambda>_. True) migrations empty_database = (Inr (), database_of migrated)"
  by (simp add: migrations_def empty_database_def database_of_def migrated_def create_node_tests_def
      create_auto_connect_def default_policy_row_def)

lemma reopen_same: "open_store parse (\<lambda>_ _. Some (database_of st)) served url
    = and_then (ok_or Sql (parse url)) (\<lambda>_. Inr (database_of st))"
  by (simp add: open_store_def migrations_def database_of_def ok_or_def)

lemma tables_of_database [simp]: "tables_of (database_of st) = Some st"
  by (simp add: tables_of_def database_of_def)

end
