(* ===== verification/Fleet.thy ===== *)
theory Fleet
  imports Netd_Server Background
begin

text \<open>
  The calls to the helper.  \<open>NetdClient::request\<close> of \<open>src/src/netd/protocol.rs\<close> opens one connection
  per call, writes the request and waits for the response until its timeout; \<open>serve_client\<close> of
  \<open>src/src/netd/system.rs\<close> works on the request in a task of its own, which goes on when the caller
  has given up.  The state is the worker manager, the exchanges under way (both ends of one
  connection) and the log of the calls that have returned.  Who calls is left open here: every step
  carries what the caller sees of it, and \<open>Plane\<close> composes it with the connection actor and the
  test runner.  The helper is the one that serves; its shutdown is in \<open>Netd_Server\<close>.
\<close>

section \<open>Exchanges\<close>

datatype call = CallStart worker_id | CallStop worker_id

text \<open>
  \<open>ex_client\<close> is the helper's task, \<open>None\<close> when the helper closed the connection for lack of a
  permit; \<open>ex_outcome\<close> the result its response carries; \<open>ex_waiting\<close> whether the caller still
  waits.
\<close>

record exchange =
  ex_call :: call
  ex_client :: "client option"
  ex_outcome :: "(worker_error + unit) option"
  ex_waiting :: bool

record fleet =
  fl_helper :: netd_state
  fl_exchanges :: "exchange list"
  fl_log :: "effect list"

definition fleet_new :: "nat \<Rightarrow> fleet" where
  "fleet_new max_parallel_tests =
     \<lparr>fl_helper = manager_new max_parallel_tests, fl_exchanges = [], fl_log = []\<rparr>"

definition reply_with :: "worker_error + unit \<Rightarrow> exchange \<Rightarrow> exchange" where
  "reply_with r x = x\<lparr>ex_client := Some Replying, ex_outcome := Some r\<rparr>"

definition proceed :: "client \<Rightarrow> exchange \<Rightarrow> exchange" where
  "proceed c x = x\<lparr>ex_client := Some c\<rparr>"

text \<open>
  The helper's side, with the response each path ends in.  A start fails at any point before the
  worker has been inserted into the table, and succeeds after it.
\<close>

inductive serve_step :: "exchange \<times> netd_state \<Rightarrow> exchange \<times> netd_state \<Rightarrow> bool" where
  unread: "ex_client x = Some Reading \<Longrightarrow> serve_step (x, m) (proceed Ended x, m)"
| read_start: "ex_client x = Some Reading \<Longrightarrow> ex_call x = CallStart i \<Longrightarrow> serve_step (x, m) (proceed (Cleared i) x, m)"
| reserved: "ex_client x = Some (Cleared i) \<Longrightarrow> reserve_insert i m = Inr m' \<Longrightarrow> serve_step (x, m) (proceed (Starting i) x, m')"
| not_reserved: "ex_client x = Some (Cleared i) \<Longrightarrow> reserve_insert i m = Inl e \<Longrightarrow> serve_step (x, m) (reply_with (Inl e) x, m)"
| counted: "ex_client x = Some (Starting i) \<Longrightarrow> map_of (nd_tasks m) i = Some Inserted \<Longrightarrow> reserve_count i m = Inr m'
    \<Longrightarrow> serve_step (x, m) (x, m')"
| admitted: "ex_client x = Some (Starting i) \<Longrightarrow> map_of (nd_tasks m) i = Some (Counted r) \<Longrightarrow> reserve_admit i r m = Inr m'
    \<Longrightarrow> serve_step (x, m) (x, m')"
| allocated: "ex_client x = Some (Starting i) \<Longrightarrow> map_of (nd_tasks m) i = Some Admitted \<Longrightarrow> start_allocate i m = (Inr a, m')
    \<Longrightarrow> serve_step (x, m) (x, m')"
| unallocated: "ex_client x = Some (Starting i) \<Longrightarrow> map_of (nd_tasks m) i = Some Admitted \<Longrightarrow> start_allocate i m = (Inl e, m')
    \<Longrightarrow> serve_step (x, m) (reply_with (Inl e) x, start_abandon i m')"
| inserted: "ex_client x = Some (Starting i) \<Longrightarrow> map_of (nd_tasks m) i = Some (Holding index) \<Longrightarrow> start_commit i index m = Inr m'
    \<Longrightarrow> serve_step (x, m) (x, m')"
| failed: "ex_client x = Some (Starting i) \<Longrightarrow> map_of (nd_tasks m) i \<noteq> Some Committed
    \<Longrightarrow> serve_step (x, m) (reply_with (Inl e) x, start_abandon i m)"
| started: "ex_client x = Some (Starting i) \<Longrightarrow> map_of (nd_tasks m) i = Some Committed
    \<Longrightarrow> serve_step (x, m) (reply_with (Inr ()) x, start_abandon i m)"
| removed: "ex_client x = Some Reading \<Longrightarrow> ex_call x = CallStop i \<Longrightarrow> map_of (nd_workers m) i = Some index
    \<Longrightarrow> stop_remove i m = Inr m' \<Longrightarrow> serve_step (x, m) (proceed (Stopping index) x, m')"
| not_removed: "ex_client x = Some Reading \<Longrightarrow> ex_call x = CallStop i \<Longrightarrow> stop_remove i m = Inl e
    \<Longrightarrow> serve_step (x, m) (reply_with (Inl e) x, m)"
| stopped: "ex_client x = Some (Stopping index) \<Longrightarrow> serve_step (x, m) (reply_with (Inr ()) x, stop_finish index m)"
| written: "ex_client x = Some Replying \<Longrightarrow> serve_step (x, m) (proceed Ended x, m)"

text \<open>It is the client task of \<open>Netd_Server\<close>, with more detail.\<close>

lemma serve_step_client_step:
  assumes "serve_step (x, m) (x', m')"
  shows "\<exists>c c'. ex_client x = Some c \<and> ex_client x' = Some c' \<and> client_step False (c, m) (c', m')"
  using assms by cases (auto simp: reply_with_def proceed_def intro: client_step.intros)

section \<open>The caller\<close>

text \<open>What the log records when a call returns.\<close>

fun returned :: "call \<Rightarrow> netd_client_error + string \<Rightarrow> effect" where
  "returned (CallStart w) r = StartCall w r"
| "returned (CallStop w) r = StopCall w (and_then r (\<lambda>_. Inr ()))"

text \<open>
  The response as the client classifies it; \<open>path\<close> is the socket a started worker listens on,
  \<open>message\<close> the text of an error.
\<close>

definition classified :: "string \<Rightarrow> string \<Rightarrow> worker_error + unit \<Rightarrow> netd_client_error + string" where
  "classified path message r = (case r of Inr _ \<Rightarrow> Inr path | Inl e \<Rightarrow> Inl (Rejected (error_code e) message))"

text \<open>
  A call in turn: a start for a worker never asked for, a stop for a worker whose start succeeded
  and that has not been sent a stop, and neither under way.  The helper's table follows the calls if
  every call is in turn; that the control plane makes no other calls is shown in \<open>Plane\<close>.
\<close>

definition may_call :: "call \<Rightarrow> fleet \<Rightarrow> bool" where
  "may_call c f \<longleftrightarrow>
     c \<notin> ex_call ` set (fl_exchanges f)
     \<and> (case c of
          CallStart w \<Rightarrow> w \<notin> requested_workers (fl_log f)
        | CallStop w \<Rightarrow> w \<in> started_workers (fl_log f) - stopped_workers (fl_log f))"

definition occupied :: "exchange \<Rightarrow> bool" where
  "occupied x \<longleftrightarrow> ex_client x \<noteq> None \<and> ex_client x \<noteq> Some Ended"

definition busy_clients :: "fleet \<Rightarrow> nat" where
  "busy_clients f = length (filter occupied (fl_exchanges f))"

text \<open>
  What the caller sees of a step: nothing, the connection of a new call, the return of a call with
  its result, or a call that found no helper.
\<close>

datatype link_event = Silent | Issued call | Came_back effect | Refused call

inductive link_step :: "link_event \<Rightarrow> fleet \<Rightarrow> fleet \<Rightarrow> bool" where
  fl_unavailable: "link_step (Refused c) f (f\<lparr>fl_log := fl_log f @ [returned c (Inl Unavailable)]\<rparr>)"
| fl_accepted: "busy_clients f < MAX_CLIENTS \<Longrightarrow>
    link_step (Issued c) f (f\<lparr>fl_exchanges := fl_exchanges f @ [\<lparr>ex_call = c, ex_client = Some Reading, ex_outcome = None, ex_waiting = True\<rparr>]\<rparr>)"
| fl_dropped: "link_step (Issued c) f (f\<lparr>fl_exchanges := fl_exchanges f @ [\<lparr>ex_call = c, ex_client = None, ex_outcome = None, ex_waiting = True\<rparr>]\<rparr>)"
| fl_serve: "fl_exchanges f = xs @ x # ys \<Longrightarrow> serve_step (x, fl_helper f) (x', m')
    \<Longrightarrow> link_step Silent f (f\<lparr>fl_exchanges := xs @ x' # ys, fl_helper := m'\<rparr>)"
| fl_timeout: "fl_exchanges f = xs @ x # ys \<Longrightarrow> ex_waiting x
    \<Longrightarrow> link_step (Came_back (returned (ex_call x) (Inl ClientTimeout))) f (f\<lparr>fl_exchanges := xs @ x\<lparr>ex_waiting := False\<rparr> # ys,
          fl_log := fl_log f @ [returned (ex_call x) (Inl ClientTimeout)]\<rparr>)"
| fl_answered: "fl_exchanges f = xs @ x # ys \<Longrightarrow> ex_waiting x \<Longrightarrow> ex_client x = Some Ended \<Longrightarrow> ex_outcome x = Some r
    \<Longrightarrow> link_step (Came_back (returned (ex_call x) (classified path message r))) f
          (f\<lparr>fl_exchanges := xs @ ys, fl_log := fl_log f @ [returned (ex_call x) (classified path message r)]\<rparr>)"
| fl_broken: "fl_exchanges f = xs @ x # ys \<Longrightarrow> ex_waiting x \<Longrightarrow> ex_client x \<in> {None, Some Ended}
    \<Longrightarrow> link_step (Came_back (returned (ex_call x) (Inl ClientProtocol))) f
          (f\<lparr>fl_exchanges := xs @ ys, fl_log := fl_log f @ [returned (ex_call x) (Inl ClientProtocol)]\<rparr>)"
| fl_joined: "fl_exchanges f = xs @ x # ys \<Longrightarrow> \<not> ex_waiting x \<Longrightarrow> ex_client x \<in> {None, Some Ended}
    \<Longrightarrow> link_step Silent f (f\<lparr>fl_exchanges := xs @ ys\<rparr>)"

definition in_turn :: "link_event \<Rightarrow> fleet \<Rightarrow> bool" where
  "in_turn l f \<longleftrightarrow> (case l of Issued c \<Rightarrow> may_call c f | Refused c \<Rightarrow> may_call c f | _ \<Rightarrow> True)"

lemma link_step_log:
  "link_step l f f' \<Longrightarrow> fl_log f' = fl_log f @
     (case l of Came_back e \<Rightarrow> [e] | Refused c \<Rightarrow> [returned c (Inl Unavailable)] | _ \<Rightarrow> [])"
  by (induction rule: link_step.induct) simp_all

section \<open>Invariant\<close>

fun call_worker :: "call \<Rightarrow> worker_id" where
  "call_worker (CallStart w) = w"
| "call_worker (CallStop w) = w"

definition running :: "netd_state \<Rightarrow> worker_id \<Rightarrow> bool" where
  "running m w \<longleftrightarrow> map_of (nd_workers m) w \<noteq> None"

text \<open>Whether the worker of an exchange runs, by the progress of the helper's task.\<close>

definition phase_ok :: "netd_state \<Rightarrow> exchange \<Rightarrow> bool" where
  "phase_ok m x \<longleftrightarrow>
     (case ex_call x of
        CallStart w \<Rightarrow>
          (case ex_client x of
             None \<Rightarrow> \<not> running m w \<and> ex_outcome x = None
           | Some Reading \<Rightarrow> \<not> running m w \<and> ex_outcome x = None
           | Some (Cleared i) \<Rightarrow> i = w \<and> \<not> running m w \<and> ex_outcome x = None
           | Some (Starting i) \<Rightarrow>
               i = w \<and> (running m w \<longleftrightarrow> map_of (nd_tasks m) w = Some Committed) \<and> ex_outcome x = None
           | Some (Stopping _) \<Rightarrow> False
           | Some _ \<Rightarrow> running m w \<longleftrightarrow> ex_outcome x = Some (Inr ()))
      | CallStop w \<Rightarrow>
          (case ex_client x of
             None \<Rightarrow> running m w \<and> ex_outcome x = None
           | Some Reading \<Rightarrow> running m w \<and> ex_outcome x = None
           | Some (Stopping _) \<Rightarrow> \<not> running m w \<and> ex_outcome x = None
           | Some Replying \<Rightarrow> \<not> running m w \<and> ex_outcome x \<noteq> None
           | Some Ended \<Rightarrow> running m w \<longleftrightarrow> ex_outcome x = None
           | Some _ \<Rightarrow> False))"

definition caller_ok :: "effect list \<Rightarrow> exchange \<Rightarrow> bool" where
  "caller_ok tr x \<longleftrightarrow>
     (case ex_call x of
        CallStart w \<Rightarrow> if ex_waiting x then w \<notin> requested_workers tr else StartCall w (Inl ClientTimeout) \<in> set tr
      | CallStop w \<Rightarrow>
          w \<in> started_workers tr
          \<and> (if ex_waiting x then w \<notin> stopped_workers tr else StopCall w (Inl ClientTimeout) \<in> set tr))"

text \<open>
  A call is settled when its result tells what the helper did.  Not so when the caller gave up or
  lost the connection, or when a stop request could not be sent.
\<close>

fun settled :: "effect \<Rightarrow> bool" where
  "settled (StartCall w (Inl e)) \<longleftrightarrow> e \<noteq> ClientTimeout \<and> e \<noteq> ClientProtocol"
| "settled (StopCall w (Inl e)) \<longleftrightarrow> (\<exists>code message. e = Rejected code message)"
| "settled _ \<longleftrightarrow> True"

fun concerns :: "worker_id \<Rightarrow> effect \<Rightarrow> bool" where
  "concerns w (StartCall v r) \<longleftrightarrow> v = w"
| "concerns w (StopCall v r) \<longleftrightarrow> v = w"
| "concerns w _ \<longleftrightarrow> False"

definition idle_ok :: "effect list \<Rightarrow> netd_state \<Rightarrow> worker_id \<Rightarrow> bool" where
  "idle_ok tr m w \<longleftrightarrow>
     list_all (\<lambda>e. concerns w e \<longrightarrow> settled e) tr \<longrightarrow>
     (running m w \<longleftrightarrow> w \<in> started_workers tr - stopped_workers tr)"

definition exchange_workers :: "fleet \<Rightarrow> worker_id list" where
  "exchange_workers f = map (call_worker \<circ> ex_call) (fl_exchanges f)"

definition fleet_ok :: "fleet \<Rightarrow> bool" where
  "fleet_ok f \<longleftrightarrow>
     orderly (fl_log f) \<and> distinct (exchange_workers f)
     \<and> list_all (\<lambda>x. caller_ok (fl_log f) x \<and> phase_ok (fl_helper f) x) (fl_exchanges f)
     \<and> (\<forall>w. w \<notin> set (exchange_workers f) \<longrightarrow> idle_ok (fl_log f) (fl_helper f) w)"

section \<open>One step of the helper\<close>

lemmas phase_defs = phase_ok_def running_def proceed_def reply_with_def

lemma serve_step_fields:
  assumes "serve_step (x, m) (x', m')"
  shows "ex_call x' = ex_call x" "ex_waiting x' = ex_waiting x"
  using assms by (cases; simp add: proceed_def reply_with_def)+

lemma allocate_tables:
  assumes "start_allocate i m = (r, m')"
  shows "nd_workers m' = nd_workers m"
    and "map_of (nd_tasks m') = (case r of Inr a \<Rightarrow> (map_of (nd_tasks m))(i \<mapsto> Holding (na_index a)) | Inl _ \<Rightarrow> map_of (nd_tasks m))"
  using assms
  by (auto simp: start_allocate_def allocate_network_def take_index_def set_task_def update_conv'
      split: prod.splits sum.splits if_splits)

lemma abandon_tables [simp]:
  "nd_workers (start_abandon i m) = nd_workers m"
  "map_of (nd_tasks (start_abandon i m)) = (map_of (nd_tasks m))(i := None)"
  by (auto simp: start_abandon_def drop_reservation_def release_lease_def delete_conv' split: option.split task.split)

lemmas section_tables =
  reserve_insert_def reserve_count_def reserve_admit_def start_commit_def stop_remove_def stop_finish_def
  release_lease_def set_task_def update_conv' delete_conv'

lemma serve_step_phase:
  assumes "serve_step (x, m) (x', m')" and "phase_ok m x"
  shows "phase_ok m' x'"
  using assms
  by cases (auto simp: phase_defs section_tables allocate_tables split: call.splits if_splits option.splits sum.splits)

lemma serve_step_frame:
  assumes "serve_step (x, m) (x', m')" and "phase_ok m x" and "w \<noteq> call_worker (ex_call x)"
  shows "running m' w = running m w" and "map_of (nd_tasks m') w = map_of (nd_tasks m) w"
  using assms
  by (cases; auto simp: phase_defs section_tables allocate_tables split: call.splits if_splits option.splits sum.splits)+

section \<open>Every step keeps the invariant\<close>

lemma orderly_start_once:
  "orderly tr \<Longrightarrow> StartCall w r \<in> set tr \<Longrightarrow> StartCall w r' \<in> set tr \<Longrightarrow> r = r'"
  by (induction tr rule: rev_induct) (auto simp: orderly_snoc requested_workers_def)

lemma failed_not_started: "orderly tr \<Longrightarrow> StartCall w (Inl e) \<in> set tr \<Longrightarrow> w \<notin> started_workers tr"
  using orderly_start_once [of tr w "Inl e"] by (auto simp: started_workers_def)

lemma orderly_stopped: "orderly tr \<Longrightarrow> stopped_workers tr \<subseteq> started_workers tr"
  by (induction tr rule: rev_induct) (auto simp: orderly_snoc stopped_workers_def started_workers_def)

lemma workers_snoc [simp]:
  "requested_workers (tr @ [StartCall w r]) = insert w (requested_workers tr)"
  "requested_workers (tr @ [StopCall w u]) = requested_workers tr"
  "started_workers (tr @ [StartCall w r]) = (if is_ok r then insert w (started_workers tr) else started_workers tr)"
  "started_workers (tr @ [StopCall w u]) = started_workers tr"
  "stopped_workers (tr @ [StartCall w r]) = stopped_workers tr"
  "stopped_workers (tr @ [StopCall w u]) = insert w (stopped_workers tr)"
  by (cases r; auto simp: requested_workers_def started_workers_def stopped_workers_def)+

text \<open>A call that may be made concerns no exchange under way.\<close>

lemma may_call_new:
  assumes "fleet_ok f" and "may_call c f"
  shows "call_worker c \<notin> set (exchange_workers f)"
proof
  assume "call_worker c \<in> set (exchange_workers f)"
  then obtain x where x: "x \<in> set (fl_exchanges f)" "call_worker (ex_call x) = call_worker c"
    by (auto simp: exchange_workers_def)
  moreover have "caller_ok (fl_log f) x" "orderly (fl_log f)" "ex_call x \<noteq> c"
    using assms x by (auto simp: fleet_ok_def may_call_def list_all_iff)
  ultimately show False using assms(2) orderly_start_once [of "fl_log f"]
    by (cases c; cases "ex_call x")
       (auto simp: may_call_def caller_ok_def requested_workers_def started_workers_def stopped_workers_def split: if_splits)
qed

text \<open>A worker that is held and not the subject of a call runs.\<close>

lemma held_running:
  assumes "fleet_ok f" and "w \<notin> set (exchange_workers f)" and "w \<in> started_workers (fl_log f) - stopped_workers (fl_log f)"
  shows "running (fl_helper f) w"
proof -
  from assms(3) obtain s where s: "StartCall w (Inr s) \<in> set (fl_log f)" by (auto simp: started_workers_def)
  have "settled e" if "e \<in> set (fl_log f)" "concerns w e" for e
    using that assms(1,3) orderly_start_once [OF _ s]
    by (cases e rule: effect.exhaust) (force simp: fleet_ok_def stopped_workers_def)+
  then show ?thesis using assms by (auto simp: fleet_ok_def idle_ok_def list_all_iff)
qed

lemma idle_ok_snoc:
  assumes "idle_ok tr m w" and "call_worker c \<noteq> w"
  shows "idle_ok (tr @ [returned c r]) m w"
  using assms by (cases c) (auto simp: idle_ok_def)

lemma caller_ok_snoc:
  assumes "caller_ok tr x" and "call_worker c \<noteq> call_worker (ex_call x)"
  shows "caller_ok (tr @ [returned c r]) x"
  using assms by (cases c; cases "ex_call x") (auto simp: caller_ok_def)

lemma unavailable_ok:
  assumes ok: "fleet_ok f" and call: "may_call c f"
  shows "fleet_ok (f\<lparr>fl_log := fl_log f @ [returned c (Inl Unavailable)]\<rparr>)"
proof -
  have new: "call_worker c \<notin> set (exchange_workers f)" by (rule may_call_new [OF assms])
  have "idle_ok (fl_log f @ [returned c (Inl Unavailable)]) (fl_helper f) (call_worker c)"
    using ok call new orderly_stopped [of "fl_log f"]
    by (cases c) (auto simp: fleet_ok_def idle_ok_def may_call_def is_ok_def requested_workers_def started_workers_def)
  moreover have "in_order (fl_log f) (returned c (Inl Unavailable))"
    using call by (cases c) (auto simp: may_call_def)
  ultimately show ?thesis using ok new
    by (auto simp: fleet_ok_def orderly_snoc list_all_iff exchange_workers_def image_iff
        intro: idle_ok_snoc caller_ok_snoc)
qed

lemma called_ok:
  assumes ok: "fleet_ok f" and call: "may_call c f" and client: "client \<in> {None, Some Reading}"
  shows "fleet_ok (f\<lparr>fl_exchanges := fl_exchanges f @ [\<lparr>ex_call = c, ex_client = client, ex_outcome = None, ex_waiting = True\<rparr>]\<rparr>)"
proof -
  let ?x = "\<lparr>ex_call = c, ex_client = client, ex_outcome = None, ex_waiting = True\<rparr>"
  have new: "call_worker c \<notin> set (exchange_workers f)" by (rule may_call_new [OF ok call])
  have "caller_ok (fl_log f) ?x" using call by (cases c) (auto simp: may_call_def caller_ok_def)
  moreover have "phase_ok (fl_helper f) ?x"
  proof (cases c)
    case (CallStart w)
    have "concerns w e \<longrightarrow> settled e" if "e \<in> set (fl_log f)" for e
      using that call CallStart orderly_stopped [of "fl_log f"] ok
      by (cases e rule: effect.exhaust) (auto simp: may_call_def requested_workers_def started_workers_def stopped_workers_def fleet_ok_def)
    then have "\<not> running (fl_helper f) w"
      using ok new call CallStart
      by (auto simp: fleet_ok_def idle_ok_def list_all_iff may_call_def requested_workers_def started_workers_def)
    then show ?thesis using CallStart client by (auto simp: phase_ok_def)
  next
    case (CallStop w)
    then have "running (fl_helper f) w" using held_running [OF ok] new call by (simp add: may_call_def)
    then show ?thesis using CallStop client by (auto simp: phase_ok_def)
  qed
  ultimately show ?thesis using ok new by (auto simp: fleet_ok_def exchange_workers_def)
qed

lemma phase_ok_cong:
  assumes "running m' (call_worker (ex_call x)) = running m (call_worker (ex_call x))"
    and "map_of (nd_tasks m') (call_worker (ex_call x)) = map_of (nd_tasks m) (call_worker (ex_call x))"
  shows "phase_ok m' x = phase_ok m x"
  using assms by (cases "ex_call x") (simp_all add: phase_ok_def cong: option.case_cong client.case_cong)

lemma split_exchanges:
  assumes "fleet_ok f" and "fl_exchanges f = xs @ x # ys"
  shows "caller_ok (fl_log f) x" "phase_ok (fl_helper f) x"
    and "y \<in> set xs \<union> set ys \<Longrightarrow> call_worker (ex_call y) \<noteq> call_worker (ex_call x)"
    and "y \<in> set xs \<union> set ys \<Longrightarrow> caller_ok (fl_log f) y \<and> phase_ok (fl_helper f) y"
  using assms by (auto simp: fleet_ok_def exchange_workers_def list_all_iff image_iff)

lemma serve_ok:
  assumes ok: "fleet_ok f" and x: "fl_exchanges f = xs @ x # ys" and step: "serve_step (x, fl_helper f) (x', m')"
  shows "fleet_ok (f\<lparr>fl_exchanges := xs @ x' # ys, fl_helper := m'\<rparr>)"
proof -
  let ?f = "f\<lparr>fl_exchanges := xs @ x' # ys, fl_helper := m'\<rparr>"
  note split = split_exchanges [OF ok x]
  note phase = split(2)
  note frame = serve_step_frame [OF step phase] and fields = serve_step_fields [OF step]
  have workers: "exchange_workers ?f = exchange_workers f" using x fields by (simp add: exchange_workers_def)
  have "phase_ok m' y = phase_ok (fl_helper f) y" if "y \<in> set xs \<union> set ys" for y
    using frame [OF split(3) [OF that]] by (intro phase_ok_cong) simp_all
  moreover have "caller_ok (fl_log f) x' = caller_ok (fl_log f) x"
    using fields by (cases "ex_call x") (simp_all add: caller_ok_def)
  moreover have "idle_ok (fl_log f) m' w" if "w \<notin> set (exchange_workers f)" for w
  proof -
    have "w \<noteq> call_worker (ex_call x)" using that x by (auto simp: exchange_workers_def)
    from frame(1) [OF this] show ?thesis using ok that by (simp add: fleet_ok_def idle_ok_def)
  qed
  ultimately show ?thesis using ok x serve_step_phase [OF step phase] unfolding fleet_ok_def workers
    by (simp add: list_all_iff)
qed

lemma waiting_in_order: "caller_ok tr x \<Longrightarrow> ex_waiting x \<Longrightarrow> in_order tr (returned (ex_call x) r)"
  by (cases "ex_call x") (auto simp: caller_ok_def)

lemma timeout_ok:
  assumes ok: "fleet_ok f" and x: "fl_exchanges f = xs @ x # ys" and "ex_waiting x"
  shows "fleet_ok (f\<lparr>fl_exchanges := xs @ x\<lparr>ex_waiting := False\<rparr> # ys,
    fl_log := fl_log f @ [returned (ex_call x) (Inl ClientTimeout)]\<rparr>)"
proof -
  let ?e = "returned (ex_call x) (Inl ClientTimeout)"
  note split = split_exchanges [OF ok x]
  note caller = split(1)
  have "caller_ok (fl_log f @ [?e]) y" if "y \<in> set xs \<union> set ys" for y
    using split(3,4) [OF that] by (metis caller_ok_snoc)
  moreover have "caller_ok (fl_log f @ [?e]) (x\<lparr>ex_waiting := False\<rparr>)"
    using caller by (cases "ex_call x") (auto simp: caller_ok_def)
  moreover have "idle_ok (fl_log f @ [?e]) (fl_helper f) w" if "w \<notin> set (exchange_workers f)" for w
    using ok x that by (intro idle_ok_snoc) (auto simp: fleet_ok_def exchange_workers_def)
  moreover have "phase_ok (fl_helper f) (x\<lparr>ex_waiting := False\<rparr>) = phase_ok (fl_helper f) x"
    by (cases "ex_call x") (simp_all add: phase_ok_def cong: option.case_cong client.case_cong)
  ultimately show ?thesis
    using ok x waiting_in_order [OF caller assms(3)] by (auto simp: fleet_ok_def exchange_workers_def orderly_snoc list_all_iff)
qed

text \<open>An exchange that is over leaves its worker idle.\<close>

lemma over_ok:
  assumes ok: "fleet_ok f" and x: "fl_exchanges f = xs @ x # ys"
    and new: "new = [] \<or> (\<exists>r. new = [returned (ex_call x) r] \<and> ex_waiting x)"
    and idle: "idle_ok (fl_log f @ new) (fl_helper f) (call_worker (ex_call x))"
  shows "fleet_ok (f\<lparr>fl_exchanges := xs @ ys, fl_log := fl_log f @ new\<rparr>)"
proof -
  note split = split_exchanges [OF ok x]
  note caller = split(1)
  have "orderly (fl_log f @ new)"
    using ok new waiting_in_order [OF caller] by (auto simp: fleet_ok_def orderly_snoc)
  moreover have "caller_ok (fl_log f @ new) y" if "y \<in> set xs \<union> set ys" for y
    using split(3,4) [OF that] new caller_ok_snoc by fastforce
  moreover have "idle_ok (fl_log f @ new) (fl_helper f) w"
    if "\<forall>y \<in> set xs. w \<noteq> call_worker (ex_call y)" and "\<forall>y \<in> set ys. w \<noteq> call_worker (ex_call y)" for w
  proof (cases "w = call_worker (ex_call x)")
    case False
    then have "idle_ok (fl_log f) (fl_helper f) w"
      using ok x that by (auto simp: fleet_ok_def exchange_workers_def)
    then show ?thesis using new False idle_ok_snoc by auto
  qed (simp add: idle)
  ultimately show ?thesis using ok x by (auto simp: fleet_ok_def exchange_workers_def list_all_iff image_iff)
qed

lemma answered_idle:
  assumes "fleet_ok f" and "fl_exchanges f = xs @ x # ys" and "ex_waiting x" and "ex_client x = Some Ended" and "ex_outcome x = Some r"
  shows "idle_ok (fl_log f @ [returned (ex_call x) (classified path message r)]) (fl_helper f) (call_worker (ex_call x))"
proof -
  have "caller_ok (fl_log f) x" "phase_ok (fl_helper f) x" "stopped_workers (fl_log f) \<subseteq> started_workers (fl_log f)"
    "started_workers (fl_log f) \<subseteq> requested_workers (fl_log f)"
    using assms(1,2) orderly_stopped [of "fl_log f"]
    by (auto simp: fleet_ok_def started_workers_def requested_workers_def)
  then show ?thesis using assms(3-5)
    by (cases "ex_call x"; cases r) (auto simp: idle_ok_def caller_ok_def phase_ok_def classified_def)
qed

lemma unsettled_idle: "e \<in> set tr \<Longrightarrow> concerns w e \<Longrightarrow> \<not> settled e \<Longrightarrow> idle_ok tr m w"
  by (auto simp: idle_ok_def list_all_iff)

lemma returned_concerns [simp]: "concerns (call_worker c) (returned c r)"
  by (cases c) simp_all

lemma given_up_unsettled [simp]:
  "\<not> settled (returned c (Inl ClientTimeout))" "\<not> settled (returned c (Inl ClientProtocol))"
  by (cases c; simp)+

lemma link_step_ok:
  assumes "fleet_ok f" and "link_step l f f'" and "in_turn l f"
  shows "fleet_ok f'"
  using assms(2)
proof cases
  case (fl_answered xs x ys r path message)
  then show ?thesis using over_ok [OF assms(1) fl_answered(3)] answered_idle [OF assms(1) fl_answered(3-6)] by blast
next
  case (fl_broken xs x ys)
  have "idle_ok (fl_log f @ [returned (ex_call x) (Inl ClientProtocol)]) (fl_helper f) (call_worker (ex_call x))"
    by (rule unsettled_idle [of "returned (ex_call x) (Inl ClientProtocol)"]) simp_all
  then show ?thesis using over_ok [OF assms(1) fl_broken(3)] fl_broken(2,4) by blast
next
  case (fl_joined xs x ys)
  have "returned (ex_call x) (Inl ClientTimeout) \<in> set (fl_log f)"
    using assms(1) fl_joined by (cases "ex_call x") (auto simp: fleet_ok_def caller_ok_def)
  then have "idle_ok (fl_log f) (fl_helper f) (call_worker (ex_call x))" by (rule unsettled_idle) simp_all
  then show ?thesis using over_ok [OF assms(1) fl_joined(3), of "[]"] fl_joined(2) by simp
qed (use assms(1,3) in \<open>auto simp: in_turn_def intro: unavailable_ok called_ok serve_ok timeout_ok\<close>)

lemma fleet_new_ok: "fleet_ok (fleet_new n)"
  by (simp add: fleet_ok_def fleet_new_def manager_new_def exchange_workers_def orderly_def idle_ok_def running_def
      started_workers_def)

section \<open>The helper is the server of \<open>Netd_Server\<close>\<close>

definition server_of :: "fleet \<Rightarrow> netd_server" where
  "server_of f =
     \<lparr>sv_phase = Accepting, sv_cancelled = False, sv_permits = MAX_CLIENTS - busy_clients f,
      sv_clients = List.map_filter ex_client (fl_exchanges f), sv_manager = fl_helper f\<rparr>"

lemma serve_step_not_ended: "serve_step (x, m) (x', m') \<Longrightarrow> ex_client x \<noteq> Some Ended"
  by (cases rule: serve_step.cases) auto

lemmas server_views = server_of_def busy_clients_def occupied_def List.map_filter_simps

lemma over_server:
  assumes x: "fl_exchanges f = xs @ x # ys" and client: "ex_client x \<in> {None, Some Ended}"
    and f': "fl_exchanges f' = xs @ ys" "fl_helper f' = fl_helper f"
  shows "busy_clients f' = busy_clients f \<and> server_step\<^sup>*\<^sup>* (server_of f) (server_of f')"
proof (cases "ex_client x")
  case None
  then have "server_of f' = server_of f" using x f' by (simp add: server_views)
  then show ?thesis using None x f' by (simp add: busy_clients_def occupied_def)
next
  case (Some c)
  let ?s = "(server_of f)\<lparr>sv_clients := List.map_filter ex_client xs @ List.map_filter ex_client ys\<rparr>"
  from Some have "ex_client x = Some Ended" using client by simp
  then have "server_of f' = ?s" "busy_clients f' = busy_clients f"
    and clients: "sv_clients (server_of f) = List.map_filter ex_client xs @ Ended # List.map_filter ex_client ys"
    using x f' by (simp_all add: server_views)
  moreover have "server_step (server_of f) ?s" by (rule sv_join [OF _ clients]) (simp add: server_of_def)
  ultimately show ?thesis by (simp add: r_into_rtranclp)
qed

lemma link_step_server:
  assumes "link_step l f f'" and "busy_clients f \<le> MAX_CLIENTS"
  shows "busy_clients f' \<le> MAX_CLIENTS \<and> server_step\<^sup>*\<^sup>* (server_of f) (server_of f')"
  using assms(1)
proof cases
  case (fl_accepted c)
  then have "server_of f' = accept_client (server_of f)"
    by (simp add: server_views accept_client_def MAX_CLIENTS_def)
  then have "server_step (server_of f) (server_of f')" using sv_accept [of "server_of f"] by (simp add: server_of_def)
  then show ?thesis using fl_accepted by (auto simp: busy_clients_def occupied_def)
next
  case (fl_timeout xs x ys)
  then have "server_of f' = server_of f" "busy_clients f' = busy_clients f" by (simp_all add: server_views)
  then show ?thesis using assms(2) by simp
next
  case (fl_serve xs x ys x' m')
  obtain c c' where c: "ex_client x = Some c" "ex_client x' = Some c'" "client_step False (c, fl_helper f) (c', m')"
    using serve_step_client_step [OF fl_serve(4)] by blast
  have "c \<noteq> Ended" using serve_step_not_ended [OF fl_serve(4)] c(1) by simp
  then have "server_of f' = advance (List.map_filter ex_client xs) (c', m') (List.map_filter ex_client ys) (server_of f)"
    "busy_clients f' \<le> MAX_CLIENTS"
    using fl_serve c(1,2) assms(2) by (auto simp: server_views advance_def)
  moreover have "server_step (server_of f)
      (advance (List.map_filter ex_client xs) (c', m') (List.map_filter ex_client ys) (server_of f))"
    by (rule sv_client [where c = c]) (use fl_serve(3) c in \<open>simp_all add: server_of_def List.map_filter_simps\<close>)
  ultimately show ?thesis by auto
next
  case (fl_answered xs x ys r path message)
  then show ?thesis using over_server [OF fl_answered(3), of f'] assms(2) by simp
next
  case (fl_broken xs x ys)
  then show ?thesis using over_server [OF fl_broken(3,5), of f'] assms(2) by simp
next
  case (fl_joined xs x ys)
  then show ?thesis using over_server [OF fl_joined(3,5), of f'] assms(2) by simp
qed (use assms(2) in \<open>auto simp: server_views\<close>)

lemma reachable_rtranclp: "step\<^sup>*\<^sup>* s s' \<Longrightarrow> reachable init step s \<Longrightarrow> reachable init step s'"
  by (induction rule: rtranclp_induct) (auto intro: reach_step)

lemma fleet_new_server: "busy_clients (fleet_new n) = 0" "server_of (fleet_new n) = server_new n"
  by (simp_all add: server_views fleet_new_def server_new_def)

end
