(* ===== verification/Plane.thy ===== *)
theory Plane
  imports Fleet
begin

text \<open>
  The control plane and the helper together: the connection actor, the test runner and the calls
  to the helper as one transition system.  A call is a connection that is opened and, any time
  later, a result that comes back; whoever made it goes on then.  Between the two everything else
  may run, other branches of the actor included, which is more than the program does (its actor
  waits), so what is shown of every run is shown of the program's runs.  Only start and stop
  requests are calls here: status requests do not change the helper, and the connections they use
  can at most make the helper close another one for lack of a permit, which it may do at any time.
\<close>

section \<open>The calls of the control plane\<close>

fun is_call :: "effect \<Rightarrow> bool" where
  "is_call (StartCall w r) = True"
| "is_call (StopCall w r) = True"
| "is_call _ = False"

record plane =
  pl_actor :: actor
  pl_tests :: test_service
  pl_fleet :: fleet

definition plane_new :: "store \<Rightarrow> nat \<Rightarrow> plane" where
  "plane_new st max_parallel_tests =
     \<lparr>pl_actor = initial_actor, pl_tests = initial_tests st, pl_fleet = fleet_new max_parallel_tests\<rparr>"

text \<open>A step of the actor or of the test runner, with the calls that return in it.\<close>

inductive control_step :: "nat \<Rightarrow> effect list \<Rightarrow> plane \<Rightarrow> plane \<Rightarrow> bool" for max_parallel :: nat where
  by_actor: "actor_step (pl_actor p) a \<Longrightarrow> filter is_call (effects a) = filter is_call (effects (pl_actor p)) @ cs
    \<Longrightarrow> control_step max_parallel cs p (p\<lparr>pl_actor := a\<rparr>)"
| by_tests: "test_step max_parallel (pl_tests p) s \<Longrightarrow> test_calls s = test_calls (pl_tests p) @ cs
    \<Longrightarrow> control_step max_parallel cs p (p\<lparr>pl_tests := s\<rparr>)"

text \<open>
  A call is made once, and a start is for a new random identifier.
\<close>

fun unused :: "call \<Rightarrow> fleet \<Rightarrow> bool" where
  "unused (CallStart w) f \<longleftrightarrow> w \<notin> requested_workers (fl_log f) \<union> set (exchange_workers f)"
| "unused (CallStop w) f \<longleftrightarrow> \<not> list_ex (\<lambda>x. ex_call x = CallStop w \<and> ex_waiting x) (fl_exchanges f)"

inductive plane_step :: "nat \<Rightarrow> plane \<Rightarrow> plane \<Rightarrow> bool" for max_parallel :: nat where
  pl_quiet: "control_step max_parallel [] p p' \<Longrightarrow> plane_step max_parallel p p'"
| pl_call: "control_step max_parallel [returned c r] p p' \<Longrightarrow> unused c (pl_fleet p) \<Longrightarrow> link_step (Issued c) (pl_fleet p) f
    \<Longrightarrow> plane_step max_parallel p (p\<lparr>pl_fleet := f\<rparr>)"
| pl_return: "control_step max_parallel [e] p p' \<Longrightarrow> link_step (Came_back e) (pl_fleet p) f
    \<Longrightarrow> plane_step max_parallel p (p'\<lparr>pl_fleet := f\<rparr>)"
| pl_refused: "control_step max_parallel [returned c (Inl Unavailable)] p p' \<Longrightarrow> unused c (pl_fleet p)
    \<Longrightarrow> link_step (Refused c) (pl_fleet p) f \<Longrightarrow> plane_step max_parallel p (p'\<lparr>pl_fleet := f\<rparr>)"
| pl_silent: "link_step Silent (pl_fleet p) f \<Longrightarrow> plane_step max_parallel p (p\<lparr>pl_fleet := f\<rparr>)"

section \<open>One call at a time\<close>

text \<open>Every branch of the actor and every segment of a test makes at most one call, so none is left out.\<close>

lemma calls_workers [simp]:
  "requested_workers (filter is_call tr) = requested_workers tr"
  "started_workers (filter is_call tr) = started_workers tr"
  "stopped_workers (filter is_call tr) = stopped_workers tr"
  by (auto simp: requested_workers_def started_workers_def stopped_workers_def)

definition adds_call :: "effect list \<Rightarrow> effect list \<Rightarrow> bool" where
  "adds_call tr tr' \<longleftrightarrow> (\<exists>cs. filter is_call tr' = filter is_call tr @ cs \<and> length cs \<le> 1)"

lemma adds_call_simps [simp]:
  "adds_call tr tr" "\<not> is_call e \<Longrightarrow> adds_call tr (effects (perform e a)) = adds_call tr (effects a)"
  "adds_call (effects a) (effects (perform e a))"
  by (simp_all add: adds_call_def perform_def)

lemma perform_calls [simp]:
  "filter is_call (effects (perform e a)) = filter is_call (effects a) @ (if is_call e then [e] else [])"
  by (simp add: perform_def)

lemma switch_adds_call: "adds_call (effects a) (effects (snd (switch_connection env n a)))"
  using switch_connection_outcome [of n a env]
  by (auto simp: adds_call_def start_worker_def start_failed_def start_succeeded_def drain_old_def publish_defs
      Let_def split: sum.split option.split)

lemma attempt_adds_call: "adds_call (effects a) (effects (attempt env a))"
proof -
  have "adds_call (effects a) (effects (snd (try_candidate env n a)))" for n a
    using switch_adds_call [of a "at_switch env" n]
    by (auto simp: try_candidate_def back_off_def reset_delay_def cool_down_def case_prod_beta split: sum.split prod.split)
  from this [of "retain_after (at_now env) a"] show ?thesis
    by (auto simp: attempt_def attempt_auto_connect_def back_off_def reset_delay_def retain_after_def Let_def case_prod_beta
        split: sum.split option.split)
qed

lemma stop_adds_call: "adds_call (effects a) (effects (stop_active netd a))"
  by (auto simp: stop_active_def stop_worker_def adds_call_def split: option.split)

lemma input_adds_call: "adds_call (effects a) (effects (connection_actor i a))"
proof (cases i)
  case (ConfigChanged env)
  then show ?thesis
    using attempt_adds_call [of "reset_delay (a\<lparr>auto_failures := []\<rparr>)" env] by (simp add: config_changed_def reset_delay_def)
next
  case (HealthTick env)
  then show ?thesis
    by (auto simp: health_tick_def tunnel_lost_def back_off_def cool_down_def publish_defs adds_call_def Let_def split: option.split)
next
  case (ConnectTo n env)
  then show ?thesis using switch_adds_call [of a env n]
    by (simp add: connect_command_def forget_retries_def reset_delay_def case_prod_beta)
next
  case (DisconnectNow netd)
  then show ?thesis
    by (auto simp: disconnect_command_def stop_active_def forget_retries_def reset_delay_def publish_defs adds_call_def
        split: option.split)
next
  case (Cancelled netd)
  then show ?thesis by (auto simp: shut_down_def stop_active_def publish_defs adds_call_def split: option.split)
qed (simp_all add: attempt_adds_call)

lemma actor_step_adds_call: "actor_step a a' \<Longrightarrow> adds_call (effects a) (effects a')"
  by (induction rule: actor_step.induct) (auto simp: input_adds_call, simp add: drained_def stop_worker_def adds_call_def)

lemma run_step_adds_call: "run_step s s' \<Longrightarrow> \<exists>cs. test_calls s' = test_calls s @ cs \<and> length cs \<le> 1"
  by (induction rule: run_step.induct)
     (auto simp: begin_run_def start_run_def fetch_run_def stop_run_def save_run_def report_run_def uncount_run_def
       release_permit_def log_call_def case_prod_beta Let_def split: option.split sum.split)

text \<open>The other steps of the test runner touch neither the running tests nor the calls.\<close>

lemma other_test_steps:
  assumes "test_step m s s'" and "\<not> run_step s s'"
  shows "running_jobs s' = running_jobs s" "test_calls s' = test_calls s"
  using assms
  by (cases; auto simp: enqueue_test_job_def register_job_def try_send_job_def receive_job_def spawn_job_def observe_nodes_def
      stop_dispatching_def Let_def split: sum.splits prod.splits queue_registration.splits option.splits list.splits)+

lemma test_step_adds_call: "test_step m s s' \<Longrightarrow> \<exists>cs. test_calls s' = test_calls s @ cs \<and> length cs \<le> 1"
  using other_test_steps [of m s s'] run_step_adds_call by (cases "run_step s s'") auto

section \<open>Tests hold their workers alone\<close>

text \<open>With fresh identifiers no two tests hold the same worker, and none holds one that was stopped.\<close>

definition holder :: "test_service \<Rightarrow> test_job \<Rightarrow> worker_id option" where
  "holder s job = Option.bind (map_of (running_jobs s) job) phase_worker"

lemma test_workers_holder: "test_workers s = {w. \<exists>job. holder s job = Some w}"
  by (auto simp: test_workers_def holder_def bind_eq_Some_conv)

definition tests_held :: "test_service \<Rightarrow> bool" where
  "tests_held s \<longleftrightarrow>
     orderly (test_calls s) \<and> (\<forall>i w. holder s i = Some w \<longrightarrow> w \<in> started_workers (test_calls s) - stopped_workers (test_calls s))
     \<and> (\<forall>i j w. holder s i = Some w \<longrightarrow> holder s j = Some w \<longrightarrow> i = j)"

text \<open>What a segment of a test does to the workers held and to the calls.\<close>

lemma holder_enter:
  "running_jobs s = running_jobs t \<Longrightarrow> holder (enter job p s) = (holder t)(job := phase_worker p)"
  by (rule ext) (simp add: holder_def)

lemma run_step_holder:
  assumes "run_step s s'" and "tests_ok m s"
  obtains (same) "holder s' = holder s" "test_calls s' = test_calls s"
  | (refused) w e where "holder s' = holder s" "test_calls s' = test_calls s @ [StartCall w (Inl e)]"
  | (started) job w r where "holder s' = (holder s)(job \<mapsto> w)" "test_calls s' = test_calls s @ [StartCall w (Inr r)]"
  | (stopped) job w r where "holder s job = Some w" "holder s' = (holder s)(job := None)"
      "test_calls s' = test_calls s @ [StopCall w r]"
  using assms(1)
proof cases
  case (run_begin job env)
  then have "map_of (running_jobs s) job = None"
    using assms(2) by (auto simp: tests_ok_def all_jobs_def map_of_eq_None_iff)
  then have "holder s' = holder s"
    using run_begin by (intro ext) (auto simp: holder_def begin_run_def case_prod_beta map_add_def split: option.split)
  then show ?thesis using run_begin by (intro same) (simp_all add: begin_run_def case_prod_beta)
next
  case (run_start job env)
  have none: "(holder s)(job := None) = holder s" using run_start by (auto simp: holder_def)
  have h: "holder (enter job p (s\<lparr>test_calls := tr\<rparr>)) = (holder s)(job := phase_worker p)"
    "holder (enter job p s) = (holder s)(job := phase_worker p)" for p tr
    by (rule holder_enter, simp)+
  show ?thesis using run_start same refused started none
    by (auto simp: start_run_def Let_def h log_call_def split: option.splits sum.splits)
next
  case (run_fetch job w socket env)
  then have "holder s' = holder s"
    using holder_enter [of s s job] by (auto simp: fetch_run_def holder_def)
  then show ?thesis using run_fetch by (intro same) (simp_all add: fetch_run_def)
next
  case (run_stop job w result env)
  have "holder s' = (holder s)(job := None)"
    using run_stop holder_enter [of "log_call e s" s job for e] by (simp add: stop_run_def log_call_def)
  then show ?thesis using run_stop
    by (intro stopped [of job w "client_stop_worker (ru_netd env) w"]) (simp_all add: stop_run_def log_call_def holder_def)
next
  case (run_save job outcome env)
  have "holder s' = (holder s)(job := None)"
    using run_save holder_enter [of "s\<lparr>test_store := st\<rparr>" s job for st] by (simp add: save_run_def case_prod_beta)
  moreover have "(holder s)(job := None) = holder s" using run_save by (auto simp: holder_def)
  ultimately show ?thesis using run_save by (intro same) (simp_all add: save_run_def case_prod_beta)
next
  case (run_report job st)
  then have "holder s' = holder s" by (intro ext) (simp add: holder_def report_run_def delete_conv')
  then show ?thesis using run_report by (intro same) (simp_all add: report_run_def)
next
  case run_uncount
  then have "holder s' = holder s" by (intro ext) (simp add: holder_def uncount_run_def)
  then show ?thesis using run_uncount by (intro same) (simp_all add: uncount_run_def)
next
  case run_release
  then have "holder s' = holder s" by (intro ext) (simp add: holder_def release_permit_def)
  then show ?thesis using run_release by (intro same) (simp_all add: release_permit_def)
qed

definition fresh_starts :: "effect list \<Rightarrow> effect list \<Rightarrow> bool" where
  "fresh_starts tr cs \<longleftrightarrow> requested_workers tr \<inter> requested_workers cs = {}"

lemma held_started: "tests_held s \<Longrightarrow> holder s i = Some w \<Longrightarrow> w \<in> requested_workers (test_calls s)"
  by (force simp: tests_held_def started_workers_def requested_workers_def)

lemma test_step_held:
  assumes step: "test_step m s s'" and ok: "tests_ok m s" and held: "tests_held s"
    and fresh: "test_calls s' = test_calls s @ cs" "fresh_starts (test_calls s) cs"
  shows "tests_held s'"
proof (cases "run_step s s'")
  case True
  from this ok show ?thesis
  proof (cases rule: run_step_holder)
    case (started job w r)
    then have new: "w \<notin> requested_workers (test_calls s)" using fresh by (auto simp: fresh_starts_def requested_workers_def)
    then have "w \<notin> stopped_workers (test_calls s)"
      using held orderly_stopped [of "test_calls s"] by (auto simp: tests_held_def started_workers_def requested_workers_def)
    moreover have "holder s j \<noteq> Some w" for j using new held_started [OF held] by blast
    ultimately show ?thesis using held started new by (auto simp: tests_held_def orderly_snoc split: if_splits)
  next
    case (refused w e)
    then have "w \<notin> requested_workers (test_calls s)" using fresh by (auto simp: fresh_starts_def requested_workers_def)
    then show ?thesis using held refused by (simp add: tests_held_def orderly_snoc)
  next
    case (stopped job w r)
    then show ?thesis using held by (auto simp: tests_held_def orderly_snoc split: if_splits)
  qed (use held in \<open>simp add: tests_held_def\<close>)
next
  case False
  from other_test_steps [OF step this] show ?thesis using held by (simp add: tests_held_def holder_def)
qed

section \<open>Every call is in turn\<close>

definition plane_ok :: "nat \<Rightarrow> plane \<Rightarrow> bool" where
  "plane_ok max_parallel p \<longleftrightarrow>
     actor_ok (pl_actor p) \<and> tests_ok max_parallel (pl_tests p) \<and> tests_held (pl_tests p) \<and> fleet_ok (pl_fleet p)
     \<and> requested_workers (fl_log (pl_fleet p)) = requested_workers (effects (pl_actor p)) \<union> requested_workers (test_calls (pl_tests p))
     \<and> started_workers (fl_log (pl_fleet p)) = started_workers (effects (pl_actor p)) \<union> started_workers (test_calls (pl_tests p))
     \<and> stopped_workers (fl_log (pl_fleet p)) = stopped_workers (effects (pl_actor p)) \<union> stopped_workers (test_calls (pl_tests p))
     \<and> requested_workers (effects (pl_actor p)) \<inter> requested_workers (test_calls (pl_tests p)) = {}"

lemma workers_append [simp]:
  "requested_workers (tr @ cs) = requested_workers tr \<union> requested_workers cs"
  "started_workers (tr @ cs) = started_workers tr \<union> started_workers cs"
  "stopped_workers (tr @ cs) = stopped_workers tr \<union> stopped_workers cs"
  by (auto simp: requested_workers_def started_workers_def stopped_workers_def)

lemma added_calls:
  assumes "filter is_call tr' = filter is_call tr @ cs"
  shows "requested_workers tr' = requested_workers tr \<union> requested_workers cs"
    "started_workers tr' = started_workers tr \<union> started_workers cs"
    "stopped_workers tr' = stopped_workers tr \<union> stopped_workers cs"
  using arg_cong [OF assms, of requested_workers] arg_cong [OF assms, of started_workers] arg_cong [OF assms, of stopped_workers]
  by simp_all

lemma started_requested: "started_workers tr \<subseteq> requested_workers tr"
  by (auto simp: started_workers_def requested_workers_def)

lemma orderly_calls: "orderly (filter is_call tr) = orderly tr"
proof (induction tr rule: rev_induct)
  case (snoc e tr)
  then show ?case by (cases e rule: effect.exhaust) (simp_all add: orderly_snoc)
qed simp

lemma single_workers [simp]:
  "requested_workers [StartCall w r] = {w}" "requested_workers [StopCall w u] = {}"
  by (auto simp: requested_workers_def)

text \<open>The parts of the control plane keep their invariants if a start is for a new worker.\<close>

lemma control_step_ok:
  assumes ok: "plane_ok m p" and step: "control_step m cs p p'"
    and fresh: "fresh_starts (fl_log (pl_fleet p)) cs"
  shows "actor_ok (pl_actor p') \<and> tests_ok m (pl_tests p') \<and> tests_held (pl_tests p') \<and> pl_fleet p' = pl_fleet p"
  using step
proof cases
  case (by_actor a)
  then show ?thesis using ok actor.step_inv by (auto simp: plane_ok_def)
next
  case (by_tests s)
  have "fresh_starts (test_calls (pl_tests p)) cs" using fresh ok by (auto simp: fresh_starts_def plane_ok_def)
  then show ?thesis
    using ok by_tests tests.step_inv [of m "pl_tests p" s] test_step_held [of m "pl_tests p" s cs] by (auto simp: plane_ok_def)
qed

lemma control_step_logs:
  assumes ok: "plane_ok m p" and step: "control_step m cs p p'"
    and fresh: "fresh_starts (fl_log (pl_fleet p)) cs" and log: "fleet_ok f" "fl_log f = fl_log (pl_fleet p) @ cs"
  shows "plane_ok m (p'\<lparr>pl_fleet := f\<rparr>)"
proof -
  note parts = control_step_ok [OF ok step fresh]
  show ?thesis using step
  proof cases
    case (by_actor a)
    then show ?thesis using ok fresh log parts added_calls [OF by_actor(3)]
      by (auto simp: plane_ok_def fresh_starts_def)
  next
    case (by_tests s)
    then show ?thesis using ok fresh log parts by (auto simp: plane_ok_def fresh_starts_def)
  qed
qed

text \<open>A stop that the control plane sends is for a worker that it holds.\<close>

lemma control_step_in_order:
  assumes ok: "plane_ok m p" and step: "control_step m [e] p p'"
    and fresh: "fresh_starts (fl_log (pl_fleet p)) [e]"
  shows "in_order (fl_log (pl_fleet p)) e"
proof -
  note parts = control_step_ok [OF ok step fresh]
  have sub: "stopped_workers tr \<subseteq> requested_workers tr" if "orderly tr" for tr
    using orderly_stopped [OF that] started_requested by blast
  have o: "orderly (effects (pl_actor p))" "orderly (test_calls (pl_tests p))"
    using ok by (simp_all add: plane_ok_def actor_ok_def tests_held_def)
  show ?thesis using step
  proof cases
    case (by_actor a)
    then have "orderly (filter is_call (effects (pl_actor p)) @ [e])"
      using parts orderly_calls [of "effects a"] by (simp add: actor_ok_def)
    then have "in_order (filter is_call (effects (pl_actor p))) e" by (simp add: orderly_snoc)
    then show ?thesis using ok fresh sub [OF o(2)] started_requested [of "effects (pl_actor p)"]
      by (cases e rule: effect.exhaust) (auto simp: plane_ok_def fresh_starts_def)
  next
    case (by_tests s)
    then have "in_order (test_calls (pl_tests p)) e" using parts by (simp add: tests_held_def orderly_snoc)
    then show ?thesis using ok fresh sub [OF o(1)] started_requested [of "test_calls (pl_tests p)"]
      by (cases e rule: effect.exhaust) (auto simp: plane_ok_def fresh_starts_def)
  qed
qed

text \<open>So every call of the control plane is in turn.\<close>

lemma unused_fresh: "unused c f \<Longrightarrow> fresh_starts (fl_log f) [returned c r]"
  by (cases c) (auto simp: fresh_starts_def requested_workers_def)

lemma unused_in_turn:
  assumes ok: "plane_ok m p" and step: "control_step m [returned c r] p p'" and "unused c (pl_fleet p)"
  shows "may_call c (pl_fleet p)"
proof -
  have order: "in_order (fl_log (pl_fleet p)) (returned c r)"
    by (rule control_step_in_order [OF ok step unused_fresh [OF assms(3)]])
  have "c \<noteq> ex_call x" if "x \<in> set (fl_exchanges (pl_fleet p))" for x
  proof
    assume c: "c = ex_call x"
    have caller: "caller_ok (fl_log (pl_fleet p)) x" using ok that by (simp add: plane_ok_def fleet_ok_def list_all_iff)
    show False
    proof (cases c)
      case (CallStart w)
      moreover have "call_worker (ex_call x) \<in> set (exchange_workers (pl_fleet p))" using that by (simp add: exchange_workers_def)
      ultimately show False using assms(3) c [symmetric] by simp
    next
      case (CallStop w)
      then have "w \<in> stopped_workers (fl_log (pl_fleet p))"
        using caller assms(3) that c by (auto simp: caller_ok_def list_ex_iff stopped_workers_def split: if_splits)
      then show False using order CallStop by simp
    qed
  qed
  then show ?thesis using order by (cases c) (auto simp: may_call_def)
qed

lemma plane_step_ok: "plane_step m p p' \<Longrightarrow> plane_ok m p \<Longrightarrow> plane_ok m p'"
proof (induction rule: plane_step.induct)
  case (pl_quiet p p')
  have "fresh_starts (fl_log (pl_fleet p)) []" by (simp add: fresh_starts_def requested_workers_def)
  from control_step_logs [OF pl_quiet(2,1) this, of "pl_fleet p"] control_step_ok [OF pl_quiet(2,1) this] pl_quiet(2)
  show ?case by (simp add: plane_ok_def)
next
  case (pl_call c r p p' f)
  have "in_turn (Issued c) (pl_fleet p)" using unused_in_turn [OF pl_call(4,1,2)] by (simp add: in_turn_def)
  then show ?case using link_step_ok [OF _ pl_call(3)] link_step_log [OF pl_call(3)] pl_call(4) by (simp add: plane_ok_def)
next
  case (pl_return e p p' f)
  have f: "fleet_ok f" using link_step_ok [OF _ pl_return(2)] pl_return(3) by (simp add: plane_ok_def in_turn_def)
  have log: "fl_log f = fl_log (pl_fleet p) @ [e]" using link_step_log [OF pl_return(2)] by simp
  then have "in_order (fl_log (pl_fleet p)) e" using f by (simp add: fleet_ok_def orderly_snoc)
  then have "fresh_starts (fl_log (pl_fleet p)) [e]"
    by (cases e rule: effect.exhaust) (auto simp: fresh_starts_def requested_workers_def)
  from control_step_logs [OF pl_return(3,1) this f log] show ?case .
next
  case (pl_refused c p p' f)
  have "in_turn (Refused c) (pl_fleet p)" using unused_in_turn [OF pl_refused(4,1,2)] by (simp add: in_turn_def)
  then have f: "fleet_ok f" using link_step_ok [OF _ pl_refused(3)] pl_refused(4) by (simp add: plane_ok_def)
  show ?case
    using control_step_logs [OF pl_refused(4,1) unused_fresh [OF pl_refused(2)] f] link_step_log [OF pl_refused(3)] by simp
next
  case (pl_silent p f)
  then show ?case using link_step_ok [OF _ pl_silent(1)] link_step_log [OF pl_silent(1)] by (simp add: plane_ok_def in_turn_def)
qed

interpretation plane: invariant_system "\<lambda>p. \<exists>st. p = plane_new st m" "plane_step m" "plane_ok m" for m
proof
  show "plane_ok m p" if "\<exists>st. p = plane_new st m" for p
    using that actor.init_inv [of initial_actor] tests.init_inv fleet_new_ok
    by (auto simp: plane_ok_def plane_new_def tests_held_def holder_def initial_actor_def initial_tests_def fleet_new_def
        orderly_def requested_workers_def started_workers_def stopped_workers_def)
qed (rule plane_step_ok)

section \<open>Control plane and helper agree\<close>

lemma reachable_plane_server:
  assumes "reachable (\<lambda>p. \<exists>st. p = plane_new st m) (plane_step m) p"
  shows "busy_clients (pl_fleet p) \<le> MAX_CLIENTS
    \<and> reachable (\<lambda>s. \<exists>n. s = server_new n) server_step (server_of (pl_fleet p))"
  using assms
proof induction
  case (reach_init p)
  then show ?case by (auto simp: plane_new_def fleet_new_server intro!: reachable.reach_init)
next
  case (reach_step p p')
  have "pl_fleet p' = pl_fleet p \<or> (\<exists>l. link_step l (pl_fleet p) (pl_fleet p'))"
    using reach_step(2) by cases (auto elim!: control_step.cases)
  then have "busy_clients (pl_fleet p') \<le> MAX_CLIENTS" "server_step\<^sup>*\<^sup>* (server_of (pl_fleet p)) (server_of (pl_fleet p'))"
    using link_step_server reach_step.IH by fastforce+
  with reach_step.IH show ?case by (simp add: reachable_rtranclp [of server_step "server_of (pl_fleet p)"])
qed

text \<open>The workers the control plane holds: of the active connection, being drained, or under test.\<close>

definition held_workers :: "plane \<Rightarrow> worker_id set" where
  "held_workers p =
     set_option (map_option con_worker (active (pl_actor p))) \<union> fst ` set (draining (pl_actor p)) \<union> test_workers (pl_tests p)"

lemma held_workers_log:
  assumes "plane_ok m p"
  shows "held_workers p = started_workers (fl_log (pl_fleet p)) - stopped_workers (fl_log (pl_fleet p))"
proof -
  let ?a = "effects (pl_actor p)" and ?t = "test_calls (pl_tests p)"
  have "started_workers ?a - stopped_workers ?a
      = set_option (map_option con_worker (active (pl_actor p))) \<union> fst ` set (draining (pl_actor p))"
    using assms by (cases "active (pl_actor p)") (auto simp: plane_ok_def actor_ok_def)
  moreover have "started_workers ?t - stopped_workers ?t = test_workers (pl_tests p)"
    using assms by (auto simp: plane_ok_def tests_ok_def tests_held_def test_workers_holder)
  moreover have "orderly ?a" "orderly ?t" using assms by (simp_all add: plane_ok_def actor_ok_def tests_held_def)
  then have "stopped_workers ?a \<subseteq> requested_workers ?a" "stopped_workers ?t \<subseteq> requested_workers ?t"
    using orderly_stopped started_requested by (blast dest: order_trans)+
  moreover have "requested_workers ?a \<inter> requested_workers ?t = {}" using assms by (simp add: plane_ok_def)
  ultimately have "held_workers p = (started_workers ?a \<union> started_workers ?t) - (stopped_workers ?a \<union> stopped_workers ?t)"
    using started_requested [of ?a] started_requested [of ?t] unfolding held_workers_def by blast
  then show ?thesis using assms by (simp add: plane_ok_def)
qed

text \<open>
  C12.  The helper runs the workers the control plane holds.  Take any state that the actor, the
  test runner and the helper can reach together, with any number of tests running and calls under
  way, and a worker for which no request is under way.  If the control plane holds it (it is the
  worker of the active connection, it is being drained, or a running test uses it), the helper runs
  it; and if the helper runs it, the control plane holds it, so that it will be stopped, unless the
  result of one of its requests was lost (the caller gave up or lost the connection, or a stop
  request could not be sent).
\<close>

theorem helper_runs_held_workers:
  assumes "reachable (\<lambda>p. \<exists>st. p = plane_new st max_parallel) (plane_step max_parallel) p"
    and "w \<notin> set (exchange_workers (pl_fleet p))"
  shows "(w \<in> held_workers p \<longrightarrow> w \<in> fst ` set (nd_workers (fl_helper (pl_fleet p))))
    \<and> (list_all (\<lambda>e. concerns w e \<longrightarrow> settled e) (fl_log (pl_fleet p)) \<longrightarrow>
        w \<in> fst ` set (nd_workers (fl_helper (pl_fleet p))) \<longrightarrow> w \<in> held_workers p)"
proof -
  have ok: "plane_ok max_parallel p" using assms(1) by (rule plane.reachable_inv)
  have table: "w \<in> fst ` set (nd_workers (fl_helper (pl_fleet p))) \<longleftrightarrow> running (fl_helper (pl_fleet p)) w"
    by (auto simp: running_def map_of_eq_None_iff)
  have "fleet_ok (pl_fleet p)" using ok by (simp add: plane_ok_def)
  then show ?thesis
    unfolding table held_workers_log [OF ok] using held_running [OF _ assms(2)] assms(2)
    by (auto simp: fleet_ok_def idle_ok_def)
qed

section \<open>Abandoned starts\<close>

lemma serve_step_keeps:
  assumes "serve_step (x, m) (x', m')" and "phase_ok m x" and "ex_call x = CallStart w" and "running m w"
  shows "running m' w"
  using assms by cases (auto simp: phase_defs section_tables allocate_tables split: if_splits option.splits sum.splits)

definition abandoned :: "worker_id \<Rightarrow> fleet \<Rightarrow> bool" where
  "abandoned w f \<longleftrightarrow> running (fl_helper f) w \<and> StartCall w (Inl ClientTimeout) \<in> set (fl_log f)"

lemma abandoned_link_step:
  assumes ok: "fleet_ok f" and lost: "abandoned w f" and "link_step l f f'"
  shows "abandoned w f'"
  using assms(3)
proof cases
  case (fl_serve xs x ys x' m')
  note split = split_exchanges [OF ok fl_serve(3)]
  have "w \<notin> started_workers (fl_log f)"
    using ok lost failed_not_started by (auto simp: fleet_ok_def abandoned_def)
  then have "call_worker (ex_call x) = w \<Longrightarrow> ex_call x = CallStart w"
    using split(1) by (cases "ex_call x") (auto simp: caller_ok_def)
  then have "running m' w"
    using lost serve_step_frame(1) [OF fl_serve(4) split(2), of w] serve_step_keeps [OF fl_serve(4) split(2), of w]
    unfolding abandoned_def by metis
  then show ?thesis using lost fl_serve(2) by (simp add: abandoned_def)
qed (use lost in \<open>auto simp: abandoned_def\<close>)

lemma abandoned_plane_step:
  "plane_step m p p' \<Longrightarrow> plane_ok m p \<Longrightarrow> abandoned w (pl_fleet p) \<Longrightarrow> abandoned w (pl_fleet p')"
  by (induction rule: plane_step.induct) (auto simp: plane_ok_def elim!: control_step.cases intro: abandoned_link_step)

lemma abandoned_forever:
  assumes "(plane_step m)\<^sup>*\<^sup>* p p'" and "plane_ok m p" and "abandoned w (pl_fleet p)"
  shows "abandoned w (pl_fleet p') \<and> plane_ok m p'"
  using assms by (induction rule: rtranclp_induct) (auto intro: abandoned_plane_step plane_step_ok)

text \<open>
  C38.  A start that outlives its caller leaks its worker.  The caller of \<open>start_worker\<close> waits for the
  connect timeout and ten seconds more, while the helper may wait for the connect timeout, twice
  five seconds and the commands that set the network up.  When the caller (\<open>switch_connection\<close> or
  \<open>run_test\<close>) has given up and the helper's start then succeeds, the worker runs for as long as the
  helper serves: whatever the control plane does next, the worker stays in the helper's table,
  where it counts against the capacity, the control plane does not hold it, and it neither has sent
  nor sends a stop request for it.
\<close>

theorem abandoned_start_leaks:
  assumes "reachable (\<lambda>p. \<exists>st. p = plane_new st max_parallel) (plane_step max_parallel) p"
    and "x \<in> set (fl_exchanges (pl_fleet p))" and "ex_call x = CallStart w" and "\<not> ex_waiting x"
    and "ex_outcome x = Some (Inr ())" and "(plane_step max_parallel)\<^sup>*\<^sup>* p p'"
  shows "w \<in> fst ` set (nd_workers (fl_helper (pl_fleet p'))) \<and> w \<notin> held_workers p'
    \<and> w \<notin> stopped_workers (effects (pl_actor p')) \<union> stopped_workers (test_calls (pl_tests p'))
    \<and> CallStop w \<notin> ex_call ` set (fl_exchanges (pl_fleet p'))"
proof -
  have ok: "plane_ok max_parallel p" using assms(1) by (rule plane.reachable_inv)
  then have "caller_ok (fl_log (pl_fleet p)) x" "phase_ok (fl_helper (pl_fleet p)) x"
    using assms(2) by (auto simp: plane_ok_def fleet_ok_def list_all_iff)
  then have "abandoned w (pl_fleet p)"
    using assms(3-5) by (auto simp: caller_ok_def phase_ok_def abandoned_def split: option.splits client.splits)
  from abandoned_forever [OF assms(6) ok this]
  have lost: "abandoned w (pl_fleet p')" and ok': "plane_ok max_parallel p'" by blast+
  have f': "fleet_ok (pl_fleet p')" and o: "orderly (fl_log (pl_fleet p'))" using ok' by (auto simp: plane_ok_def fleet_ok_def)
  have "w \<notin> started_workers (fl_log (pl_fleet p'))" using lost failed_not_started [OF o] by (auto simp: abandoned_def)
  moreover from this have "w \<notin> stopped_workers (fl_log (pl_fleet p'))" using orderly_stopped [OF o] by blast
  moreover have "CallStop w \<notin> ex_call ` set (fl_exchanges (pl_fleet p'))"
  proof
    assume "CallStop w \<in> ex_call ` set (fl_exchanges (pl_fleet p'))"
    then obtain y where "y \<in> set (fl_exchanges (pl_fleet p'))" "ex_call y = CallStop w" by auto
    then have "w \<in> started_workers (fl_log (pl_fleet p'))" using f' by (auto simp: fleet_ok_def caller_ok_def list_all_iff)
    then show False using calculation(1) by blast
  qed
  ultimately show ?thesis
    using lost held_workers_log [OF ok'] ok'
    by (auto simp: abandoned_def running_def map_of_eq_None_iff plane_ok_def)
qed

section \<open>Runs\<close>

text \<open>A start that the helper completes, and the states it goes through.\<close>

definition sample_worker :: worker_id where "sample_worker = WorkerId 7"

definition sample_stage :: "(worker_id \<times> u16) list \<Rightarrow> (worker_id \<times> task) list \<Rightarrow> u16 \<Rightarrow> netd_state" where
  "sample_stage workers tasks n =
     \<lparr>nd_workers = workers, nd_tasks = tasks, nd_stopping = [], nd_free = [], nd_next = n, nd_max = 9\<rparr>"

definition sample_stages :: "netd_state list" where
  "sample_stages =
     [sample_stage [] [] 1, sample_stage [] [(sample_worker, Inserted)] 1, sample_stage [] [(sample_worker, Counted 0)] 1,
      sample_stage [] [(sample_worker, Admitted)] 1, sample_stage [] [(sample_worker, Holding 1)] 2,
      sample_stage [(sample_worker, 1)] [(sample_worker, Committed)] 2, sample_stage [(sample_worker, 1)] [] 2]"

definition sample_exchange :: "client \<Rightarrow> (worker_error + unit) option \<Rightarrow> bool \<Rightarrow> exchange" where
  "sample_exchange c r b = \<lparr>ex_call = CallStart sample_worker, ex_client = Some c, ex_outcome = r, ex_waiting = b\<rparr>"

lemma sample_stages_start: "sample_stages ! 0 = manager_new 1"
  by (simp add: sample_stages_def sample_stage_def manager_new_def saturating_add_def usize_max_def
      MAX_DRAINING_WORKERS_def MAX_MANAGED_WORKERS_def)

lemma sample_sections:
  "reserve_insert sample_worker (sample_stages ! 0) = Inr (sample_stages ! 1)"
  "reserve_count sample_worker (sample_stages ! 1) = Inr (sample_stages ! 2)"
  "reserve_admit sample_worker 0 (sample_stages ! 2) = Inr (sample_stages ! 3)"
  "\<exists>a. start_allocate sample_worker (sample_stages ! 3) = (Inr a, sample_stages ! 4)"
  "start_commit sample_worker 1 (sample_stages ! 4) = Inr (sample_stages ! 5)"
  "start_abandon sample_worker (sample_stages ! 5) = sample_stages ! 6"
  by (simp_all add: sample_stages_def sample_stage_def section_tables saturating_add_def usize_max_def start_allocate_def
      allocate_network_def take_index_def network_of_index_def Let_def start_abandon_def drop_reservation_def)

lemma sample_tasks:
  "map_of (nd_tasks (sample_stages ! 1)) sample_worker = Some Inserted"
  "map_of (nd_tasks (sample_stages ! 2)) sample_worker = Some (Counted 0)"
  "map_of (nd_tasks (sample_stages ! 3)) sample_worker = Some Admitted"
  "map_of (nd_tasks (sample_stages ! 4)) sample_worker = Some (Holding 1)"
  "map_of (nd_tasks (sample_stages ! 5)) sample_worker = Some Committed"
  "nd_workers (sample_stages ! 6) = [(sample_worker, 1)]"
  by (simp_all add: sample_stages_def sample_stage_def)

lemma sample_serve:
  "serve_step (sample_exchange Reading None b, sample_stages ! 0) (sample_exchange (Cleared sample_worker) None b, sample_stages ! 0)"
  "serve_step (sample_exchange (Cleared sample_worker) None b, sample_stages ! 0) (sample_exchange (Starting sample_worker) None b, sample_stages ! 1)"
  "serve_step (sample_exchange (Starting sample_worker) None b, sample_stages ! 1) (sample_exchange (Starting sample_worker) None b, sample_stages ! 2)"
  "serve_step (sample_exchange (Starting sample_worker) None b, sample_stages ! 2) (sample_exchange (Starting sample_worker) None b, sample_stages ! 3)"
  "serve_step (sample_exchange (Starting sample_worker) None b, sample_stages ! 3) (sample_exchange (Starting sample_worker) None b, sample_stages ! 4)"
  "serve_step (sample_exchange (Starting sample_worker) None b, sample_stages ! 4) (sample_exchange (Starting sample_worker) None b, sample_stages ! 5)"
  "serve_step (sample_exchange (Starting sample_worker) None b, sample_stages ! 5) (sample_exchange Replying (Some (Inr ())) b, sample_stages ! 6)"
  "serve_step (sample_exchange Replying (Some (Inr ())) b, sample_stages ! 6) (sample_exchange Ended (Some (Inr ())) b, sample_stages ! 6)"
proof -
  let ?x = "\<lambda>c. sample_exchange c None b"
  have ex: "ex_client (sample_exchange c r b) = Some c" "ex_call (sample_exchange c r b) = CallStart sample_worker"
    "proceed d (sample_exchange c r b) = sample_exchange d r b"
    "reply_with q (sample_exchange c r b) = sample_exchange Replying (Some q) b" for c d r q
    by (simp_all add: sample_exchange_def proceed_def reply_with_def)
  obtain a where a: "start_allocate sample_worker (sample_stages ! 3) = (Inr a, sample_stages ! 4)"
    using sample_sections(4) by blast
  show "serve_step (?x Reading, sample_stages ! 0) (?x (Cleared sample_worker), sample_stages ! 0)"
    using read_start [of "?x Reading" sample_worker] by (simp add: ex)
  show "serve_step (?x (Cleared sample_worker), sample_stages ! 0) (?x (Starting sample_worker), sample_stages ! 1)"
    using reserved [OF _ sample_sections(1), of "?x (Cleared sample_worker)"] by (simp add: ex)
  show "serve_step (?x (Starting sample_worker), sample_stages ! 1) (?x (Starting sample_worker), sample_stages ! 2)"
    by (rule counted [OF ex(1) sample_tasks(1) sample_sections(2)])
  show "serve_step (?x (Starting sample_worker), sample_stages ! 2) (?x (Starting sample_worker), sample_stages ! 3)"
    by (rule admitted [OF ex(1) sample_tasks(2) sample_sections(3)])
  show "serve_step (?x (Starting sample_worker), sample_stages ! 3) (?x (Starting sample_worker), sample_stages ! 4)"
    by (rule allocated [OF ex(1) sample_tasks(3) a])
  show "serve_step (?x (Starting sample_worker), sample_stages ! 4) (?x (Starting sample_worker), sample_stages ! 5)"
    by (rule inserted [OF ex(1) sample_tasks(4) sample_sections(5)])
  show "serve_step (?x (Starting sample_worker), sample_stages ! 5) (sample_exchange Replying (Some (Inr ())) b, sample_stages ! 6)"
    using started [OF ex(1) sample_tasks(5), of None] by (simp add: ex sample_sections(6))
  show "serve_step (sample_exchange Replying (Some (Inr ())) b, sample_stages ! 6) (sample_exchange Ended (Some (Inr ())) b, sample_stages ! 6)"
    using written [OF ex(1), of "Some (Inr ())" "sample_stages ! 6"] by (simp add: ex)
qed

definition sample_fleet :: "nat \<Rightarrow> client \<Rightarrow> (worker_error + unit) option \<Rightarrow> bool \<Rightarrow> effect list \<Rightarrow> fleet" where
  "sample_fleet k c r b tr = \<lparr>fl_helper = sample_stages ! k, fl_exchanges = [sample_exchange c r b], fl_log = tr\<rparr>"

text \<open>The helper works on the start, whether or not its caller waits.\<close>

lemma sample_run:
  assumes "pl_fleet p = sample_fleet 0 Reading None b tr"
  shows "(plane_step 1)\<^sup>*\<^sup>* p (p\<lparr>pl_fleet := sample_fleet 6 Ended (Some (Inr ())) b tr\<rparr>)"
proof -
  have serve: "plane_step 1 (p\<lparr>pl_fleet := sample_fleet k c r b tr\<rparr>) (p\<lparr>pl_fleet := sample_fleet k' c' r' b tr\<rparr>)"
    if "serve_step (sample_exchange c r b, sample_stages ! k) (sample_exchange c' r' b, sample_stages ! k')" for k c r k' c' r'
  proof -
    have "link_step Silent (sample_fleet k c r b tr) (sample_fleet k' c' r' b tr)"
      using fl_serve [of "sample_fleet k c r b tr" "[]" "sample_exchange c r b" "[]"] that by (simp add: sample_fleet_def)
    then show ?thesis using pl_silent [of "p\<lparr>pl_fleet := sample_fleet k c r b tr\<rparr>"] by simp
  qed
  have "(plane_step 1)\<^sup>*\<^sup>* (p\<lparr>pl_fleet := sample_fleet 0 Reading None b tr\<rparr>) (p\<lparr>pl_fleet := sample_fleet 6 Ended (Some (Inr ())) b tr\<rparr>)"
    by (rule converse_rtranclp_into_rtranclp, rule serve, rule sample_serve)+ (rule rtranclp.rtrancl_refl)
  then show ?thesis using assms [symmetric] by simp
qed

definition sample_calls :: "(netd_request \<Rightarrow> netd_client_error + netd_response) \<Rightarrow> actor" where
  "sample_calls netd = connection_actor (ConnectTo (NodeId ''a'') (sample_switch netd 7)) initial_actor"

lemma sample_calls_made:
  "filter is_call (effects (sample_calls sample_start)) = [StartCall sample_worker (Inr ''/run/w/socks.sock'')]"
  "filter is_call (effects (sample_calls (\<lambda>_. Inl ClientTimeout))) = [StartCall sample_worker (Inl ClientTimeout)]"
  by code_simp+

lemma sample_control:
  assumes "filter is_call (effects (sample_calls netd)) = [e]" and "pl_actor p = initial_actor"
  shows "control_step 1 [e] p (p\<lparr>pl_actor := sample_calls netd\<rparr>)"
proof (rule by_actor)
  show "actor_step (pl_actor p) (sample_calls netd)"
    unfolding sample_calls_def assms(2) by (rule step_input) (simp_all add: fresh_worker_def initial_actor_def)
  show "filter is_call (effects (sample_calls netd)) = filter is_call (effects (pl_actor p)) @ [e]"
    by (simp add: assms) (simp add: initial_actor_def)
qed

definition sample_calling :: plane where
  "sample_calling = (plane_new migrated 1)\<lparr>pl_fleet := sample_fleet 0 Reading None True []\<rparr>"

lemma sample_calling_reachable: "reachable (\<lambda>p. \<exists>st. p = plane_new st 1) (plane_step 1) sample_calling"
proof (rule reach_step)
  show "reachable (\<lambda>p. \<exists>st. p = plane_new st 1) (plane_step 1) (plane_new migrated 1)" by (rule reach_init) blast
  have "control_step 1 [returned (CallStart sample_worker) (Inr ''/run/w/socks.sock'')] (plane_new migrated 1)
      ((plane_new migrated 1)\<lparr>pl_actor := sample_calls sample_start\<rparr>)"
    using sample_control [OF sample_calls_made(1), of "plane_new migrated 1"] by (simp add: plane_new_def)
  moreover have "unused (CallStart sample_worker) (pl_fleet (plane_new migrated 1))"
    by (simp add: plane_new_def fleet_new_def exchange_workers_def requested_workers_def)
  moreover have "link_step (Issued (CallStart sample_worker)) (pl_fleet (plane_new migrated 1)) (sample_fleet 0 Reading None True [])"
    using fl_accepted [of "fleet_new 1" "CallStart sample_worker"]
    by (simp add: plane_new_def fleet_new_def busy_clients_def MAX_CLIENTS_def sample_fleet_def sample_stages_start sample_exchange_def)
  ultimately show "plane_step 1 (plane_new migrated 1) sample_calling"
    unfolding sample_calling_def by (rule pl_call)
qed

text \<open>The start comes back, and the worker of the active connection runs.\<close>

theorem helper_runs_held_workers_witness:
  "\<exists>p. reachable (\<lambda>p. \<exists>st. p = plane_new st 1) (plane_step 1) p \<and> held_workers p = {WorkerId 7}
     \<and> WorkerId 7 \<in> fst ` set (nd_workers (fl_helper (pl_fleet p)))"
proof -
  let ?e = "StartCall sample_worker (Inr ''/run/w/socks.sock'')" and ?a = "sample_calls sample_start"
  let ?q = "sample_calling\<lparr>pl_fleet := sample_fleet 6 Ended (Some (Inr ())) True []\<rparr>"
  let ?p = "sample_calling\<lparr>pl_actor := ?a, pl_fleet := \<lparr>fl_helper = sample_stages ! 6, fl_exchanges = [], fl_log = [?e]\<rparr>\<rparr>"
  have "reachable (\<lambda>p. \<exists>st. p = plane_new st 1) (plane_step 1) ?q"
    by (rule reachable_rtranclp [OF sample_run sample_calling_reachable]) (simp add: sample_calling_def)
  moreover have "control_step 1 [?e] ?q (?q\<lparr>pl_actor := ?a\<rparr>)"
    by (rule sample_control [OF sample_calls_made(1)]) (simp add: sample_calling_def plane_new_def)
  moreover have "link_step (Came_back ?e) (pl_fleet ?q) (pl_fleet ?p)"
    using fl_answered [of "pl_fleet ?q" "[]" "sample_exchange Ended (Some (Inr ())) True" "[]" "Inr ()" "''/run/w/socks.sock''"]
    by (simp add: sample_fleet_def sample_exchange_def classified_def)
  ultimately have p: "reachable (\<lambda>p. \<exists>st. p = plane_new st 1) (plane_step 1) ?p"
    using pl_return [of 1 ?e ?q "?q\<lparr>pl_actor := ?a\<rparr>" "pl_fleet ?p"] by (auto intro: reach_step)
  have "?a = sample_actor" by (simp add: sample_calls_def sample_actor_def)
  moreover have "draining sample_actor = []" by code_simp
  ultimately have held: "held_workers ?p = {WorkerId 7}"
    by (auto simp: held_workers_def sample_actor_value sample_calling_def plane_new_def test_workers_def initial_tests_def)
  have "WorkerId 7 \<in> fst ` set (nd_workers (fl_helper (pl_fleet ?p)))"
    using helper_runs_held_workers [OF p, of "WorkerId 7"] held by (simp add: exchange_workers_def)
  with p held show ?thesis by blast
qed

text \<open>The caller gives up first; the helper completes the start, and the worker stays.\<close>

theorem abandoned_start_leaks_witness:
  "\<exists>p. reachable (\<lambda>p. \<exists>st. p = plane_new st 1) (plane_step 1) p \<and> fl_exchanges (pl_fleet p) = []
     \<and> active (pl_actor p) = None \<and> sample_worker \<in> fst ` set (nd_workers (fl_helper (pl_fleet p)))
     \<and> sample_worker \<notin> held_workers p"
proof -
  let ?e = "StartCall sample_worker (Inl ClientTimeout)" and ?a = "sample_calls (\<lambda>_. Inl ClientTimeout)"
  let ?o = "sample_calling\<lparr>pl_actor := ?a, pl_fleet := sample_fleet 0 Reading None False [?e]\<rparr>"
  let ?q = "?o\<lparr>pl_fleet := sample_fleet 6 Ended (Some (Inr ())) False [?e]\<rparr>"
  let ?p = "?o\<lparr>pl_fleet := \<lparr>fl_helper = sample_stages ! 6, fl_exchanges = [], fl_log = [?e]\<rparr>\<rparr>"
  let ?x = "sample_exchange Ended (Some (Inr ())) False"
  have "control_step 1 [?e] sample_calling (sample_calling\<lparr>pl_actor := ?a\<rparr>)"
    by (rule sample_control [OF sample_calls_made(2)]) (simp add: sample_calling_def plane_new_def)
  moreover have "link_step (Came_back ?e) (pl_fleet sample_calling) (sample_fleet 0 Reading None False [?e])"
    using fl_timeout [of "pl_fleet sample_calling" "[]" "sample_exchange Reading None True" "[]"]
    by (simp add: sample_calling_def sample_fleet_def sample_exchange_def)
  ultimately have "plane_step 1 sample_calling ((sample_calling\<lparr>pl_actor := ?a\<rparr>)\<lparr>pl_fleet := sample_fleet 0 Reading None False [?e]\<rparr>)"
    by (rule pl_return)
  then have "plane_step 1 sample_calling ?o" by simp
  then have o: "reachable (\<lambda>p. \<exists>st. p = plane_new st 1) (plane_step 1) ?o"
    by (rule reach_step [OF sample_calling_reachable])
  have q: "reachable (\<lambda>p. \<exists>st. p = plane_new st 1) (plane_step 1) ?q"
    by (rule reachable_rtranclp [OF sample_run o]) simp
  have "link_step Silent (pl_fleet ?q) (pl_fleet ?p)"
    using fl_joined [of "pl_fleet ?q" "[]" ?x "[]"] by (simp add: sample_fleet_def sample_exchange_def)
  from pl_silent [OF this, of 1] have step: "plane_step 1 ?q ?p" by simp
  have "active ?a = None" by code_simp
  moreover have "sample_worker \<in> fst ` set (nd_workers (fl_helper (pl_fleet ?p))) \<and> sample_worker \<notin> held_workers ?p"
    using abandoned_start_leaks [OF q, of ?x sample_worker ?p] r_into_rtranclp [of "plane_step 1", OF step]
    by (simp add: sample_fleet_def sample_exchange_def)
  ultimately show ?thesis using reach_step [OF q step] by (intro exI [of _ ?p]) simp
qed

end
