(* ===== verification/Redaction.thy ===== *)
theory Redaction
  imports App_Config Openvpn
begin

text \<open>
  What the program shows of its secrets: the \<open>Debug\<close> formatters of \<open>src/src/domain.rs\<close>,
  \<open>src/src/config.rs\<close> and \<open>src/src/openvpn.rs\<close>, which end up in logs and error chains, and the
  one place that exposes the upstream password, \<open>proxy_url\<close>.
\<close>

section \<open>Formatters\<close>

text \<open>
  \<open>Debug\<close> of a string without quotes, backslashes and control characters, as every validated
  host name is; \<open>debug_str\<close> of a user name, which may need escapes, is an argument.
\<close>

definition debug_host :: "string \<Rightarrow> string" where
  "debug_host s = [CHR 0x22] @ s @ [CHR 0x22]"

definition show_bool :: "bool \<Rightarrow> string" where
  "show_bool b = (if b then ''true'' else ''false'')"

definition show_socket_v4 :: "socket_addr_v4 \<Rightarrow> string" where
  "show_socket_v4 a = show_ipv4 (sock_ip a) @ '':'' @ show_nat (unat (sock_port a))"

definition debug_upstream :: "upstream_endpoint \<Rightarrow> string" where
  "debug_upstream e =
     ''UpstreamEndpoint { host: '' @ debug_host (ue_host e) @ '', port: '' @ show_nat (unat (ue_port e))
     @ '', has_credentials: '' @ show_bool (is_some (ue_username e)) @ '', .. }''"

definition debug_resolved :: "resolved_upstream \<Rightarrow> string" where
  "debug_resolved r =
     ''ResolvedUpstreamEndpoint { address: '' @ show_socket_v4 (ru_address r)
     @ '', has_credentials: '' @ show_bool (is_some (ru_username r)) @ '', .. }''"

definition debug_credentials :: "(string \<Rightarrow> string) \<Rightarrow> credentials \<Rightarrow> string" where
  "debug_credentials debug_str c =
     ''Credentials { username: '' @ debug_str (cr_username c) @ '', password: '' @ debug_str ''[redacted]'' @ '' }''"

definition debug_openvpn :: "sanitized_openvpn \<Rightarrow> string" where
  "debug_openvpn p =
     ''SanitizedOpenVpn { remote: '' @ show_socket_v4 (so_remote p)
     @ '', digest: '' @ debug_host (to_hex (so_digest p)) @ '', .. }''"

section \<open>The upstream endpoint\<close>

definition new_upstream ::
    "ipv4addr \<Rightarrow> u16 \<Rightarrow> string option \<Rightarrow> secret_string option \<Rightarrow> string + upstream_endpoint" where
  "new_upstream host port username password = new_host (show_ipv4 host) port username password"

text \<open>The \<open>url\<close> crate: parsing, and the two setters whose failure is ignored.\<close>

definition proxy_url ::
    "(string \<Rightarrow> 'u option) \<Rightarrow> (string \<Rightarrow> 'u \<Rightarrow> 'u) \<Rightarrow> (string \<Rightarrow> 'u \<Rightarrow> 'u) \<Rightarrow> resolved_upstream \<Rightarrow> 'u option" where
  "proxy_url parse set_username set_password r =
     map_option (\<lambda>url.
       case (ru_username r, map_option expose (ru_password r)) of
         (Some username, Some password) \<Rightarrow> set_password password (set_username username url)
       | _ \<Rightarrow> url)
     (parse (''socks5h://'' @ show_socket_v4 (ru_address r)))"

section \<open>Nothing secret is shown\<close>

text \<open>
  The formatted text is the same for all passwords, and for the endpoints also for all user names;
  a profile shows nothing of its keys except through the digest.
\<close>

lemma debug_upstream_redacts:
  "debug_upstream (e\<lparr>ue_username := Some u, ue_password := p\<rparr>) = debug_upstream (e\<lparr>ue_username := Some v, ue_password := q\<rparr>)"
  by (simp add: debug_upstream_def is_some_def)

lemma debug_resolved_redacts:
  "debug_resolved (r\<lparr>ru_username := Some u, ru_password := p\<rparr>) = debug_resolved (r\<lparr>ru_username := Some v, ru_password := q\<rparr>)"
  by (simp add: debug_resolved_def is_some_def)

lemma debug_credentials_redacts: "debug_credentials d (c\<lparr>cr_password := p\<rparr>) = debug_credentials d (c\<lparr>cr_password := q\<rparr>)"
  by (simp add: debug_credentials_def)

lemma debug_openvpn_redacts: "debug_openvpn (p\<lparr>so_rendered := t\<rparr>) = debug_openvpn (p\<lparr>so_rendered := u\<rparr>)"
  by (simp add: debug_openvpn_def)

text \<open>
  The proxy of the HTTP clients is the address the firewall lets through, whatever name was
  configured: \<open>resolve_to\<close> pins it.
\<close>

lemma proxy_is_pinned:
  assumes "resolve_to e address = Inr r"
  shows "proxy_url Some (\<lambda>_ u. u) (\<lambda>_ u. u) r = Some (''socks5h://'' @ show_socket_v4 address)"
  using assms by (auto simp: resolve_to_def result_simps proxy_url_def split: option.splits)

end
