(* ===== verification/Unit_Tests.thy ===== *)
theory Unit_Tests
  imports Redaction Auto_Connect Automatic_Tests Test_Registry Quality Store_Open
begin

text \<open>
  The repository's own unit tests, run on the model: one definition per \<open>#[test]\<close> function of
  \<open>src/src\<close>, under its name, with its assertions as a conjunction, and a lemma that it holds.
  They tie the definitions to the behaviour the authors expect of the code.  Arguments of the
  model that stand for other crates are instantiated where a test needs them.

  The tests of the sanitizer, the provider and the snapshot parser and those of the firewall
  scripts are instances of the general theorems on these components and are not repeated; tests of
  serialised names (\<open>serde\<close>) have no counterpart.
\<close>

definition is_err :: "'e + 'a \<Rightarrow> bool" where
  "is_err r = (\<not> is_ok r)"

definition hex64 :: "u8 \<Rightarrow> string" where
  "hex64 v = replicate 62 (CHR ''0'') @ hex_byte v"

section \<open>\<open>domain.rs\<close>\<close>

definition node_id_rejects_noncanonical_values :: bool where
  "node_id_rejects_noncanonical_values \<longleftrightarrow>
     is_ok (node_id_from_str (replicate 64 (CHR ''a'')))
     \<and> is_err (node_id_from_str (replicate 64 (CHR ''A'')))
     \<and> is_err (node_id_from_str (replicate 63 (CHR ''a'')))"

definition public_ipv4_rejects_non_public_ranges :: bool where
  "public_ipv4_rejects_non_public_ranges \<longleftrightarrow>
     \<not> is_public_ipv4 (Ipv4Addr 127 0 0 1) \<and> \<not> is_public_ipv4 (Ipv4Addr 192 168 1 1)
     \<and> \<not> is_public_ipv4 (Ipv4Addr 169 254 1 1) \<and> is_public_ipv4 (Ipv4Addr 1 1 1 1)"

definition upstream_credentials_are_bounded_and_redacted :: bool where
  "upstream_credentials_are_bounded_and_redacted \<longleftrightarrow>
     (case new_upstream (Ipv4Addr 127 0 0 1) 1080 (Some ''user'') (Some (SecretString ''secret'')) of
        Inl _ \<Rightarrow> False
      | Inr endpoint \<Rightarrow> \<not> contains ''secret'' (debug_upstream endpoint))
     \<and> is_err (new_upstream (Ipv4Addr 127 0 0 1) 1080 (Some (''line'' @ [nl] @ ''break'')) (Some (SecretString ''secret'')))"

definition upstream_container_hostname_is_validated_and_pinned :: bool where
  "upstream_container_hostname_is_validated_and_pinned \<longleftrightarrow>
     (case new_host ''HOST.containers.internal'' 1080 (Some ''user'') (Some (SecretString ''secret'')) of
        Inl _ \<Rightarrow> False
      | Inr endpoint \<Rightarrow>
          ue_host endpoint = ''host.containers.internal''
          \<and> (case resolve_to endpoint \<lparr>sock_ip = Ipv4Addr 10 0 2 2, sock_port = 1080\<rparr> of
               Inl _ \<Rightarrow> False
             | Inr resolved \<Rightarrow>
                 ru_address resolved = \<lparr>sock_ip = Ipv4Addr 10 0 2 2, sock_port = 1080\<rparr>
                 \<and> proxy_url Some (\<lambda>_ u. u) (\<lambda>_ u. u) resolved = Some ''socks5h://10.0.2.2:1080''
                 \<and> \<not> contains ''secret'' (debug_resolved resolved)))"

definition upstream_hostname_rejects_ambiguous_or_unsafe_values :: bool where
  "upstream_hostname_rejects_ambiguous_or_unsafe_values \<longleftrightarrow>
     list_all (\<lambda>host. is_err (new_host host 1080 None None))
       [''host..internal'', ''-host.internal'', ''host_.internal'', ''[::1]'', ''127.1'', ''999.0.0.1'']"

definition numeric_upstream_must_match_the_pinned_address :: bool where
  "numeric_upstream_must_match_the_pinned_address \<longleftrightarrow>
     (case new_upstream (Ipv4Addr 10 0 2 2) 1080 None None of
        Inl _ \<Rightarrow> False
      | Inr endpoint \<Rightarrow>
          is_err (resolve_to endpoint \<lparr>sock_ip = Ipv4Addr 10 0 2 3, sock_port = 1080\<rparr>)
          \<and> is_err (resolve_to endpoint \<lparr>sock_ip = Ipv4Addr 10 0 2 2, sock_port = 1081\<rparr>))"

lemma domain_tests:
  "node_id_rejects_noncanonical_values"
  "public_ipv4_rejects_non_public_ranges"
  "upstream_credentials_are_bounded_and_redacted"
  "upstream_container_hostname_is_validated_and_pinned"
  "upstream_hostname_rejects_ambiguous_or_unsafe_values"
  "numeric_upstream_must_match_the_pinned_address"
  by code_simp+

section \<open>\<open>auto_connect.rs\<close>\<close>

text \<open>
  The fixtures of the policy tests.  The clock reading of a record is 0, and its fraud score is the
  bit pattern of 1.0.
\<close>

definition policy_node :: "u8 \<Rightarrow> string \<Rightarrow> nat \<Rightarrow> vpn_node" where
  "policy_node v region speed_bps =
     \<lparr>vn_id = NodeId (hex64 v), vn_hostname = ''vpn-'' @ show_nat (unat v), vn_ip = Ipv4Addr 1 1 1 v,
      vn_score = unat v, vn_ping_ms = Some (unat v), vn_speed_bps = speed_bps,
      vn_country_long = region, vn_country_short = region, vn_sessions = 1, vn_uptime_ms = 1,
      vn_total_users = 1, vn_total_traffic_bytes = 1, vn_log_type = '''', vn_operator = '''',
      vn_message = '''', vn_tcp_port = Some 443, vn_availability = Available, vn_openvpn = None\<rparr>"

definition policy_record :: "node_id \<Rightarrow> bool \<Rightarrow> bool \<Rightarrow> test_record" where
  "policy_record node_id is_broadcast is_residential =
     \<lparr>tr_node_id = node_id,
      tr_result = Some \<lparr>ip_fraud_score = 0x3FF0000000000000, ip_is_residential = is_residential,
                        ip_is_broadcast = is_broadcast, ip_exit_ip = None\<rparr>,
      tr_duration_ms = 1, tr_tested_at = 0, tr_error = None\<rparr>"

definition chooses_the_highest_bandwidth_matching_node :: bool where
  "chooses_the_highest_bandwidth_matching_node \<longleftrightarrow>
     select_node [policy_node 1 ''JP'' 10, policy_node 2 ''JP'' 30, policy_node 3 ''US'' 50] Map.empty
       (default_auto_connect\<lparr>ac_enabled := True, ac_region := Some ''JP''\<rparr>) {}
     = Some (vn_id (policy_node 2 ''JP'' 30))"

definition requires_successful_ippure_data_for_ip_filters :: bool where
  "requires_successful_ippure_data_for_ip_filters \<longleftrightarrow>
     (let nodes = [policy_node 1 ''JP'' 30, policy_node 2 ''JP'' 20, policy_node 3 ''JP'' 10];
          first = vn_id (nodes ! 0);
          second = vn_id (nodes ! 1);
          records = map_of [(first, policy_record first True False),
                            (second, policy_record second False False)]
      in select_node nodes records
           (default_auto_connect\<lparr>ac_enabled := True, ac_ip_type := Native, ac_residential := NonResidential\<rparr>) {}
         = Some second)"

definition skips_temporarily_excluded_nodes :: bool where
  "skips_temporarily_excluded_nodes \<longleftrightarrow>
     (let nodes = [policy_node 1 ''JP'' 30, policy_node 2 ''JP'' 20]
      in select_node nodes Map.empty default_auto_connect {vn_id (nodes ! 0)} = Some (vn_id (nodes ! 1)))"

lemma auto_connect_tests:
  "chooses_the_highest_bandwidth_matching_node"
  "requires_successful_ippure_data_for_ip_filters"
  "skips_temporarily_excluded_nodes"
  by code_simp+

section \<open>\<open>automatic_tests.rs\<close>\<close>

definition letter_id :: "char \<Rightarrow> node_id" where
  "letter_id c = NodeId (replicate 64 c)"

definition candidate :: "char \<Rightarrow> nat \<Rightarrow> nat option \<Rightarrow> test_candidate" where
  "candidate c score ping_ms =
     \<lparr>tc_node_id = letter_id c, tc_score = score, tc_ping_ms = ping_ms, tc_eligible = True\<rparr>"

definition selects_only_missing_eligible_nodes_in_quality_order :: bool where
  "selects_only_missing_eligible_nodes_in_quality_order \<longleftrightarrow>
     select_automatic_tests
       [candidate (CHR ''a'') 9000 (Some 10), candidate (CHR ''b'') 8000 (Some 12),
        (candidate (CHR ''c'') 10000 (Some 1))\<lparr>tc_eligible := False\<rparr>,
        candidate (CHR ''d'') 4000 (Some 30), candidate (CHR ''e'') 5000 None,
        candidate (CHR ''f'') 5000 (Some 40)]
       {letter_id (CHR ''a'')} {letter_id (CHR ''b'')} 2
     = [letter_id (CHR ''f''), letter_id (CHR ''e'')]"

definition respects_zero_queue_capacity :: bool where
  "respects_zero_queue_capacity \<longleftrightarrow>
     select_automatic_tests [candidate (CHR ''a'') 1 (Some 1)] {} {} 0 = []"

lemma automatic_tests_tests:
  "selects_only_missing_eligible_nodes_in_quality_order"
  "respects_zero_queue_capacity"
  by code_simp+

section \<open>\<open>test_registry.rs\<close>\<close>

text \<open>The operation identifier the code draws is the first argument of \<open>queue\<close>; any two will do.\<close>

definition returns_the_existing_operation_for_duplicate_in_flight_tests :: bool where
  "returns_the_existing_operation_for_duplicate_in_flight_tests \<longleftrightarrow>
     (let node_id = letter_id (CHR ''a'');
          (first, registry) = queue (OperationId 1) empty_registry node_id 0;
          (duplicate, registry) = queue (OperationId 2) registry node_id 0
      in case first of
           Existing _ \<Rightarrow> False
         | New operation_id _ \<Rightarrow> duplicate = Existing operation_id)"

definition completed_nodes_are_known_but_can_be_manually_queued_again :: bool where
  "completed_nodes_are_known_but_can_be_manually_queued_again \<longleftrightarrow>
     (let node_id = letter_id (CHR ''b'')
      in case queue (OperationId 1) empty_registry node_id 0 of
           (Existing _, _) \<Rightarrow> False
         | (New operation_id _, registry) \<Rightarrow>
             let rec = \<lparr>tr_node_id = node_id, tr_result = None, tr_duration_ms = 12,
                           tr_tested_at = 1700000000, tr_error = Some ''test failure''\<rparr>;
                 registry = complete registry operation_id node_id (TestFailed node_id rec) 10
             in node_id \<in> known_nodes registry
                \<and> (case fst (queue (OperationId 2) registry node_id 0) of
                     New _ _ \<Rightarrow> True | Existing _ \<Rightarrow> False))"

lemma test_registry_tests:
  "returns_the_existing_operation_for_duplicate_in_flight_tests"
  "completed_nodes_are_known_but_can_be_manually_queued_again"
  by code_simp+

section \<open>\<open>config.rs\<close>\<close>

definition runtime_directory_rejects_traversal_and_broad_system_paths :: bool where
  "runtime_directory_rejects_traversal_and_broad_system_paths \<longleftrightarrow>
     is_ok (validate_runtime_dir ''/run/vpngate2socks'')
     \<and> is_ok (validate_runtime_dir ''/tmp/vpngate2socks'')
     \<and> is_err (validate_runtime_dir ''/etc'')
     \<and> is_err (validate_runtime_dir ''/run/../etc/vpngate2socks'')
     \<and> is_err (validate_runtime_dir ''relative/runtime'')"

definition listener_credentials_fit_the_socks_wire_format :: bool where
  "listener_credentials_fit_the_socks_wire_format \<longleftrightarrow>
     valid_listener_credential ''user''
     \<and> \<not> valid_listener_credential ''''
     \<and> \<not> valid_listener_credential (replicate 256 (CHR ''x''))
     \<and> \<not> valid_listener_credential (''line'' @ [nl] @ ''break'')"

definition upstream_authority_accepts_a_container_hostname :: bool where
  "upstream_authority_accepts_a_container_hostname \<longleftrightarrow>
     parse_upstream_authority ''host.containers.internal:1080'' = Inr (''host.containers.internal'', 1080)"

definition upstream_authority_rejects_ipv6_and_invalid_ports :: bool where
  "upstream_authority_rejects_ipv6_and_invalid_ports \<longleftrightarrow>
     is_err (parse_upstream_authority ''[::1]:1080'')
     \<and> is_err (parse_upstream_authority ''::1:1080'')
     \<and> is_err (parse_upstream_authority ''localhost:0'')
     \<and> is_err (parse_upstream_authority ''localhost:not-a-port'')"

lemma config_tests:
  "runtime_directory_rejects_traversal_and_broad_system_paths"
  "listener_credentials_fit_the_socks_wire_format"
  "upstream_authority_accepts_a_container_hostname"
  "upstream_authority_rejects_ipv6_and_invalid_ports"
proof -
  show "runtime_directory_rejects_traversal_and_broad_system_paths" by code_simp
  show "listener_credentials_fit_the_socks_wire_format"
    by (simp add: listener_credentials_fit_the_socks_wire_format_def valid_listener_credential_def list_ex_iff)
  show "upstream_authority_accepts_a_container_hostname" by code_simp
  show "upstream_authority_rejects_ipv6_and_invalid_ports"
    by (simp add: upstream_authority_rejects_ipv6_and_invalid_ports_def parse_upstream_authority_def rsplit_once_def
      split_once_def is_err_def ok_or_def ensure_def starts_with_def ends_with_def parse_uint_def dec_value_def
      digit_value_def is_ascii_digit_def)
qed

section \<open>\<open>quality.rs\<close>\<close>

text \<open>
  The JSON parser is instantiated by the value the payload denotes, so a test reads \<open>parse_ippure\<close>
  on that value; numbers are the bit patterns of 12.0 and 1.5.
\<close>

definition parse_value :: "(string \<times> json) list \<Rightarrow> ip_pure_error + ip_pure_result" where
  "parse_value members = parse_ippure (\<lambda>_. Some (JObject members)) []"

definition parses_documented_fields :: bool where
  "parses_documented_fields \<longleftrightarrow>
     parse_value [(''fraudScore'', JNumber 0x4028000000000000), (''isResidential'', JBool True),
                  (''isBroadcast'', JBool False), (''ip'', JString ''1.1.1.1'')]
     = Inr \<lparr>ip_fraud_score = 0x4028000000000000, ip_is_residential = True, ip_is_broadcast = False,
            ip_exit_ip = Some (Ipv4Addr 1 1 1 1)\<rparr>"

definition rejects_each_missing_required_field :: bool where
  "rejects_each_missing_required_field \<longleftrightarrow>
     list_all (\<lambda>payload. is_err (parse_value payload))
       [[(''isResidential'', JBool True), (''isBroadcast'', JBool False)],
        [(''fraudScore'', JNumber 0x4028000000000000), (''isBroadcast'', JBool False)],
        [(''fraudScore'', JNumber 0x4028000000000000), (''isResidential'', JBool True)]]"

definition accepts_nested_data_and_snake_case :: bool where
  "accepts_nested_data_and_snake_case \<longleftrightarrow>
     (case parse_value [(''data'', JObject
             [(''fraud_score'', JNumber 0x3FF8000000000000), (''is_residential'', JBool False),
              (''is_broadcast'', JBool True)])] of
        Inl _ \<Rightarrow> False
      | Inr parsed \<Rightarrow> ip_fraud_score parsed = 0x3FF8000000000000 \<and> ip_is_broadcast parsed)"

lemma test_scores:
  "valid_fraud_score 0x4028000000000000" "valid_fraud_score 0x3FF8000000000000"
  "valid_fraud_score 0x401C000000000000" "\<not> valid_fraud_score 0x4059400000000000"
  by (simp_all add: valid_fraud_score_def f64_is_finite_def f64_le_def f64_is_nan_def f64_key_def f64_magnitude_def
      f64_negative_def f64_zero_def f64_hundred_def)

lemma test_address: "parse_ipv4 ''1.1.1.1'' = Some (Ipv4Addr 1 1 1 1)"
  by code_simp

lemma quality_tests:
  "parses_documented_fields"
  "rejects_each_missing_required_field"
  "accepts_nested_data_and_snake_case"
  by (simp_all add: parses_documented_fields_def rejects_each_missing_required_field_def
      accepts_nested_data_and_snake_case_def parse_value_def parse_ippure_def data_object_def option_filter_def
      ok_or_def parse_exit_ip_def is_err_def test_scores test_address)

section \<open>\<open>storage.rs\<close>\<close>

text \<open>
  \<open>Store::open("sqlite::memory:")\<close> on a new database gives \<open>migrated\<close>; every statement is served.
\<close>

definition in_memory :: "store option" where
  "in_memory =
     (case open_store Some (\<lambda>_ _. Some empty_database) (\<lambda>_. True) ''sqlite::memory:'' of
        Inl _ \<Rightarrow> None
      | Inr db \<Rightarrow> tables_of db)"

definition first_record :: test_record where
  "first_record =
     \<lparr>tr_node_id = NodeId (hex64 1), tr_result = None, tr_duration_ms = 10, tr_tested_at = 1700000000,
      tr_error = Some ''timeout''\<rparr>"

definition second_record :: test_record where
  "second_record =
     \<lparr>tr_node_id = NodeId (hex64 1),
      tr_result = Some \<lparr>ip_fraud_score = 0x401C000000000000, ip_is_residential = True,
                        ip_is_broadcast = False, ip_exit_ip = Some (Ipv4Addr 1 1 1 1)\<rparr>,
      tr_duration_ms = 20, tr_tested_at = 1700000001, tr_error = None\<rparr>"

definition upsert_keeps_only_latest_test :: bool where
  "upsert_keeps_only_latest_test \<longleftrightarrow>
     (case in_memory of
        None \<Rightarrow> False
      | Some store \<Rightarrow>
          let (saved, store) = save_test True first_record store;
              (saved', store) = save_test True second_record store
          in is_ok saved \<and> is_ok saved'
             \<and> latest_tests True store = Inr [NodeId (hex64 1) \<mapsto> second_record])"

definition rejects_ambiguous_or_out_of_range_records :: bool where
  "rejects_ambiguous_or_out_of_range_records \<longleftrightarrow>
     (case in_memory of
        None \<Rightarrow> False
      | Some store \<Rightarrow>
          fst (save_test True
            \<lparr>tr_node_id = NodeId (hex64 2),
             tr_result = Some \<lparr>ip_fraud_score = 0x4059400000000000, ip_is_residential = False,
                               ip_is_broadcast = False, ip_exit_ip = None\<rparr>,
             tr_duration_ms = 1, tr_tested_at = 0, tr_error = None\<rparr> store)
          = Inl InvalidRecord)"

definition automatic_connection_config_defaults_and_round_trips :: bool where
  "automatic_connection_config_defaults_and_round_trips \<longleftrightarrow>
     (case in_memory of
        None \<Rightarrow> False
      | Some store \<Rightarrow>
          auto_connect_config to_ascii_uppercase True store = Inr default_auto_connect
          \<and> (let config = \<lparr>ac_enabled = True, ac_region = Some ''JP'', ac_ip_type = Native,
                            ac_residential = Residential\<rparr>;
                 (saved, store) = save_auto_connect_config True config store
             in is_ok saved \<and> auto_connect_config to_ascii_uppercase True store = Inr config))"

lemma in_memory_migrated: "in_memory = Some migrated"
  by (simp add: in_memory_def open_store_def open_new ok_or_def)

lemma storage_tests:
  "upsert_keeps_only_latest_test"
  "rejects_ambiguous_or_out_of_range_records"
  "automatic_connection_config_defaults_and_round_trips"
proof -
  have valid: "valid_record first_record" "valid_record second_record" "valid_node_id (tr_node_id second_record)"
    by (simp_all add: valid_record_def first_record_def second_record_def test_scores) code_simp
  have same: "row_node_id (row_of_record first_record) = row_node_id (row_of_record second_record)"
    "stored_record second_record = second_record" "tr_node_id second_record = NodeId (hex64 1)"
    by (simp_all add: row_of_record_def first_record_def second_record_def stored_record_def sql_real_def
        f64_magnitude_def)
  have "save_test True first_record st
      = (Inr (), st\<lparr>node_tests := upsert (row_of_record first_record) (node_tests st)\<rparr>)"
    "save_test True second_record st
      = (Inr (), st\<lparr>node_tests := upsert (row_of_record second_record) (node_tests st)\<rparr>)" for st
    using valid by (auto intro!: save_test_outcome simp: first_record_def second_record_def i64_max_def)
  then show "upsert_keeps_only_latest_test"
    using valid record_from_row_of_record [of second_record] same
    by (simp add: upsert_keeps_only_latest_test_def in_memory_migrated migrated_def upsert_def latest_tests_def)
  show "rejects_ambiguous_or_out_of_range_records"
    by (simp add: rejects_ambiguous_or_out_of_range_records_def in_memory_migrated save_test_def valid_record_def
        test_scores)
  show "automatic_connection_config_defaults_and_round_trips" by code_simp
qed

end
