(* ===== verification/Unit_Tests_Net.thy ===== *)
theory Unit_Tests_Net
  imports Unit_Tests Netd_System Web_Api
begin

text \<open>
  The unit tests of the network-facing modules, as in \<open>Unit_Tests\<close>: the SOCKS wire format, the
  DNS and route parsers, the firewall scripts and network leases of the helper, and the Web API
  driven through the whole router.  SHA-256 is the identity; a mock peer is the bytes it sends and
  a check of the bytes it received.
\<close>

section \<open>\<open>socks.rs\<close>\<close>

definition rejects_private_and_special_targets :: bool where
  "rejects_private_and_special_targets \<longleftrightarrow>
     is_err (validate_target (TargetIpv4 (Ipv4Addr 127 0 0 1) 443))
     \<and> is_err (validate_target (TargetDomain ''localhost'' 443))
     \<and> is_err (validate_target (TargetDomain ''printer.local'' 443))
     \<and> is_ok (validate_target (TargetDomain ''example.com'' 443))"

definition request_encoding_uses_remote_dns_for_domains :: bool where
  "request_encoding_uses_remote_dns_for_domains \<longleftrightarrow>
     (case encode_request (TargetDomain ''example.com'' 443) of
        Inl _ \<Rightarrow> False
      | Inr request \<Rightarrow> request ! 3 = ADDRESS_DOMAIN \<and> request ! 4 = 11)"

definition rfc1929_authentication_is_required_and_checked :: bool where
  "rfc1929_authentication_is_required_and_checked \<longleftrightarrow>
     (let credentials = \<lparr>cr_username = ''user'', cr_password = SecretString ''secret''\<rparr>;
          client = [SOCKS_VERSION, 1, METHOD_PASSWORD] @ [AUTH_VERSION, 4] @ as_bytes ''user'' @ [6] @ as_bytes ''secret''
      in case negotiate_method (\<lambda>b. b) (Some credentials) (stream_of client) of
           (result, server) \<Rightarrow>
             is_ok result \<and> c_out server = [SOCKS_VERSION, METHOD_PASSWORD] @ [AUTH_VERSION, 0])"

definition test_upstream ::
    "ipv4addr \<Rightarrow> u16 \<Rightarrow> string option \<Rightarrow> secret_string option \<Rightarrow> resolved_upstream option" where
  "test_upstream ip port username password =
     Option.bind (result_ok (new_upstream ip port username password)) (\<lambda>endpoint.
       result_ok (resolve_to endpoint \<lparr>sock_ip = ip, sock_port = port\<rparr>))"

definition probe_with ::
    "string option \<Rightarrow> secret_string option \<Rightarrow> bytes \<Rightarrow> ((probe_error + unit) \<times> bytes) option" where
  "probe_with username password answers =
     (case test_upstream (Ipv4Addr 127 0 0 1) 1080 username password of
        None \<Rightarrow> None
      | Some endpoint \<Rightarrow>
          (case probe_upstream endpoint (Some (stream_of answers)) of
             (r, None) \<Rightarrow> None
           | (r, Some s) \<Rightarrow> Some (r, c_out s)))"

definition upstream_probe_checks_password_authentication :: bool where
  "upstream_probe_checks_password_authentication \<longleftrightarrow>
     probe_with (Some ''user'') (Some (SecretString ''secret''))
       ([SOCKS_VERSION, METHOD_PASSWORD] @ [AUTH_VERSION, 0])
     = Some (Inr (), [SOCKS_VERSION, 2, METHOD_NONE, METHOD_PASSWORD]
                     @ [1, 4] @ as_bytes ''user'' @ [6] @ as_bytes ''secret'')"

definition upstream_probe_reports_authentication_failure :: bool where
  "upstream_probe_reports_authentication_failure \<longleftrightarrow>
     map_option fst (probe_with None None [SOCKS_VERSION, METHOD_UNACCEPTABLE]) = Some (Inl ProbeAuthentication)"

definition test_dns_response :: "bytes \<Rightarrow> bytes" where
  "test_dns_response query =
     [0x12, 0x34, 0x81, 0x80, 0, 1, 0, 1, 0, 0, 0, 0] @ drop 12 query
     @ [0xc0, 0x0c, 0, 1, 0, 1, 0, 0, 0, 60, 0, 4, 93, 184, 216, 34]"

definition parses_a_bounded_dns_a_response :: bool where
  "parses_a_bounded_dns_a_response \<longleftrightarrow>
     (case encode_dns_query ''example.com'' 0x1234 of
        Inl _ \<Rightarrow> False
      | Inr query \<Rightarrow>
          parse_dns_a_response (test_dns_response query) 0x1234 = Inr [Ipv4Addr 93 184 216 34]
          \<and> is_err (parse_dns_a_response (test_dns_response query) 0x9999))"

definition route_row :: "string \<Rightarrow> string \<Rightarrow> string" where
  "route_row destination netmask =
     (let tab = [CHR 0x09] in
      ''tun0'' @ tab @ destination @ tab @ ''00000000'' @ tab @ ''0001'' @ tab @ ''0'' @ tab @ ''0'' @ tab @ ''0'' @ tab
      @ netmask @ tab @ ''0'' @ tab @ ''0'' @ tab @ ''0'' @ [nl])"

definition route_header :: string where
  "route_header =
     concat (map (\<lambda>column. column @ [CHR 0x09])
       [''Iface'', ''Destination'', ''Gateway'', ''Flags'', ''RefCnt'', ''Use'', ''Metric'', ''Mask'', ''MTU'', ''Window''])
     @ ''IRTT'' @ [nl]"

definition proc_route_table_requires_a_full_tunnel_route :: bool where
  "proc_route_table_requires_a_full_tunnel_route \<longleftrightarrow>
     proc_route_table_covers_public_ipv4
       (route_header @ route_row ''00000000'' ''00000080'' @ route_row ''00000080'' ''00000080'')
     \<and> proc_route_table_covers_public_ipv4 (route_header @ route_row ''00000000'' ''00000000'')
     \<and> \<not> proc_route_table_covers_public_ipv4 (route_header @ route_row ''00000000'' ''00000080'')"

lemma socks_tests:
  "rejects_private_and_special_targets"
  "request_encoding_uses_remote_dns_for_domains"
  "rfc1929_authentication_is_required_and_checked"
  "upstream_probe_checks_password_authentication"
  "upstream_probe_reports_authentication_failure"
  "proc_route_table_requires_a_full_tunnel_route"
  by code_simp+

lemma dns_test: "parses_a_bounded_dns_a_response"
proof -
  have "case encode_dns_query ''example.com'' 0x1234 of
      Inl _ \<Rightarrow> False
    | Inr query \<Rightarrow> test_dns_response query = dns_reply query [Ipv4Addr 93 184 216 34]
        \<and> take 2 (test_dns_response query) \<noteq> u16_to_be_bytes 0x9999"
    by code_simp
  then obtain query where q: "encode_dns_query ''example.com'' 0x1234 = Inr query"
    "test_dns_response query = dns_reply query [Ipv4Addr 93 184 216 34]"
    "take 2 (test_dns_response query) \<noteq> u16_to_be_bytes 0x9999"
    by (auto split: sum.splits)
  have "parse_dns_a_response (dns_reply query [Ipv4Addr 93 184 216 34]) 0x1234 = Inr [Ipv4Addr 93 184 216 34]"
    using q(1) by (rule dns_reply_parsed) simp_all
  moreover have "is_err (parse_dns_a_response (test_dns_response query) 0x9999)"
    using q(3) by (simp add: parse_dns_a_response_def is_err_def)
  ultimately show ?thesis by (simp add: parses_a_bounded_dns_a_response_def q(1,2))
qed

section \<open>\<open>netd/system.rs\<close>\<close>

definition network_indices_are_reused_only_after_the_lease_drops :: bool where
  "network_indices_are_reused_only_after_the_lease_drops \<longleftrightarrow>
     (let (first, manager) = allocate_network (manager_new 3);
          (second, manager) = allocate_network manager
      in case (first, second) of
           (Inr first, Inr second) \<Rightarrow>
             na_namespace first \<noteq> na_namespace second
             \<and> (case fst (allocate_network (release_lease (na_index first) manager)) of
                  Inl _ \<Rightarrow> False
                | Inr reused \<Rightarrow> na_namespace reused = na_namespace first)
         | _ \<Rightarrow> False)"

definition tunnel_routes_must_cover_both_ipv4_halves :: bool where
  "tunnel_routes_must_cover_both_ipv4_halves \<longleftrightarrow>
     route_output_covers_public_ipv4 (''default via 10.0.0.1 dev tun0'' @ [nl])
     \<and> route_output_covers_public_ipv4
         (''default via 10.231.0.1 dev v2w0001'' @ [nl] @ ''0.0.0.0/1 via 10.8.0.1 dev tun0'' @ [nl]
          @ ''128.0.0.0/1 via 10.8.0.1 dev tun0'' @ [nl])
     \<and> \<not> route_output_covers_public_ipv4
         (''default via 10.231.0.1 dev v2w0001'' @ [nl] @ ''0.0.0.0/1 via 10.8.0.1 dev tun0'' @ [nl])"

lemma netd_tests:
  "network_indices_are_reused_only_after_the_lease_drops"
  "tunnel_routes_must_cover_both_ipv4_halves"
proof -
  show "network_indices_are_reused_only_after_the_lease_drops"
    by (simp add: network_indices_are_reused_only_after_the_lease_drops_def manager_new_def allocate_network_def
        take_index_def network_of_index_def release_lease_def hex4_def hex_digit_def Let_def)
  show "tunnel_routes_must_cover_both_ipv4_halves" by code_simp
qed

section \<open>\<open>api/mod.rs\<close>\<close>

definition sortable_node :: "u8 \<Rightarrow> nat option \<Rightarrow> vpn_node" where
  "sortable_node v ping_ms =
     \<lparr>vn_id = NodeId (hex64 v), vn_hostname = ''vpn-'' @ show_nat (unat v), vn_ip = Ipv4Addr 1 1 1 v,
      vn_score = unat v, vn_ping_ms = ping_ms, vn_speed_bps = unat v, vn_country_long = ''Japan'',
      vn_country_short = ''JP'', vn_sessions = unat v, vn_uptime_ms = 1, vn_total_users = 1,
      vn_total_traffic_bytes = 1, vn_log_type = [], vn_operator = [], vn_message = [],
      vn_tcp_port = Some 443, vn_availability = Available, vn_openvpn = None\<rparr>"

definition scored :: "vpn_node \<Rightarrow> f64 \<Rightarrow> node_id \<times> test_record" where
  "scored node score =
     (vn_id node,
      \<lparr>tr_node_id = vn_id node,
       tr_result = Some \<lparr>ip_fraud_score = score, ip_is_residential = True, ip_is_broadcast = False,
                         ip_exit_ip = None\<rparr>,
       tr_duration_ms = 1, tr_tested_at = 0, tr_error = None\<rparr>)"

text \<open>The fraud scores are the bit patterns of 4.0 and 88.0.\<close>

definition untested_nodes_sort_last_in_both_fraud_directions :: bool where
  "untested_nodes_sort_last_in_both_fraud_directions \<longleftrightarrow>
     (let clean = sortable_node 1 (Some 10);
          risky = sortable_node 2 (Some 20);
          untested = sortable_node 3 (Some 30);
          records = map_of [scored clean 0x4010000000000000, scored risky 0x4056000000000000];
          order_by = (\<lambda>order. map vn_hostname (sort_by (compare_nodes records SortFraud order) [untested, risky, clean]))
      in order_by Asc = [''vpn-1'', ''vpn-2'', ''vpn-3''] \<and> order_by Desc = [''vpn-2'', ''vpn-1'', ''vpn-3''])"

definition nodes_without_a_ping_sort_last_in_both_directions :: bool where
  "nodes_without_a_ping_sort_last_in_both_directions \<longleftrightarrow>
     (let fast = sortable_node 1 (Some 10);
          slow = sortable_node 2 (Some 20);
          unknown = sortable_node 3 None;
          order_by = (\<lambda>order. map vn_hostname (sort_by (compare_nodes Map.empty SortPing order) [unknown, slow, fast]))
      in order_by Asc = [''vpn-1'', ''vpn-2'', ''vpn-3''] \<and> order_by Desc = [''vpn-2'', ''vpn-1'', ''vpn-3''])"

lemma f64_key_code [code]:
  "f64_key x =
     (let magnitude = uint (x AND 0x7FFFFFFFFFFFFFFF) in if f64_negative x then - magnitude - 1 else magnitude)"
  by (simp add: f64_key_def f64_magnitude_def Let_def)

lemma sorting_tests:
  "untested_nodes_sort_last_in_both_fraud_directions"
  "nodes_without_a_ping_sort_last_in_both_directions"
  by code_simp+

text \<open>
  The router tests run \<open>handle_request\<close> on a new application over an in-memory database; requests
  are given with their extracted query and payload.
\<close>

definition request_to :: "http_method \<Rightarrow> string list \<Rightarrow> payload \<Rightarrow> request" where
  "request_to m path p =
     \<lparr>rq_method = m, rq_path = path, rq_headers = \<lparr>hd_cookie = None, hd_csrf_token = None\<rparr>,
      rq_query = Some default_query, rq_payload = p\<rparr>"

definition test_env :: api_env where
  "test_env = sample_api_env\<lparr>ap_to_uppercase := to_ascii_uppercase, ap_lan_mode := False\<rparr>"

definition test_router :: "credentials option \<Rightarrow> api_state" where
  "test_router credentials =
     \<lparr>app = new_app_state default_auto_connect migrated, auth = new_auth credentials False\<rparr>"

definition status_of :: "request \<Rightarrow> api_state \<Rightarrow> nat" where
  "status_of rq s = rs_status (fst (handle_request test_env rq s))"

definition nodes_path :: "string list" where
  "nodes_path = [''api'', ''v1'', ''nodes'']"

definition node_filters_are_accepted_and_rejected_by_validation :: bool where
  "node_filters_are_accepted_and_rejected_by_validation \<longleftrightarrow>
     status_of ((request_to GET nodes_path RejectedJson)\<lparr>rq_query := Some
         \<lparr>nq_page = 1, nq_page_size = 50, nq_search = [], nq_sort = SortFraud, nq_order = Asc,
          nq_region = Some ''jp'', nq_ip_type = Native, nq_residential = Residential,
          nq_availability = OnlyAvailable\<rparr>\<rparr>) (test_router None) = 200
     \<and> status_of ((request_to GET nodes_path RejectedJson)\<lparr>rq_query := Some
         (default_query\<lparr>nq_region := Some ''far-too-long''\<rparr>)\<rparr>) (test_router None) = 400"

definition health_and_empty_nodes_are_available_without_lan_auth :: bool where
  "health_and_empty_nodes_are_available_without_lan_auth \<longleftrightarrow>
     status_of (request_to GET [''healthz''] RejectedJson) (test_router None) = 200
     \<and> (let r = fst (handle_request test_env (request_to GET [''api'', ''v1'', ''status''] RejectedJson) (test_router None))
        in rs_status r = 200
           \<and> (case rs_body r of
                StatusBody st \<Rightarrow> ss_connection st = Disconnected \<and> ss_last_refresh st = None
              | _ \<Rightarrow> False))
     \<and> (let r = fst (handle_request test_env (request_to GET [''api'', ''v1'', ''mihomo'', ''provider.yaml''] RejectedJson)
                  (test_router None))
        in rs_status r = 200 \<and> (''content-type'', ''application/yaml; charset=utf-8'') \<in> set (rs_headers r)
           \<and> rs_body r = YamlBody (''proxies: []'' @ [nl]))
     \<and> (let r = fst (handle_request test_env (request_to GET nodes_path RejectedJson) (test_router None))
        in rs_status r = 200 \<and> (case rs_body r of NodesBody page \<Rightarrow> np_total page = 0 | _ \<Rightarrow> False))"

definition invalid_connection_body_uses_json_error_envelope :: bool where
  "invalid_connection_body_uses_json_error_envelope \<longleftrightarrow>
     (let r = fst (handle_request test_env (request_to PUT [''api'', ''v1'', ''connection''] RejectedJson) (test_router None))
      in rs_status r = 400 \<and> rs_body r = ErrorBody ''invalidJson'')"

lemmas router_simps = request_to_def test_env_def test_router_def status_of_def nodes_path_def handle_request_def
  route_of_def api_route_def by_method_def page_method_def dispatch_def protected_request_def require_auth_def is_required_def
  new_auth_def security_headers_def add_header_def reply_def answer_def error_reply_def api_error_def sample_api_env_def

lemma new_application:
  "latest_tests True (test_store (initial_tests migrated)) = Inr Map.empty"
  "tests (new_app_state default_auto_connect migrated) = initial_tests migrated"
  "nodes (new_app_state default_auto_connect migrated) = []"
  by (simp_all add: new_app_state_def initial_tests_def migrated_def latest_tests_def)

lemma router_tests:
  "node_filters_are_accepted_and_rejected_by_validation"
  "health_and_empty_nodes_are_available_without_lan_auth"
  "invalid_connection_body_uses_json_error_envelope"
proof -
  note query_simps = list_nodes_def ok_or_def ensure_def query_valid_def default_query_def is_some_and_def map_err_def
    new_application Let_def
  show "node_filters_are_accepted_and_rejected_by_validation"
    by (simp add: node_filters_are_accepted_and_rejected_by_validation_def router_simps query_simps)
  show "health_and_empty_nodes_are_available_without_lan_auth"
    by (simp add: health_and_empty_nodes_are_available_without_lan_auth_def router_simps query_simps health_check_def
        mihomo_provider_def render_provider_def status_def new_app_state_def initial_actor_def sorted_nodes_def)
  show "invalid_connection_body_uses_json_error_envelope"
    by (simp add: invalid_connection_body_uses_json_error_envelope_def router_simps handle_connect_def)
qed

text \<open>
  The policy survives the trip through the handlers: it is normalised, refused when the region is
  too long, and switched off by a disconnection.
\<close>

definition policy_path :: "string list" where
  "policy_path = [''api'', ''v1'', ''auto-connection'']"

definition settings_of :: "response \<Rightarrow> auto_connect_config option" where
  "settings_of r = (case rs_body r of SettingsBody config _ \<Rightarrow> Some config | _ \<Rightarrow> None)"

definition automatic_connection_policy_is_normalized_and_returned :: bool where
  "automatic_connection_policy_is_normalized_and_returned \<longleftrightarrow>
     (let config = \<lparr>ac_enabled = True, ac_region = Some '' jp '', ac_ip_type = Native, ac_residential = Residential\<rparr>;
          long = default_auto_connect\<lparr>ac_enabled := True, ac_region := Some ''TOO-LONG-REGION''\<rparr>;
          (initial, s) = handle_request test_env (request_to GET policy_path RejectedJson) (test_router None);
          (updated, s) = handle_request test_env (request_to PUT policy_path (PolicyPayload config)) s;
          (invalid, s) = handle_request test_env (request_to PUT policy_path (PolicyPayload long)) s;
          (disconnected, s) = handle_request test_env (request_to DELETE [''api'', ''v1'', ''connection''] RejectedJson) s;
          (after_disconnect, s) = handle_request test_env (request_to GET policy_path RejectedJson) s
      in rs_status initial = 200 \<and> rs_body initial = SettingsBody default_auto_connect []
         \<and> rs_status updated = 200
         \<and> settings_of updated
           = Some \<lparr>ac_enabled = True, ac_region = Some ''JP'', ac_ip_type = Native, ac_residential = Residential\<rparr>
         \<and> rs_status invalid = 400
         \<and> rs_status disconnected = 200
         \<and> map_option ac_enabled (settings_of after_disconnect) = Some False)"

definition lan_session_requires_cookie_and_csrf_for_mutations :: bool where
  "lan_session_requires_cookie_and_csrf_for_mutations \<longleftrightarrow>
     (let credentials = \<lparr>cr_username = ''operator'', cr_password = SecretString ''secret''\<rparr>;
          connection = request_to DELETE [''api'', ''v1'', ''connection''] RejectedJson;
          (unauthorized, s) = handle_request test_env (request_to GET nodes_path RejectedJson)
            (test_router (Some credentials));
          (login, s) = handle_request test_env
            (request_to POST [''api'', ''v1'', ''auth'', ''login''] (LoginPayload ''operator'' ''secret'')) s
      in rs_status unauthorized = 401 \<and> rs_status login = 200
         \<and> (case (map_of (rs_headers login) ''set-cookie'', rs_body login) of
              (Some set_cookie, SessionBody _ (Some csrf)) \<Rightarrow>
                let cookie = hd (split_on (CHR '';'') set_cookie);
                    (missing_csrf, s) = handle_request test_env
                      (connection\<lparr>rq_headers := \<lparr>hd_cookie = Some cookie, hd_csrf_token = None\<rparr>\<rparr>) s;
                    (disconnected, s) = handle_request test_env
                      (connection\<lparr>rq_headers := \<lparr>hd_cookie = Some cookie, hd_csrf_token = Some csrf\<rparr>\<rparr>) s
                in rs_status missing_csrf = 403 \<and> rs_status disconnected = 200
            | _ \<Rightarrow> False))"

lemma policy_test: "automatic_connection_policy_is_normalized_and_returned"
  by code_simp
lemma session_cookie_text:
  "session_cookie token 28800 False
   = SESSION_COOKIE @ ''='' @ token @ ''; Path=/; HttpOnly; SameSite=Strict; Max-Age=28800''"
proof -
  have "digit_char 2 = CHR ''2''" "digit_char 8 = CHR ''8''" "digit_char 0 = CHR ''0''" by code_simp+
  then show ?thesis
    by (simp add: session_cookie_def show_nat.simps [of 28800] show_nat.simps [of 2880]
        show_nat.simps [of 288] show_nat.simps [of 28] show_nat.simps [of 2])
qed

lemma session_test: "lan_session_requires_cookie_and_csrf_for_mutations"
proof -
  let ?token = "uuid_simple 1" and ?csrf = "uuid_simple 2"
  let ?cookie = "hd (split_on (CHR '';'') (session_cookie ?token 28800 False))"
  have "hd (split_on (CHR '';'') (SESSION_COOKIE @ ''='' @ ?token @ ''; Path=/; HttpOnly; SameSite=Strict; Max-Age=28800''))
      = SESSION_COOKIE @ ''='' @ ?token"
    and csrf: "header_to_str ?csrf = Some ?csrf"
    and "cookie \<lparr>hd_cookie = Some (SESSION_COOKIE @ ''='' @ ?token), hd_csrf_token = c\<rparr> SESSION_COOKIE = Some ?token" for c
    by code_simp+
  then have some: "cookie \<lparr>hd_cookie = Some ?cookie, hd_csrf_token = c\<rparr> SESSION_COOKIE = Some ?token" for c
    by (simp only: session_cookie_text)
  have serving: "serving initial_actor"
    and "fst (disconnect_command (\<lambda>_. Inl Unavailable) initial_actor) = Inr Disconnected"
    by code_simp+
  then obtain a where idle: "disconnect_command (\<lambda>_. Inl Unavailable) initial_actor = (Inr Disconnected, a)"
    by (cases "disconnect_command (\<lambda>_. Inl Unavailable) initial_actor") simp
  have none: "cookie \<lparr>hd_cookie = None, hd_csrf_token = None\<rparr> SESSION_COOKIE = None" by (simp add: cookie_def)
  show ?thesis
    by (simp add: none some csrf serving idle lan_session_requires_cookie_and_csrf_for_mutations_def router_simps login_def login_payload_def
        credentials_match_def session_reply_def SESSION_HOURS_def lookup_session_def
        safe_method_def check_csrf_def constant_time_equal_def run_service_def disconnect_def send_command_def
        disable_auto_connect_def new_app_state_def default_auto_connect_def Let_def)
qed

end
