(* ===== verification/Spec2Isabelle.thy ===== *)
theory Spec2Isabelle
  imports Openvpn_Laws Netd_System_Laws Netd_Server Firewall Quality Relay Background Process Store_Open
    Plane Unit_Tests_Net
begin

text \<open>
  \<^bold>\<open>A verification library for vpngate2socks.\<close>

  The program turns the public VPN Gate relays into a local SOCKS5 proxy that does not leak.  The
  control plane (\<open>service.rs\<close>, \<open>api\<close>) downloads the relay list through an upstream proxy, shows
  it, tests relays and keeps one connection; the privileged helper (\<open>netd\<close>) runs each OpenVPN
  client in its own network namespace with a worker process that speaks SOCKS5 on a Unix socket;
  the gateway (\<open>socks.rs\<close>) authenticates local clients and forwards them to the active worker.
  All paths below are under \<open>src/src\<close>.

  \<^bold>\<open>Foundations.\<close>  \<open>Prelude\<close>: results (\<open>'e + 'a\<close> with \<open>and_then\<close> for the question mark
  operator), bytes and words, and the collections \<open>result_simps\<close> and \<open>rust_defs\<close>.
  \<open>Rust_Std\<close> and \<open>Rust_Std_Laws\<close>: the string, number, UTF-8 and IPv4 functions of the standard
  library the code uses.  \<open>Rust_Ordering\<close>: \<open>Ordering\<close>, sorting and maxima; the locale
  \<open>comparator\<close> is the contract of a comparison closure and is interpreted on each of the
  program's closures.  \<open>Transition_System\<close>: reachability and the locale \<open>invariant_system\<close>,
  interpreted on the test registry, the test queue, the connection actor, the repository, the
  worker manager, the listeners and the control plane with the helper, and \<open>terminating_phase\<close>, interpreted on the helper's shutdown
  and on the dispatcher of the tests.  \<open>Byte_Stream\<close>: timed streams and the locale \<open>stream_codec\<close> of an encoding
  that is read back, interpreted on helper frames and SOCKS messages.  \<open>Event_Logic\<close>: the locale
  \<open>event_logic\<close> of monitors over logs of system calls, interpreted for resources and for order.

  \<^bold>\<open>Input from outside.\<close>  \<open>Domain\<close> and \<open>Domain_Nodes\<close> model \<open>domain.rs\<close>: identifiers, the
  upstream endpoint, nodes, records, policies, life cycles, and the public IPv4 predicate, proved
  equivalent to a list of ranges.  \<open>Openvpn\<close> is the sanitizer of \<open>openvpn.rs\<close>; its laws show
  that every line of an accepted profile comes from the allowlist, that sanitizing again changes at
  most the place of one line and is then stable, and one way a closing tag with trailing text is read differently from OpenVPN.
  \<open>Vpngate\<close> is the CSV snapshot of \<open>vpngate.rs\<close>; accepted nodes satisfy the limits and the
  statistics add up.  \<open>Quality\<close> is the IPPure client of \<open>quality.rs\<close>, \<open>Mihomo\<close> the YAML
  provider of \<open>mihomo.rs\<close>, \<open>App_Config\<close> the environment of \<open>config.rs\<close>: an accepted
  configuration is well formed.  \<open>Redaction\<close> is what the types that hold secrets print for
  debugging, which does not depend on the secret.

  \<^bold>\<open>The proxy path.\<close>  \<open>Socks\<close>, \<open>Socks_Dns\<close> and \<open>Socks_Laws\<close> model \<open>socks.rs\<close>: handshakes,
  authentication, requests and replies, the DNS client over the tunnel, the route table check, the
  connection handlers of gateway and worker and the upstream probe.  A worker connects only to
  public addresses, the gateway serves only authenticated clients, and the two agree on the
  request that is forwarded.  \<open>Listener\<close> is the accept loop of both servers with its permits,
  \<open>Relay\<close> the handlers to their end: payload bytes pass unchanged in both directions.
  \<open>Proxy_System\<close> runs the gateway beside the connection actor, one visible effect at a time: a
  session is relayed only through the socket of a live worker.

  \<^bold>\<open>The helper.\<close>  \<open>Netd_Protocol\<close> models the frames and the client of \<open>netd/protocol.rs\<close>;
  \<open>Netd_Workers\<close> the reservations, leases and networks of \<open>netd/system.rs\<close> under interleaving
  (every pair of live workers has disjoint networks; a race in the capacity check is exhibited);
  \<open>Netd_System\<close> the start, stop, waits, set-up and shutdown as programs over logged system calls
  whose answers are an oracle.  \<open>Netd_System_Laws\<close>: a failed start releases what it acquired,
  OpenVPN is spawned only after firewall and sanitizer, client and helper agree on every request.
  \<open>Netd_Server\<close> is the accept loop of \<open>run_netd\<close> with its client tasks: it is a run of the
  worker manager, and its shutdown ends with every worker stopped.  \<open>Firewall\<close> reads the rules
  out of the two firewall scripts and shows what can leave a worker's namespace.

  \<^bold>\<open>The control plane.\<close>  \<open>Storage\<close> models the queries of \<open>storage.rs\<close> on tables and refines them
  to a map; \<open>Store_Open\<close> opens the pool and runs the migrations.  \<open>Auto_Connect\<close>, \<open>Automatic_Tests\<close> and \<open>Test_Registry\<close> are the policies and the
  registry.  \<open>Connection_Actor\<close> is the connection actor of \<open>service.rs\<close>, one function per branch
  and a step relation over them: the published socket follows the active connection, switching is
  make-before-break, no worker is stopped while routed to or forgotten, automatic connection makes
  progress.  \<open>Test_Queue\<close> is the bounded queue, dispatcher and the segments of a test run, between which
  other tasks run, with exact accounting,
  \<open>Background\<close> the loops that drive it: accepted tests finish;
  \<open>Service\<close> the remaining operations of \<open>AppState\<close>; \<open>Web_Auth\<close> and \<open>Web_Api\<close> the sessions,
  routing and handlers of \<open>api\<close>; \<open>Control_Plane\<close> the start-up in \<open>lib.rs\<close> and \<open>Process\<close>
  its roles, signals and end.  This theory adds the properties that span configuration, start-up,
  routing, sessions and the database.

  \<^bold>\<open>Conventions.\<close>  A component's state is a record, each operation a function on it; operations
  that can fail return the error as \<open>Inl\<close>.  Strings are UTF-8 byte strings.  Clocks, random
  identifiers and the answers of other processes are arguments; hash functions, codecs and parsers
  of other crates are arguments without assumptions unless a statement names one.  Machine
  integers are words where they can wrap (network indices, addresses, counters of the status page);
  other bounded integers are naturals with the bound written out.  Loops are structural or carry
  the bound of the source: 128 labels of a DNS name, the polls of a wait, the rows of a snapshot,
  so no fuel is invented; a wait whose polls run out is the source's timeout.

  \<^bold>\<open>Control plane and helper together.\<close>  \<open>Fleet\<close> models a call of \<open>netd/protocol.rs\<close> with both of
  its ends, the caller and the helper's task, and what the helper's table is when every call is in
  turn.  \<open>Plane\<close> composes the connection actor, the test runner and the serving helper into one
  transition system with every interleaving of their steps, and shows that every call the control
  plane makes is in turn: the helper runs the workers the control plane holds, for a connection, a
  drain or a test, and no others unless the result of a request was lost; a start whose reply the
  caller no longer waits for leaves a worker nobody stops.

  \<^bold>\<open>Unit tests.\<close>  \<open>Unit_Tests\<close> and \<open>Unit_Tests_Net\<close> run the repository's own tests on the model,
  those of the Web API through the whole router.

  \<^bold>\<open>Not modelled.\<close>  Other crates, which appear as arguments: HTTP, TLS, JSON and CSV encoding,
  the resolver, SQLite itself, \<open>copy_bidirectional\<close>, the kernel and \<open>nft\<close>.  Command line parsing,
  the tracing subscriber, log output, the zeroing of dropped secrets and
  localised messages, which no other part of the program reads.  Static files of the web
  interface and its TypeScript sources.  The derived serialisation of the types (\<open>serde\<close>) and its tests.
\<close>

section \<open>Properties that span the components\<close>

text \<open>
  C7.  In LAN mode strangers are locked out.  If the environment is accepted with LAN mode on and
  the control plane starts with that configuration, then web credentials are configured, and
  whatever sequence of requests is sent to the server, as long as none of them is a login with
  those credentials, the whole state (service and sessions) is exactly what it was at the start
  and every request to a protected route is answered 401.
\<close>

theorem lan_mode_locks_out_strangers:
  assumes "from_env parse_v6 url_parse env = Inr config" and "lan_mode config"
    and "run_control_plane to_uppercase netd opened served config = Inr cp"
    and "list_all (\<lambda>(env, rq). \<nexists>c. web_credentials config = Some c \<and> valid_login c env rq) requests"
  shows "web_credentials config \<noteq> None \<and> snd (serve requests (cp_api cp)) = cp_api cp
    \<and> list_all2 (\<lambda>(env, rq) r. is_protected (route_of (rq_method rq) (rq_path rq)) \<longrightarrow> rs_status r = 401)
        requests (fst (serve requests (cp_api cp)))"
proof -
  have "is_required (auth (cp_api cp))" by (rule lan_mode_requires_login [OF assms(3,1,2)])
  then obtain c where c: "web_credentials config = Some c"
    using started_control_plane(4) [OF assms(3)] by blast
  have "auth_credentials (auth (cp_api cp)) = Some c" "auth_sessions (auth (cp_api cp)) = Map.empty"
    using started_auth [OF assms(3)] c by (simp_all add: new_auth_def)
  moreover have "list_all (\<lambda>(env, rq). \<not> valid_login c env rq) requests"
    using assms(4) c by simp
  ultimately show ?thesis using c outsider_serve [of "cp_api cp" c requests] by blast
qed

theorem lan_mode_locks_out_strangers_witness:
  "\<exists>config cp. from_env (\<lambda>_. None) sample_url lan_env = Inr config \<and> lan_mode config
    \<and> run_control_plane (\<lambda>s. s) (\<lambda>_. Inr (Pong \<lparr>sock_ip = Ipv4Addr 10 0 0 1, sock_port = 99\<rparr>)) (Inr migrated) True config = Inr cp
    \<and> snd (serve [(sample_api_env, sample_request DELETE ''connection'' \<lparr>hd_cookie = None, hd_csrf_token = None\<rparr> RejectedJson)]
        (cp_api cp)) = cp_api cp"
proof -
  let ?netd = "\<lambda>_. Inr (Pong \<lparr>sock_ip = Ipv4Addr 10 0 0 1, sock_port = 99\<rparr>)"
  let ?rq = "sample_request DELETE ''connection'' \<lparr>hd_cookie = None, hd_csrf_token = None\<rparr> RejectedJson"
  obtain config where config: "from_env (\<lambda>_. None) sample_url lan_env = Inr config" "lan_mode config"
    "web_credentials config = Some sample_credentials"
    "upstream config = \<lparr>ue_host = ''10.0.0.1'', ue_port = 99, ue_username = None, ue_password = None\<rparr>"
    using lan_config_accepted by blast
  have host: "parse_ipv4 ''10.0.0.1'' = Some (Ipv4Addr 10 0 0 1)" "is_valid_upstream_ipv4 (Ipv4Addr 10 0 0 1)"
    by code_simp+
  have policy: "Storage.auto_connect_config (\<lambda>s. s) True migrated = Inr default_auto_connect" by code_simp
  obtain cp where cp: "run_control_plane (\<lambda>s. s) ?netd (Inr migrated) True config = Inr cp"
    using config(4) policy
    by (simp add: run_control_plane_def client_ping_def map_err_def resolve_to_def host ensure_def)
  have "list_all (\<lambda>(env, rq). \<nexists>c. web_credentials config = Some c \<and> valid_login c env rq) [(sample_api_env, ?rq)]"
    using config(3) by (simp add: valid_login_def sample_request_def login_payload_def)
  from lan_mode_locks_out_strangers [OF config(1,2) cp this] config(1,2) cp show ?thesis by blast
qed

text \<open>
  C22.  A policy that was accepted survives a restart.  Suppose the service accepted a change of the
  automatic connection policy (which normalizes it), the process ends, and a new control plane
  opens the database with the tables as they were left: opening it neither fails nor changes it,
  and the started control plane runs with exactly the accepted policy.  Upper-casing is only
  assumed to be stable: applied to a normalized region it changes nothing.
\<close>

theorem restart_keeps_policy:
  assumes "\<And>r. to_uppercase (trim (to_uppercase (trim r))) = to_uppercase (trim r)"
    and "set_auto_connect_config to_uppercase served wanted s = (Inr c, s')"
    and "open_store parse (\<lambda>_ _. Some (database_of (test_store (tests s')))) migrates url = Inr db"
    and "run_control_plane to_uppercase netd (ok_or Sql (tables_of db)) True config = Inr cp"
  shows "auto_connect (app (cp_api cp)) = c \<and> recorded (test_store (tests (app (cp_api cp)))) = recorded (test_store (tests s'))"
proof -
  have "normalized to_uppercase wanted = Inr c"
    using assms(2) by (auto simp: set_auto_connect_config_def split: sum.splits prod.splits)
  then have "normalized to_uppercase c = Inr c"
    using assms(1) by (auto simp: normalized_def Let_def option_filter_def split: if_splits option.splits)
  from policy_change [OF assms(2) this]
  have c: "Storage.auto_connect_config to_uppercase True (test_store (tests s')) = Inr c" by blast
  have "tables_of db = Some (test_store (tests s'))"
    using assms(3) unfolding reopen_same by (auto simp: result_simps)
  then show ?thesis
    using assms(4) c by (auto simp: run_control_plane_def result_simps ok_or_def new_api_def new_app_state_def initial_tests_def)
qed

theorem restart_keeps_policy_witness:
  "\<exists>config cp. from_env (\<lambda>_. None) sample_url lan_env = Inr config
    \<and> run_control_plane (\<lambda>s. s) (\<lambda>_. Inr (Pong \<lparr>sock_ip = Ipv4Addr 10 0 0 1, sock_port = 99\<rparr>))
        (ok_or Sql (tables_of (database_of (test_store (tests (snd (set_auto_connect_config (\<lambda>s. s) True
          (default_auto_connect\<lparr>ac_enabled := True\<rparr>) (new_app_state default_auto_connect migrated)))))))) True config = Inr cp
    \<and> auto_connect (app (cp_api cp)) = default_auto_connect\<lparr>ac_enabled := True\<rparr>"
proof -
  let ?netd = "\<lambda>_. Inr (Pong \<lparr>sock_ip = Ipv4Addr 10 0 0 1, sock_port = 99\<rparr>)"
  let ?c = "default_auto_connect\<lparr>ac_enabled := True\<rparr>"
  obtain config where config: "from_env (\<lambda>_. None) sample_url lan_env = Inr config"
    "upstream config = \<lparr>ue_host = ''10.0.0.1'', ue_port = 99, ue_username = None, ue_password = None\<rparr>"
    using lan_config_accepted by blast
  have host: "parse_ipv4 ''10.0.0.1'' = Some (Ipv4Addr 10 0 0 1)" "is_valid_upstream_ipv4 (Ipv4Addr 10 0 0 1)"
    by code_simp+
  obtain s' where s': "set_auto_connect_config (\<lambda>s. s) True ?c (new_app_state default_auto_connect migrated) = (Inr ?c, s')"
    by (simp add: set_auto_connect_config_def normalized_def default_auto_connect_def with_store_def new_app_state_def
        save_auto_connect_config_def policy_of_config_def auto_connect_check_def)
  have n: "normalized (\<lambda>s. s) ?c = Inr ?c" by (simp add: normalized_def default_auto_connect_def)
  obtain cp where cp: "run_control_plane (\<lambda>s. s) ?netd (ok_or Sql (tables_of (database_of (test_store (tests s'))))) True config = Inr cp"
    using config(2) policy_change [OF s' n]
    by (simp add: run_control_plane_def client_ping_def map_err_def resolve_to_def host ensure_def ok_or_def)
  have "open_store (\<lambda>_. Some ()) (\<lambda>_ _. Some (database_of (test_store (tests s')))) (\<lambda>_. True) ''db'' = Inr (database_of (test_store (tests s')))"
    by (simp add: reopen_same ok_or_def)
  from restart_keeps_policy [OF _ s' this cp] have "auto_connect (app (cp_api cp)) = ?c" by (simp add: trim_idem)
  with config(1) cp s' show ?thesis by auto
qed

end
